(* ===== verification/Chunk_Prelude.thy ===== *)
theory Chunk_Prelude
  imports Complex_Main
begin

text \<open>
  Shared vocabulary of the development: C++ integers at their width, the standard
  containers the server iterates over, and the list idioms of the managers
  (\<^verbatim>\<open>std::find_if\<close>, "update the first match and return", \<^verbatim>\<open>std::remove_if\<close>).

  A C++ \<open>int\<close> is an \<^typ>\<open>int\<close> whose additions and products are passed through
  \<open>wrap32\<close>, the two's complement result of the x86-64 targets the build files name.
  (Signed overflow is undefined in C++; \<open>wrap32\<close> is what the compiled code does, and
  every theorem that needs the exact value has an explicit range hypothesis.)
\<close>

named_theorems inv_simps \<open>inventory algebra: quantities after each inventory operation\<close>
named_theorems out_simps \<open>what each emission helper leaves unchanged\<close>

section \<open>Machine integers\<close>

definition wrap32 :: "int \<Rightarrow> int" where
  "wrap32 x = (x + 2 ^ 31) mod 2 ^ 32 - 2 ^ 31"

definition in_i32 :: "int \<Rightarrow> bool" where
  "in_i32 x \<longleftrightarrow> - (2 ^ 31) \<le> x \<and> x < 2 ^ 31"

abbreviation INT_LIM :: int where
  "INT_LIM \<equiv> 2147483648"

lemma in_i32_iff: "in_i32 x \<longleftrightarrow> - INT_LIM \<le> x \<and> x < INT_LIM"
  by (simp add: in_i32_def)

lemma wrap32_id [simp]: "in_i32 x \<Longrightarrow> wrap32 x = x"
  by (simp add: wrap32_def in_i32_def mod_pos_pos_trivial)

lemma in_i32_wrap32 [simp]: "in_i32 (wrap32 x)"
  by (simp add: wrap32_def in_i32_def)

lemma in_i32_0 [simp]: "in_i32 0" and in_i32_1 [simp]: "in_i32 1"
  by (simp_all add: in_i32_def)

lemma in_i32_between: "in_i32 b \<Longrightarrow> 0 \<le> a \<Longrightarrow> a \<le> b \<Longrightarrow> in_i32 a"
  by (simp add: in_i32_def)

lemma wrap32_wrap_add [simp]: "wrap32 (wrap32 x + y) = wrap32 (x + y)"
proof -
  have "((x + 2 ^ 31) mod 2 ^ 32 + y) mod (2 ^ 32 :: int) = (x + 2 ^ 31 + y) mod 2 ^ 32"
    by (rule mod_add_left_eq)
  then show ?thesis by (simp add: wrap32_def algebra_simps)
qed

text \<open>The accumulation loop \<open>total += x\<close> of the managers.\<close>

fun sum_i32 :: "int \<Rightarrow> int list \<Rightarrow> int" where
  "sum_i32 acc [] = acc"
| "sum_i32 acc (x # xs) = sum_i32 (wrap32 (acc + x)) xs"

lemma sum_i32_wrap: "in_i32 acc \<Longrightarrow> sum_i32 acc xs = wrap32 (acc + sum_list xs)"
  by (induction xs arbitrary: acc) (simp_all add: add.assoc)

lemma sum_i32_exact: "in_i32 (sum_list xs) \<Longrightarrow> sum_i32 0 xs = sum_list xs"
  by (simp add: sum_i32_wrap)

section \<open>List idioms\<close>

text \<open>\<^verbatim>\<open>for (auto &x : v) if (P x) { x = f x; return; }\<close>\<close>

fun upd_first :: "('a \<Rightarrow> bool) \<Rightarrow> ('a \<Rightarrow> 'a) \<Rightarrow> 'a list \<Rightarrow> 'a list" where
  "upd_first P f [] = []"
| "upd_first P f (x # xs) = (if P x then f x # xs else x # upd_first P f xs)"

text \<open>\<^verbatim>\<open>v.erase(it)\<close> for the first element that satisfies the predicate.\<close>

fun del_first :: "('a \<Rightarrow> bool) \<Rightarrow> 'a list \<Rightarrow> 'a list" where
  "del_first P [] = []"
| "del_first P (x # xs) = (if P x then xs else x # del_first P xs)"

lemma length_upd_first [simp]: "length (upd_first P f xs) = length xs"
  by (induction xs) auto

lemma map_upd_first_inv: "(\<And>x. g (f x) = g x) \<Longrightarrow> map g (upd_first P f xs) = map g xs"
  by (induction xs) auto

lemma upd_first_noop: "find P xs = None \<Longrightarrow> upd_first P f xs = xs"
  by (induction xs) (auto split: if_splits)

lemma find_upd_first:
  "(\<And>x. P x \<Longrightarrow> P (f x)) \<Longrightarrow> find P (upd_first P f xs) = map_option f (find P xs)"
  by (induction xs) auto

lemma find_SomeD: "find P xs = Some x \<Longrightarrow> x \<in> set xs \<and> P x"
  by (induction xs) (auto split: if_splits)

lemma list_all_upd_first:
  "list_all Q xs \<Longrightarrow> (\<And>x. Q x \<Longrightarrow> P x \<Longrightarrow> Q (f x)) \<Longrightarrow> list_all Q (upd_first P f xs)"
  by (induction xs) auto

lemma list_all_del_first: "list_all Q xs \<Longrightarrow> list_all Q (del_first P xs)"
  by (induction xs) auto

lemma set_upd_first: "x \<in> set (upd_first P f xs) \<Longrightarrow> x \<in> set xs \<or> (\<exists>y\<in>set xs. P y \<and> x = f y)"
  by (induction xs) (auto split: if_splits)

lemma find_filter_other:
  "(\<And>x. P x \<Longrightarrow> Q x) \<Longrightarrow> find P (filter Q xs) = find P xs"
  by (induction xs) auto

lemma find_append: "find P (xs @ ys) = (case find P xs of Some y \<Rightarrow> Some y | None \<Rightarrow> find P ys)"
  by (induction xs) auto

lemma list_all_find: "list_all Q xs \<Longrightarrow> find P xs = Some x \<Longrightarrow> Q x"
  by (auto simp: list_all_iff dest: find_SomeD)

lemma filter_absent: "k \<notin> f ` set xs \<Longrightarrow> filter (\<lambda>x. f x \<noteq> k) xs = xs"
  by (induction xs) auto

section \<open>Ordered and hashed maps that are iterated\<close>

text \<open>
  \<^verbatim>\<open>std::map\<close> is iterated in key order, so where an operation iterates it the model
  keeps the sorted list of its entries. Look-up is \<^const>\<open>map_of\<close>.
\<close>

fun omap_put :: "'k::linorder \<Rightarrow> 'v \<Rightarrow> ('k \<times> 'v) list \<Rightarrow> ('k \<times> 'v) list" where
  "omap_put k v [] = [(k, v)]"
| "omap_put k v ((k', v') # m) =
     (if k < k' then (k, v) # (k', v') # m
      else if k = k' then (k, v) # m
      else (k', v') # omap_put k v m)"

definition omap_erase :: "'k \<Rightarrow> ('k \<times> 'v) list \<Rightarrow> ('k \<times> 'v) list" where
  "omap_erase k m = filter (\<lambda>e. fst e \<noteq> k) m"

definition omap_sorted :: "('k::linorder \<times> 'v) list \<Rightarrow> bool" where
  "omap_sorted m \<longleftrightarrow> sorted_wrt (<) (map fst m)"

lemma map_of_omap_put [simp]: "map_of (omap_put k v m) = (map_of m)(k \<mapsto> v)"
  by (induction k v m rule: omap_put.induct) (auto simp: fun_eq_iff)

lemma map_of_omap_erase [simp]: "map_of (omap_erase k m) = (map_of m)(k := None)"
  by (induction m) (auto simp: omap_erase_def fun_eq_iff)

lemma set_keys_omap_put [simp]: "fst ` set (omap_put k v m) = insert k (fst ` set m)"
  by (induction k v m rule: omap_put.induct) auto

lemma omap_sorted_put [simp]: "omap_sorted m \<Longrightarrow> omap_sorted (omap_put k v m)"
proof (induction k v m rule: omap_put.induct)
  case (2 k v k' v' m)
  have "fst ` set (omap_put k v m) = insert k (fst ` set m)" by simp
  with 2 show ?case by (fastforce simp: omap_sorted_def)
qed (simp add: omap_sorted_def)

lemma omap_sorted_erase [simp]: "omap_sorted m \<Longrightarrow> omap_sorted (omap_erase k m)"
  by (induction m) (auto simp: omap_sorted_def omap_erase_def)

lemma omap_sorted_distinct: "omap_sorted m \<Longrightarrow> distinct (map fst m)"
  by (auto simp: omap_sorted_def strict_sorted_iff)

text \<open>\<^verbatim>\<open>for (x : v) groups[key(x)].push_back(x)\<close> over a \<^verbatim>\<open>std::map\<close>.\<close>

definition omap_push :: "('a \<Rightarrow> 'k::linorder) \<Rightarrow> 'a \<Rightarrow> ('k \<times> 'a list) list \<Rightarrow> ('k \<times> 'a list) list" where
  "omap_push key x m =
     omap_put (key x) (case map_of m (key x) of None \<Rightarrow> [x] | Some xs \<Rightarrow> xs @ [x]) m"

definition omap_group :: "('a \<Rightarrow> 'k::linorder) \<Rightarrow> 'a list \<Rightarrow> ('k \<times> 'a list) list" where
  "omap_group key v = fold (omap_push key) v []"

lemma omap_group_snoc: "omap_group key (v @ [x]) = omap_push key x (omap_group key v)"
  by (simp add: omap_group_def)

lemma omap_group_Nil [simp]: "omap_group key [] = []"
  by (simp add: omap_group_def)

lemma omap_group_sorted [simp]: "omap_sorted (omap_group key v)"
  by (induction v rule: rev_induct) (simp_all add: omap_group_snoc omap_push_def, simp add: omap_sorted_def)

lemma map_of_omap_group:
  "map_of (omap_group key v) k
     = (let xs = filter (\<lambda>x. key x = k) v in if xs = [] then None else Some xs)"
  by (induction v rule: rev_induct)
    (auto simp: omap_group_snoc omap_push_def Let_def split: option.splits if_splits)

lemma omap_group_entry:
  assumes "(k, xs) \<in> set (omap_group key v)"
  shows "xs = filter (\<lambda>x. key x = k) v" "xs \<noteq> []"
proof -
  have "map_of (omap_group key v) k = Some xs"
    using assms by (simp add: omap_sorted_distinct)
  then show "xs = filter (\<lambda>x. key x = k) v" "xs \<noteq> []"
    by (auto simp: map_of_omap_group Let_def split: if_splits)
qed

text \<open>
  \<^verbatim>\<open>std::unordered_map\<close> is iterated in an unspecified order. Its model is an association
  list in an arbitrary order: nothing proved below depends on which.
\<close>

fun umap_put :: "'k \<Rightarrow> 'v \<Rightarrow> ('k \<times> 'v) list \<Rightarrow> ('k \<times> 'v) list" where
  "umap_put k v [] = [(k, v)]"
| "umap_put k v ((k', v') # m) = (if k = k' then (k, v) # m else (k', v') # umap_put k v m)"

lemma map_of_umap_put [simp]: "map_of (umap_put k v m) = (map_of m)(k \<mapsto> v)"
  by (induction k v m rule: umap_put.induct) (auto simp: fun_eq_iff)

lemma set_keys_umap_put [simp]: "fst ` set (umap_put k v m) = insert k (fst ` set m)"
  by (induction k v m rule: umap_put.induct) auto

lemma distinct_umap_put [simp]:
  "distinct (map fst m) \<Longrightarrow> distinct (map fst (umap_put k v m))"
proof (induction k v m rule: umap_put.induct)
  case (2 k v k' v' m)
  have "fst ` set (umap_put k v m) = insert k (fst ` set m)" by simp
  with 2 show ?case by auto
qed simp

lemma distinct_omap_erase [simp]: "distinct (map fst m) \<Longrightarrow> distinct (map fst (omap_erase k m))"
  by (induction m) (auto simp: omap_erase_def)

text \<open>\<^verbatim>\<open>if (it != m.end()) f(it->second)\<close>\<close>

definition umap_modify :: "'k \<Rightarrow> ('v \<Rightarrow> 'v) \<Rightarrow> ('k \<times> 'v) list \<Rightarrow> ('k \<times> 'v) list" where
  "umap_modify k f m = map (\<lambda>(k', v). (k', if k' = k then f v else v)) m"

lemma map_of_umap_modify [simp]:
  "map_of (umap_modify k f m) = (map_of m)(k := map_option f (map_of m k))"
  by (induction m) (auto simp: umap_modify_def fun_eq_iff)

lemma keys_umap_modify [simp]: "map fst (umap_modify k f m) = map fst m"
  by (auto simp: umap_modify_def)

lemma umap_modify_absent: "map_of m k = None \<Longrightarrow> umap_modify k f m = m"
  by (induction m) (auto simp: umap_modify_def split: if_splits)

lemma list_all_umap_modify:
  "list_all (\<lambda>(k, v). P k v) m \<Longrightarrow> (\<And>v. P k v \<Longrightarrow> P k (f v)) \<Longrightarrow> list_all (\<lambda>(k, v). P k v) (umap_modify k f m)"
  by (induction m) (auto simp: umap_modify_def)

lemma list_all_umap_put:
  "list_all (\<lambda>(k, v). P k v) m \<Longrightarrow> P k v \<Longrightarrow> list_all (\<lambda>(k, v). P k v) (umap_put k v m)"
  by (induction k v m rule: umap_put.induct) auto

lemma list_all_omap_erase: "list_all P m \<Longrightarrow> list_all P (omap_erase k m)"
  by (auto simp: omap_erase_def list_all_iff)

lemma list_all_map_of: "list_all (\<lambda>(k, v). P k v) m \<Longrightarrow> map_of m k = Some v \<Longrightarrow> P k v"
  by (induction m) (auto split: if_splits)

end
