(* ===== verification/Chunk_Floats.thy ===== *)
theory Chunk_Floats
  imports Chunk_Prelude "HOL-Library.Log_Nat"
begin

text \<open>
  IEEE-754 binary32 and binary64 arithmetic as the C++ code uses it: a value is the
  rational it denotes, and every operation is the exact operation followed by rounding
  to nearest, ties to even (\<open>fround\<close>). Subnormals are covered by the lower bound on the
  exponent; infinities and NaN are outside the model (the values of the game are far
  below 2^128 and the code never divides by zero where this theory is used).
\<close>

type_synonym float32 = rat
type_synonym float64 = rat

section \<open>Rounding\<close>

definition rnd_even :: "rat \<Rightarrow> int" where
  "rnd_even x =
     (let f = \<lfloor>x\<rfloor>; d = x - of_int f
      in if d < 1 / 2 then f else if 1 / 2 < d then f + 1 else if even f then f else f + 1)"

text \<open>\<open>ilog2 x\<close> is the exponent of the binade of \<open>x > 0\<close>: 2^e <= x < 2^(e+1).\<close>

definition ilog2 :: "rat \<Rightarrow> int" where
  "ilog2 x = (if 1 \<le> x then int (floorlog 2 (nat \<lfloor>x\<rfloor>)) - 1
              else - int (floorlog 2 (nat (\<lceil>1 / x\<rceil> - 1))))"

definition fround :: "nat \<Rightarrow> int \<Rightarrow> rat \<Rightarrow> rat" where
  "fround p emin x =
     (if x = 0 then 0
      else let e = max emin (ilog2 \<bar>x\<bar> - int p + 1)
           in sgn x * of_int (rnd_even (\<bar>x\<bar> / 2 powi e)) * 2 powi e)"

definition fl32 :: "rat \<Rightarrow> float32" where
  "fl32 x = fround 24 (- 149) x"

definition fl64 :: "rat \<Rightarrow> float64" where
  "fl64 x = fround 53 (- 1074) x"

text \<open>\<^verbatim>\<open>static_cast<int>\<close> of a float truncates towards zero.\<close>

definition trunc_int :: "rat \<Rightarrow> int" where
  "trunc_int x = (if 0 \<le> x then \<lfloor>x\<rfloor> else \<lceil>x\<rceil>)"

text \<open>When the value does not fit an \<open>int\<close> the conversion is undefined in C++; the x86-64
  instruction the compilers emit returns the smallest \<open>int\<close>.\<close>

definition cast_i32 :: "rat \<Rightarrow> int" where
  "cast_i32 x = (let n = trunc_int x in if in_i32 n then n else - INT_LIM)"

text \<open>\<^verbatim>\<open>std::round\<close> rounds halves away from zero.\<close>

definition round_away :: "rat \<Rightarrow> int" where
  "round_away x = (if 0 \<le> x then \<lfloor>x + 1 / 2\<rfloor> else - \<lfloor>- x + 1 / 2\<rfloor>)"

section \<open>Facts about rounding\<close>

lemma rnd_even_int [simp]: "rnd_even (of_int n) = n"
  by (simp add: rnd_even_def)

lemma rnd_even_bounds: "\<lfloor>x\<rfloor> \<le> rnd_even x \<and> rnd_even x \<le> \<lfloor>x\<rfloor> + 1"
  by (simp add: rnd_even_def Let_def)

lemma rnd_even_mono:
  assumes "x \<le> y" shows "rnd_even x \<le> rnd_even y"
proof (cases "\<lfloor>x\<rfloor> = \<lfloor>y\<rfloor>")
  case True
  with assms show ?thesis by (auto simp: rnd_even_def Let_def)
next
  case False
  with assms have "\<lfloor>x\<rfloor> + 1 \<le> \<lfloor>y\<rfloor>" using floor_mono[OF assms] by linarith
  with rnd_even_bounds[of x] rnd_even_bounds[of y] show ?thesis by linarith
qed

lemma rnd_even_ge: "of_int n \<le> x \<Longrightarrow> n \<le> rnd_even x"
  using rnd_even_mono[of "of_int n" x] by simp

lemma rnd_even_le: "x \<le> of_int n \<Longrightarrow> rnd_even x \<le> n"
  using rnd_even_mono[of x "of_int n"] by simp

lemma floorlog2_bounds:
  assumes "0 < n"
  shows "2 ^ (floorlog 2 n - 1) \<le> n" and "n < 2 ^ floorlog 2 n"
  using assms floorlog_bounds[of n 2] by auto

lemma floorlog2_pos: "0 < n \<Longrightarrow> 0 < floorlog 2 n"
  by (simp add: floorlog_def)

lemma ilog2_ge1:
  assumes "1 \<le> x" shows "2 powi ilog2 x \<le> x" and "x < 2 powi (ilog2 x + 1)"
proof -
  define n where "n = nat \<lfloor>x\<rfloor>"
  have n: "0 < n" "of_nat n = (of_int \<lfloor>x\<rfloor> :: rat)"
    using assms by (auto simp: n_def le_floor_iff)
  define k where "k = floorlog 2 n"
  have kpos: "0 < k" using n floorlog2_pos by (simp add: k_def)
  have il: "ilog2 x = int (k - 1)" using assms kpos by (simp add: ilog2_def n_def k_def)
  have "(of_nat (2 ^ (k - 1)) :: rat) \<le> of_nat n"
    using floorlog2_bounds(1)[OF n(1)] of_nat_le_iff unfolding k_def by blast
  also have "\<dots> \<le> x" using n(2) by simp
  finally show "2 powi ilog2 x \<le> x" by (simp only: il power_int_of_nat) simp
  have "n + 1 \<le> 2 ^ k" using floorlog2_bounds(2)[OF n(1)] by (simp add: k_def)
  then have "(of_nat (n + 1) :: rat) \<le> of_nat (2 ^ k)" using of_nat_le_iff by blast
  moreover have "x < of_nat (n + 1)" using n(2) by simp linarith
  ultimately have "x < 2 ^ k" by simp
  moreover have "ilog2 x + 1 = int k" using il kpos by simp
  ultimately show "x < 2 powi (ilog2 x + 1)" by (simp only: power_int_of_nat)
qed

lemma ilog2_lt1:
  assumes "0 < x" "x < 1" shows "2 powi ilog2 x \<le> x" and "x < 2 powi (ilog2 x + 1)"
proof -
  define n where "n = nat (\<lceil>1 / x\<rceil> - 1)"
  have x1: "1 < 1 / x" using assms by simp
  then have c: "1 < \<lceil>1 / x\<rceil>" by (simp only: less_ceiling_iff of_int_1)
  then have "int n = \<lceil>1 / x\<rceil> - 1" unfolding n_def by linarith
  then have n: "0 < n" "of_nat n = (of_int \<lceil>1 / x\<rceil> - 1 :: rat)"
    using c by (linarith, metis of_int_1 of_int_diff of_int_of_nat_eq)
  define k where "k = floorlog 2 n"
  have il: "ilog2 x = - int k" using assms by (simp add: ilog2_def n_def k_def)
  have kpos: "0 < k" using n floorlog2_pos by (simp add: k_def)
  have "n + 1 \<le> 2 ^ k" using floorlog2_bounds(2)[OF n(1)] by (simp add: k_def)
  then have "(of_nat (n + 1) :: rat) \<le> of_nat (2 ^ k)" using of_nat_le_iff by blast
  moreover have "1 / x \<le> of_nat (n + 1)" using n(2) by simp
  ultimately have "1 / x \<le> 2 ^ k" by simp
  then have "1 / 2 ^ k \<le> x" using assms by (simp add: field_simps)
  then show "2 powi ilog2 x \<le> x" by (simp add: il power_int_minus inverse_eq_divide)
  have "(of_nat (2 ^ (k - 1)) :: rat) \<le> of_nat n"
    using floorlog2_bounds(1)[OF n(1)] of_nat_le_iff unfolding k_def by blast
  moreover have "of_nat n < 1 / x" using n(2) by simp linarith
  ultimately have "of_nat (2 ^ (k - 1)) < 1 / x" by (rule le_less_trans)
  then have "2 ^ (k - 1) < 1 / x" by simp
  then have "x < 1 / 2 ^ (k - 1)" using assms by (simp add: field_simps)
  moreover have "ilog2 x + 1 = - int (k - 1)" using il kpos by simp
  ultimately show "x < 2 powi (ilog2 x + 1)"
    by (simp only: power_int_minus power_int_of_nat inverse_eq_divide)
qed

lemma ilog2_bounds:
  assumes "0 < x" shows "2 powi ilog2 x \<le> x" and "x < 2 powi (ilog2 x + 1)"
  using assms ilog2_ge1[of x] ilog2_lt1[of x] by (cases "1 \<le> x"; simp)+

lemma ilog2_mono:
  assumes "0 < x" "x \<le> y" shows "ilog2 x \<le> ilog2 y"
proof (rule ccontr)
  assume "\<not> ?thesis"
  then have "ilog2 y + 1 \<le> ilog2 x" by simp
  then have "(2 :: rat) powi (ilog2 y + 1) \<le> 2 powi ilog2 x" by (rule power_int_increasing) simp
  with ilog2_bounds[of x] ilog2_bounds[of y] assms show False by linarith
qed

lemma fround_0 [simp]: "fround p emin 0 = 0"
  by (simp add: fround_def)

lemma fround_nonneg: "0 \<le> x \<Longrightarrow> 0 \<le> fround p emin x"
  using rnd_even_ge[of 0] by (auto simp: fround_def Let_def sgn_if)

lemma fround_minus: "fround p emin (- x) = - fround p emin x"
  by (simp add: fround_def Let_def sgn_if)

lemma powi_quotient:
  assumes "e \<le> k" shows "(2 :: rat) powi k / 2 powi e = of_int (2 ^ nat (k - e))"
proof -
  have "(2 :: rat) powi k / 2 powi e = 2 powi (k - e)" by (simp add: power_int_diff)
  also have "\<dots> = 2 ^ nat (k - e)" using assms by (simp add: power_int_def)
  finally show ?thesis by simp
qed

text \<open>Rounding is monotone: the fact every clamp and threshold of the code relies on.\<close>

lemma fround_mono_pos:
  assumes "0 < p" "0 < x" "x \<le> y" shows "fround p emin x \<le> fround p emin y"
proof -
  define ex where "ex = max emin (ilog2 x - int p + 1)"
  define ey where "ey = max emin (ilog2 y - int p + 1)"
  have fx: "fround p emin x = of_int (rnd_even (x / 2 powi ex)) * 2 powi ex"
    and fy: "fround p emin y = of_int (rnd_even (y / 2 powi ey)) * 2 powi ey"
    using assms by (simp_all add: fround_def Let_def ex_def ey_def sgn_if)
  have le: "ex \<le> ey" using ilog2_mono[OF assms(2,3)] by (simp add: ex_def ey_def)
  show ?thesis
  proof (cases "ex = ey")
    case True
    have "rnd_even (x / 2 powi ex) \<le> rnd_even (y / 2 powi ex)"
      using assms by (intro rnd_even_mono divide_right_mono) simp_all
    then show ?thesis using True by (simp add: fx fy)
  next
    case False
    with le have lt: "ex < ey" by simp
    then have eyv: "ey = ilog2 y - int p + 1" unfolding ex_def ey_def by linarith
    define z :: rat where "z = 2 powi ilog2 y"
    have "ilog2 x + 1 \<le> ilog2 y" using lt eyv by (simp add: ex_def)
    then have "(2 :: rat) powi (ilog2 x + 1) \<le> z"
      unfolding z_def by (rule power_int_increasing) simp
    with ilog2_bounds(2)[OF assms(2)] have xz: "x \<le> z" by linarith
    have yz: "z \<le> y" using ilog2_bounds(1)[of y] assms by (simp add: z_def)
    have zx: "z / 2 powi ex = of_int (2 ^ nat (ilog2 y - ex))"
      unfolding z_def using lt eyv assms(1) by (intro powi_quotient) simp
    have zy: "z / 2 powi ey = of_int (2 ^ nat (ilog2 y - ey))"
      unfolding z_def using eyv assms(1) by (intro powi_quotient) simp
    have "rnd_even (x / 2 powi ex) \<le> 2 ^ nat (ilog2 y - ex)"
    proof (rule rnd_even_le)
      show "x / 2 powi ex \<le> of_int (2 ^ nat (ilog2 y - ex))"
        unfolding zx[symmetric] using xz by (rule divide_right_mono) simp
    qed
    then have "of_int (rnd_even (x / 2 powi ex)) \<le> z / 2 powi ex"
      unfolding zx of_int_le_iff .
    then have "fround p emin x \<le> z" by (simp add: fx field_simps)
    moreover have "2 ^ nat (ilog2 y - ey) \<le> rnd_even (y / 2 powi ey)"
    proof (rule rnd_even_ge)
      show "of_int (2 ^ nat (ilog2 y - ey)) \<le> y / 2 powi ey"
        unfolding zy[symmetric] using yz by (rule divide_right_mono) simp
    qed
    then have "z / 2 powi ey \<le> of_int (rnd_even (y / 2 powi ey))"
      unfolding zy of_int_le_iff .
    then have "z \<le> fround p emin y" by (simp add: fy field_simps)
    ultimately show ?thesis by linarith
  qed
qed

lemma fround_mono:
  assumes p: "0 < p" and xy: "x \<le> y" shows "fround p emin x \<le> fround p emin y"
proof -
  consider "0 < x" | "x \<le> 0" "0 \<le> y" | "y < 0" using xy by linarith
  then show ?thesis
  proof cases
    case 1 then show ?thesis using fround_mono_pos p xy by blast
  next
    case 2
    then have "fround p emin x \<le> 0" using fround_nonneg[of "- x" p emin] by (simp add: fround_minus)
    with 2 show ?thesis using fround_nonneg[of y p emin] by linarith
  next
    case 3
    then have "fround p emin (- y) \<le> fround p emin (- x)"
      using fround_mono_pos[of p "- y" "- x"] p xy by simp
    then show ?thesis by (simp add: fround_minus)
  qed
qed

text \<open>Integers that fit the significand are exact.\<close>

lemma fround_int_pos:
  assumes "0 < n" "n < 2 ^ p" "emin \<le> 0" shows "fround p emin (of_int n) = of_int n"
proof -
  define e where "e = max emin (ilog2 (of_int n) - int p + 1)"
  have pos: "0 < (of_int n :: rat)" using assms by simp
  have "(2 :: rat) powi ilog2 (of_int n) < 2 powi int p"
  proof -
    have "(of_int n :: rat) < of_int (2 ^ p)" using assms(2) of_int_less_iff by blast
    then have "(of_int n :: rat) < 2 powi int p" by simp
    with ilog2_bounds(1)[OF pos] show ?thesis by linarith
  qed
  then have "\<not> int p \<le> ilog2 (of_int n)"
    using power_int_increasing[of "int p" "ilog2 (of_int n)" "2 :: rat"] by fastforce
  then have e0: "e \<le> 0" using assms(3) by (simp add: e_def)
  then have "(of_int n :: rat) / 2 powi e = of_int (n * 2 ^ nat (- e))"
    by (simp add: power_int_def field_simps)
  then have "rnd_even (of_int n / 2 powi e) = n * 2 ^ nat (- e)" by (simp only: rnd_even_int)
  moreover have "of_int (n * 2 ^ nat (- e)) * 2 powi e = (of_int n :: rat)"
    using e0 by (simp add: power_int_def field_simps)
  ultimately show ?thesis using pos by (simp add: fround_def Let_def sgn_if flip: e_def)
qed

lemma fround_int:
  assumes "\<bar>n\<bar> < 2 ^ p" "emin \<le> 0" shows "fround p emin (of_int n) = of_int n"
proof -
  consider "0 < n" | "n = 0" | "0 < - n" by linarith
  then show ?thesis
  proof cases
    case 1 then show ?thesis using fround_int_pos assms by simp
  next
    case 3 then show ?thesis
      using fround_int_pos[of "- n" p emin] assms by (simp add: fround_minus)
  qed simp
qed

named_theorems fl_simps \<open>rounding: exact cases, monotonicity, sign\<close>

lemma fl32_0 [simp]: "fl32 0 = 0" and fl64_0 [simp]: "fl64 0 = 0"
  by (simp_all add: fl32_def fl64_def)

lemma fl32_mono: "x \<le> y \<Longrightarrow> fl32 x \<le> fl32 y" and fl64_mono: "x \<le> y \<Longrightarrow> fl64 x \<le> fl64 y"
  by (simp_all add: fl32_def fl64_def fround_mono)

lemma fl32_nonneg [simp]: "0 \<le> x \<Longrightarrow> 0 \<le> fl32 x" and fl64_nonneg [simp]: "0 \<le> x \<Longrightarrow> 0 \<le> fl64 x"
  by (simp_all add: fl32_def fl64_def fround_nonneg)

lemma fl32_int [fl_simps]: "\<bar>n\<bar> < 2 ^ 24 \<Longrightarrow> fl32 (of_int n) = of_int n"
  by (simp add: fl32_def fround_int)

lemma fl64_int [fl_simps]: "\<bar>n\<bar> < 2 ^ 53 \<Longrightarrow> fl64 (of_int n) = of_int n"
  by (simp add: fl64_def fround_int)

lemma fl32_1 [simp]: "fl32 1 = 1" and fl64_1 [simp]: "fl64 1 = 1"
  using fl32_int[of 1] fl64_int[of 1] by simp_all

lemma trunc_int_mono:
  assumes "x \<le> y" shows "trunc_int x \<le> trunc_int y"
proof (cases "0 \<le> x \<or> y < 0")
  case True
  with assms show ?thesis by (auto simp: trunc_int_def floor_mono ceiling_mono)
next
  case False
  then have "\<lceil>x\<rceil> \<le> 0" and "0 \<le> \<lfloor>y\<rfloor>" by (simp_all add: ceiling_le_iff le_floor_iff)
  then have "\<lceil>x\<rceil> \<le> \<lfloor>y\<rfloor>" by linarith
  with False show ?thesis by (simp add: trunc_int_def)
qed

lemma trunc_int_int [simp]: "trunc_int (of_int n) = n"
  by (simp add: trunc_int_def)

lemma trunc_int_nonneg: "0 \<le> x \<Longrightarrow> 0 \<le> trunc_int x"
  by (simp add: trunc_int_def)

lemma cast_i32_in: "in_i32 (trunc_int x) \<Longrightarrow> cast_i32 x = trunc_int x"
  by (simp add: cast_i32_def Let_def)

lemma cast_i32_i32 [simp]: "in_i32 (cast_i32 x)"
  by (simp add: cast_i32_def Let_def in_i32_def)

text \<open>A number with at most \<open>p\<close> significant bits is exact; rounding is idempotent.\<close>

lemma fround_exact_pos:
  assumes "0 < m" "m < 2 ^ p" "emin \<le> e" "0 < p"
  shows "fround p emin (of_int m * 2 powi e) = of_int m * 2 powi e"
proof -
  define x :: rat where "x = of_int m * 2 powi e"
  define E where "E = max emin (ilog2 x - int p + 1)"
  have pos: "0 < x" using assms(1) by (simp add: x_def)
  have "(of_int m :: rat) < of_int (2 ^ p)" using assms(2) of_int_less_iff by blast
  then have "x < 2 ^ p * 2 powi e" unfolding x_def by simp
  also have "\<dots> = 2 powi (int p + e)" by (simp add: power_int_add)
  finally have "2 powi ilog2 x < (2 :: rat) powi (int p + e)" using ilog2_bounds(1)[OF pos] by linarith
  then have "\<not> int p + e \<le> ilog2 x"
    using power_int_increasing[of "int p + e" "ilog2 x" "2 :: rat"] by fastforce
  then have E: "E \<le> e" using assms(3) by (simp add: E_def)
  have "x / 2 powi E = of_int (m * 2 ^ nat (e - E))"
  proof -
    have "x / 2 powi E = of_int m * (2 powi e / 2 powi E)" by (simp add: x_def)
    then show ?thesis using powi_quotient[OF E] by simp
  qed
  then have r: "rnd_even (x / 2 powi E) = m * 2 ^ nat (e - E)" by (simp only: rnd_even_int)
  have "of_int (m * 2 ^ nat (e - E)) * 2 powi E = x"
    using powi_quotient[OF E] by (simp add: x_def field_simps)
  then show ?thesis using pos r by (simp add: fround_def Let_def sgn_if flip: x_def E_def)
qed

lemma fround_exact:
  assumes "\<bar>m\<bar> \<le> 2 ^ p" "emin \<le> e" "0 < p"
  shows "fround p emin (of_int m * 2 powi e) = of_int m * 2 powi e"
proof -
  have pos: "fround p emin (of_int n * 2 powi e) = of_int n * 2 powi e" if "0 < n" "n \<le> 2 ^ p" for n
  proof (cases "n = 2 ^ p")
    case True
    have "(of_int (2 ^ p) :: rat) * 2 powi e = of_int (2 ^ (p - 1)) * 2 powi (e + 1)"
      using assms(3) by (cases p) (simp_all add: power_int_add)
    moreover have "(2 :: int) ^ (p - 1) < 2 ^ p" using assms(3) by simp
    ultimately show ?thesis using True fround_exact_pos[of "2 ^ (p - 1)" p emin "e + 1"] assms(2,3) by simp
  next
    case False with that show ?thesis using fround_exact_pos[of n p emin e] assms(2,3) by simp
  qed
  consider "0 < m" | "m = 0" | "0 < - m" by linarith
  then show ?thesis
  proof cases
    case 1 then show ?thesis using pos[of m] assms(1) by simp
  next
    case 3 then show ?thesis using pos[of "- m"] assms(1) by (simp add: fround_minus)
  qed simp
qed

lemma rnd_even_lt_pow: "x < 2 ^ p \<Longrightarrow> rnd_even x \<le> 2 ^ p"
  using rnd_even_le[of x "2 ^ p"] by simp

lemma fround_idem: 
  assumes "0 < p" shows "fround p emin (fround p emin x) = fround p emin x"
proof (cases "x = 0")
  case False
  define e where "e = max emin (ilog2 \<bar>x\<bar> - int p + 1)"
  define m where "m = rnd_even (\<bar>x\<bar> / 2 powi e)"
  have ax: "0 < \<bar>x\<bar>" using False by simp
  have "\<bar>x\<bar> < 2 powi (ilog2 \<bar>x\<bar> + 1)" using ilog2_bounds(2)[OF ax] .
  also have "\<dots> \<le> (2 :: rat) powi (int p + e)" by (rule power_int_increasing) (simp_all add: e_def)
  also have "\<dots> = 2 ^ p * 2 powi e" by (simp add: power_int_add)
  finally have "\<bar>x\<bar> / 2 powi e < 2 ^ p" by (simp add: field_simps)
  then have "m \<le> 2 ^ p" unfolding m_def by (rule rnd_even_lt_pow)
  moreover have "0 \<le> m" unfolding m_def by (rule rnd_even_ge) simp
  ultimately have "\<bar>if 0 < x then m else - m\<bar> \<le> 2 ^ p" by simp
  from fround_exact[OF this _ assms, of emin e] 
  have "fround p emin (of_int (if 0 < x then m else - m) * 2 powi e) = of_int (if 0 < x then m else - m) * 2 powi e"
    by (simp add: e_def)
  moreover have "fround p emin x = of_int (if 0 < x then m else - m) * 2 powi e"
    using False by (simp add: fround_def Let_def sgn_if flip: e_def m_def)
  ultimately show ?thesis by simp
qed simp

lemma fl32_idem [simp]: "fl32 (fl32 x) = fl32 x" and fl64_idem [simp]: "fl64 (fl64 x) = fl64 x"
  by (simp_all add: fl32_def fl64_def fround_idem)

lemma fl32_half [fl_simps]: "\<bar>n\<bar> \<le> 2 ^ 24 \<Longrightarrow> fl32 (of_int n / 2) = of_int n / 2"
  using fround_exact[of n 24 "- 149" "- 1"] by (simp add: fl32_def power_int_minus)

lemma fl32_le_int: "x \<le> of_int n \<Longrightarrow> \<bar>n\<bar> < 2 ^ 24 \<Longrightarrow> fl32 x \<le> of_int n"
  using fl32_mono[of x "of_int n"] by (simp add: fl32_int)

lemma fl32_ge_int: "of_int n \<le> x \<Longrightarrow> \<bar>n\<bar> < 2 ^ 24 \<Longrightarrow> of_int n \<le> fl32 x"
  using fl32_mono[of "of_int n" x] by (simp add: fl32_int)

section \<open>Square root\<close>

fun isqrt :: "nat \<Rightarrow> nat" where
  "isqrt n = (if n = 0 then 0 else let r = 2 * isqrt (n div 4) in if (r + 1) * (r + 1) \<le> n then r + 1 else r)"

declare isqrt.simps [simp del]

lemma isqrt_bounds: "isqrt n * isqrt n \<le> n \<and> n < (isqrt n + 1) * (isqrt n + 1)"
proof (induction n rule: isqrt.induct)
  case (1 n)
  show ?case
  proof (cases "n = 0")
    case False
    define q where "q = isqrt (n div 4)"
    have q: "q * q \<le> n div 4" "n div 4 < (q + 1) * (q + 1)" using 1 False by (simp_all add: q_def)
    have lo: "2 * q * (2 * q) \<le> n" using q(1) by simp
    have "n < 4 * ((q + 1) * (q + 1))" using q(2) by simp
    then have hi: "n < (2 * q + 2) * (2 * q + 2)" by (simp add: algebra_simps)
    show ?thesis
      using False lo hi by (simp add: isqrt.simps[of n] Let_def q_def[symmetric])
  qed (simp add: isqrt.simps)
qed

text \<open>
  \<^verbatim>\<open>std::sqrt\<close> of a \<open>float\<close> is correctly rounded. \<open>isqrt (x * 4 ^ 200)\<close> carries far
  more bits than a \<open>float\<close>, and a half is added when the root is not exact, so that
  rounding it to 24 bits rounds the real root.
\<close>

definition sqrt32 :: "float32 \<Rightarrow> float32" where
  "sqrt32 x =
     (if x \<le> 0 then 0
      else let n = nat \<lfloor>x * 4 ^ 200\<rfloor>; s = isqrt n;
               sticky = (if of_nat (s * s) = x * 4 ^ 200 then 0 else 1 / 2)
           in fl32 ((of_nat s + sticky) / 2 ^ 200))"

lemma sqrt32_nonneg [simp]: "0 \<le> sqrt32 x"
  by (auto simp: sqrt32_def Let_def intro!: fl32_nonneg divide_nonneg_pos)

end
