(* ===== verification/Game_Items.thy ===== *)
theory Game_Items
  imports Chunk_Floats
begin

text \<open>
  Item data (\<^verbatim>\<open>include/data/DataStructs.hpp\<close>) and the item catalogue
  (\<^verbatim>\<open>services/ItemManager.cpp\<close>). The catalogue is an ordered map from item id to
  item data; \<open>getItemBySlug\<close> scans it in id order, so it is kept as a sorted
  association list.
\<close>

section \<open>Data\<close>

record ItemAttributeStruct =
  ia_id :: int
  ia_item_id :: int
  ia_name :: string
  ia_slug :: string
  ia_value :: int
  ia_apply_on :: string

record ItemUseEffectStruct =
  ue_effectSlug :: string
  ue_attributeSlug :: string
  ue_value :: float32
  ue_isInstant :: bool
  ue_durationSeconds :: int
  ue_tickMs :: int
  ue_cooldownSeconds :: int

record ItemDataStruct =
  it_id :: int
  it_slug :: string
  it_isQuestItem :: bool
  it_itemType :: int
  it_itemTypeName :: string
  it_itemTypeSlug :: string
  it_isContainer :: bool
  it_isDurable :: bool
  it_isTradable :: bool
  it_isEquippable :: bool
  it_isHarvest :: bool
  it_isUsable :: bool
  it_weight :: float32
  it_rarityId :: int
  it_rarityName :: string
  it_raritySlug :: string
  it_stackMax :: int
  it_durabilityMax :: int
  it_vendorPriceBuy :: int
  it_vendorPriceSell :: int
  it_equipSlot :: int
  it_equipSlotName :: string
  it_equipSlotSlug :: string
  it_levelRequirement :: int
  it_isTwoHanded :: bool
  it_allowedClassIds :: "int list"
  it_setId :: int
  it_setSlug :: string
  it_attributes :: "ItemAttributeStruct list"
  it_useEffects :: "ItemUseEffectStruct list"
  it_masterySlug :: string

definition default_item :: ItemDataStruct where
  "default_item = \<lparr>it_id = 0, it_slug = [], it_isQuestItem = False, it_itemType = 0,
     it_itemTypeName = [], it_itemTypeSlug = [], it_isContainer = False, it_isDurable = False,
     it_isTradable = True, it_isEquippable = False, it_isHarvest = False, it_isUsable = False,
     it_weight = 0, it_rarityId = 1, it_rarityName = [], it_raritySlug = [], it_stackMax = 64,
     it_durabilityMax = 100, it_vendorPriceBuy = 1, it_vendorPriceSell = 1, it_equipSlot = 0,
     it_equipSlotName = [], it_equipSlotSlug = [], it_levelRequirement = 0, it_isTwoHanded = False,
     it_allowedClassIds = [], it_setId = 0, it_setSlug = [], it_attributes = [],
     it_useEffects = [], it_masterySlug = []\<rparr>"

record PlayerInventoryItemStruct =
  pi_id :: int
  pi_characterId :: int
  pi_itemId :: int
  pi_quantity :: int
  pi_slotIndex :: int
  pi_durabilityCurrent :: int
  pi_isEquipped :: bool
  pi_killCount :: int

definition default_inv_item :: PlayerInventoryItemStruct where
  "default_inv_item = \<lparr>pi_id = 0, pi_characterId = 0, pi_itemId = 0, pi_quantity = 1,
     pi_slotIndex = -1, pi_durabilityCurrent = 0, pi_isEquipped = False, pi_killCount = 0\<rparr>"

record MobLootInfoStruct =
  ml_id :: int
  ml_mobId :: int
  ml_itemId :: int
  ml_dropChance :: float32
  ml_isHarvestOnly :: bool
  ml_minQuantity :: int
  ml_maxQuantity :: int
  ml_lootTier :: string

section \<open>ItemManager\<close>

record item_manager =
  im_items :: "(int \<times> ItemDataStruct) list"
  im_mobLootInfo :: "(int \<times> MobLootInfoStruct list) list"

definition setItemsList :: "ItemDataStruct list \<Rightarrow> item_manager \<Rightarrow> item_manager" where
  "setItemsList items im =
     (if items = [] then im
      else im\<lparr>im_items := fold (\<lambda>item m. omap_put (it_id item) item m) items []\<rparr>)"

definition setMobLootInfo :: "MobLootInfoStruct list \<Rightarrow> item_manager \<Rightarrow> item_manager" where
  "setMobLootInfo infos im =
     (if infos = [] then im
      else im\<lparr>im_mobLootInfo :=
        omap_group ml_mobId infos\<rparr>)"

definition getItemById :: "item_manager \<Rightarrow> int \<Rightarrow> ItemDataStruct" where
  "getItemById im itemId =
     (case map_of (im_items im) itemId of Some item \<Rightarrow> item | None \<Rightarrow> default_item)"

definition getItemBySlug :: "item_manager \<Rightarrow> string \<Rightarrow> ItemDataStruct option" where
  "getItemBySlug im slug = find (\<lambda>item. it_slug item = slug) (map snd (im_items im))"

definition getItemsAsVector :: "item_manager \<Rightarrow> ItemDataStruct list" where
  "getItemsAsVector im = map snd (im_items im)"

definition getLootForMob :: "item_manager \<Rightarrow> int \<Rightarrow> MobLootInfoStruct list" where
  "getLootForMob im mobId =
     (case map_of (im_mobLootInfo im) mobId of Some ls \<Rightarrow> ls | None \<Rightarrow> [])"

text \<open>
  A catalogue built by \<open>setItemsList\<close> from non-zero ids: every entry sits under its own
  id, in id order. Id 0 is the "not found" sentinel of \<open>getItemById\<close>.
\<close>

definition wf_items :: "item_manager \<Rightarrow> bool" where
  "wf_items im \<longleftrightarrow> omap_sorted (im_items im)
     \<and> list_all (\<lambda>(k, item). it_id item = k \<and> k \<noteq> 0) (im_items im)"

lemma default_item_id [simp]: "it_id default_item = 0"
  and default_item_tradable [simp]: "it_isTradable default_item"
  and default_item_equippable [simp]: "\<not> it_isEquippable default_item"
  and default_item_durable [simp]: "\<not> it_isDurable default_item"
  by (simp_all add: default_item_def)

lemma getItemById_id:
  "wf_items im \<Longrightarrow> it_id (getItemById im i) \<noteq> 0 \<Longrightarrow> it_id (getItemById im i) = i"
  by (auto simp: getItemById_def wf_items_def list_all_iff dest!: map_of_SomeD split: option.splits)

lemma wf_items_put:
  "omap_sorted m \<Longrightarrow> list_all (\<lambda>(k, item). it_id item = k \<and> k \<noteq> 0) m \<Longrightarrow> it_id item \<noteq> 0 \<Longrightarrow>
   list_all (\<lambda>(k, item). it_id item = k \<and> k \<noteq> 0) (omap_put (it_id item) item m)"
  by (induction "it_id item" item m rule: omap_put.induct) (auto simp: omap_sorted_def)

lemma setItemsList_wf:
  assumes "\<forall>x\<in>set items. it_id x \<noteq> 0" "items \<noteq> []"
  shows "wf_items (setItemsList items im)"
proof -
  have "omap_sorted m \<and> list_all (\<lambda>(k, item). it_id item = k \<and> k \<noteq> 0) m \<Longrightarrow>
        omap_sorted (fold (\<lambda>item m. omap_put (it_id item) item m) items m)
        \<and> list_all (\<lambda>(k, item). it_id item = k \<and> k \<noteq> 0)
            (fold (\<lambda>item m. omap_put (it_id item) item m) items m)" for m
    using assms(1) by (induction items arbitrary: m) (auto simp: wf_items_put)
  from this[of "[]"] show ?thesis
    using assms(2) by (simp add: wf_items_def setItemsList_def omap_sorted_def)
qed

text \<open>The last definition of an id wins, and no other id appears.\<close>

lemma fold_put_lookup:
  "map_of (fold (\<lambda>item m. omap_put (it_id item) item m) items m) k
     = (case find (\<lambda>item. it_id item = k) (rev items) of Some x \<Rightarrow> Some x | None \<Rightarrow> map_of m k)"
  by (induction items arbitrary: m) (auto simp: find_append split: option.splits)

lemma getItemById_setItemsList:
  "items \<noteq> [] \<Longrightarrow> getItemById (setItemsList items im) k =
     (case find (\<lambda>item. it_id item = k) (rev items) of Some x \<Rightarrow> x | None \<Rightarrow> default_item)"
  by (simp add: getItemById_def setItemsList_def fold_put_lookup split: option.splits)

lemma getItemBySlug_slug: "getItemBySlug im s = Some x \<Longrightarrow> it_slug x = s"
  unfolding getItemBySlug_def using find_SomeD by fastforce

lemma getItemBySlug_catalogued:
  assumes "wf_items im" "getItemBySlug im s = Some x" shows "getItemById im (it_id x) = x"
proof -
  from assms(2) have "x \<in> set (map snd (im_items im))"
    unfolding getItemBySlug_def by (blast dest: find_SomeD)
  then obtain k where kx: "(k, x) \<in> set (im_items im)" by auto
  with assms(1) have "it_id x = k" "distinct (map fst (im_items im))"
    by (auto simp: wf_items_def list_all_iff omap_sorted_distinct)
  with kx show ?thesis by (simp add: getItemById_def)
qed


section \<open>A small catalogue for the concrete examples\<close>

definition gold_coin :: ItemDataStruct where
  "gold_coin = default_item\<lparr>it_id := 1, it_slug := ''gold_coin'', it_stackMax := 1000000\<rparr>"

definition iron_sword :: ItemDataStruct where
  "iron_sword = default_item\<lparr>it_id := 2, it_slug := ''iron_sword'', it_stackMax := 1,
     it_isEquippable := True, it_isDurable := True, it_equipSlotSlug := ''main_hand'',
     it_vendorPriceBuy := 80, it_vendorPriceSell := 20\<rparr>"

definition potion :: ItemDataStruct where
  "potion = default_item\<lparr>it_id := 3, it_slug := ''potion'', it_stackMax := 20,
     it_vendorPriceBuy := 10, it_vendorPriceSell := 4\<rparr>"

definition greatsword :: ItemDataStruct where
  "greatsword = iron_sword\<lparr>it_id := 4, it_slug := ''greatsword'', it_isTwoHanded := True\<rparr>"

definition shield :: ItemDataStruct where
  "shield = iron_sword\<lparr>it_id := 5, it_slug := ''shield'', it_equipSlotSlug := ''off_hand''\<rparr>"

definition sample_items :: item_manager where
  "sample_items = \<lparr>im_items = [(1, gold_coin), (2, iron_sword), (3, potion), (4, greatsword), (5, shield)],
     im_mobLootInfo = []\<rparr>"

lemmas sample_item_defs = gold_coin_def iron_sword_def potion_def greatsword_def shield_def default_item_def

lemma sample_items_get [simp]:
  "getItemById sample_items 1 = gold_coin" "getItemById sample_items 2 = iron_sword"
  "getItemById sample_items 3 = potion" "getItemById sample_items 4 = greatsword"
  "getItemById sample_items 5 = shield"
  by (simp_all add: getItemById_def sample_items_def)

end
