(* ===== verification/Interfaces.thy ===== *)
theory Interfaces
  imports Chunk_Prelude
begin

text \<open>
  The contracts between components, as locales. \<open>item_store\<close> is what the vendor, the
  repair shop and the trade code rely on when they call the inventory: \<open>give\<close> and
  \<open>take\<close> either refuse and change nothing, or move exactly the amount asked for.
\<close>

locale item_store =
  fixes ok :: "'s \<Rightarrow> bool"
    and holds :: "'s \<Rightarrow> int \<Rightarrow> int \<Rightarrow> int"
    and known :: "int \<Rightarrow> bool"
    and give :: "int \<Rightarrow> int \<Rightarrow> int \<Rightarrow> 's \<Rightarrow> bool \<times> 's"
    and take_away :: "int \<Rightarrow> int \<Rightarrow> int \<Rightarrow> 's \<Rightarrow> bool \<times> 's"
  assumes holds_nonneg: "ok s \<Longrightarrow> 0 \<le> holds s c i"
    and give_iff: "fst (give c i n s) \<longleftrightarrow> 0 < n \<and> known i"
    and give_refused: "\<not> fst (give c i n s) \<Longrightarrow> snd (give c i n s) = s"
    and give_holds: "ok s \<Longrightarrow> fst (give c i n s) \<Longrightarrow> holds s c i + n < INT_LIM \<Longrightarrow>
      holds (snd (give c i n s)) c' i' = holds s c' i' + (if c' = c \<and> i' = i then n else 0)"
    and give_ok: "ok s \<Longrightarrow> holds s c i + n < INT_LIM \<Longrightarrow> ok (snd (give c i n s))"
    and take_iff: "ok s \<Longrightarrow> fst (take_away c i n s) \<longleftrightarrow> 0 < n \<and> n \<le> holds s c i"
    and take_refused: "\<not> fst (take_away c i n s) \<Longrightarrow> snd (take_away c i n s) = s"
    and take_holds: "ok s \<Longrightarrow> fst (take_away c i n s) \<Longrightarrow>
      holds (snd (take_away c i n s)) c' i' = holds s c' i' - (if c' = c \<and> i' = i then n else 0)"
    and holds_bound: "ok s \<Longrightarrow> holds s c i < INT_LIM"
    and take_ok: "ok s \<Longrightarrow> ok (snd (take_away c i n s))"
begin

lemma give_cases:
  obtains "fst (give c i n s)" "0 < n" "known i"
  | "\<not> fst (give c i n s)" "snd (give c i n s) = s"
  using give_iff give_refused by blast

text \<open>Paying \<open>n\<close> pieces of \<open>i\<close> and receiving \<open>m\<close> pieces of another item \<open>j\<close>.\<close>

lemma exchange:
  assumes "ok s" "0 < n" "n \<le> holds s c i" "0 < m" "known j" "i \<noteq> j" "holds s c j + m < INT_LIM"
  defines "s1 \<equiv> snd (take_away c i n s)"
  defines "s2 \<equiv> snd (give c j m s1)"
  shows "fst (take_away c i n s)" "fst (give c j m s1)" "ok s2"
    "holds s2 c i = holds s c i - n" "holds s2 c j = holds s c j + m"
    "(c', i') \<notin> {(c, i), (c, j)} \<Longrightarrow> holds s2 c' i' = holds s c' i'"
proof -
  show t: "fst (take_away c i n s)" using assms take_iff by simp
  show g: "fst (give c j m s1)" using assms give_iff by simp
  have ok1: "ok s1" using assms take_ok by simp
  have h1: "holds s1 c' i' = holds s c' i' - (if c' = c \<and> i' = i then n else 0)" for c' i'
    using take_holds[OF assms(1) t] by (simp add: s1_def)
  have b: "holds s1 c j + m < INT_LIM" using h1 assms by simp
  have h2: "holds s2 c' i' = holds s1 c' i' + (if c' = c \<and> i' = j then m else 0)" for c' i'
    using give_holds[OF ok1 g b] by (simp add: s2_def)
  show "ok s2" using give_ok[OF ok1 b] by (simp add: s2_def)
  show "holds s2 c i = holds s c i - n" "holds s2 c j = holds s c j + m"
    using h1 h2 assms(6) by simp_all
  show "(c', i') \<notin> {(c, i), (c, j)} \<Longrightarrow> holds s2 c' i' = holds s c' i'"
    using h1 h2 by auto
qed

text \<open>Moving \<open>n\<close> pieces from \<open>a\<close> to \<open>b\<close> leaves the sum of what they own unchanged.\<close>

lemma transfer:
  assumes "ok s" "0 < n" "n \<le> holds s a i" "known i" "a \<noteq> b" "holds s b i + n < INT_LIM"
  defines "s1 \<equiv> snd (take_away a i n s)"
  defines "s2 \<equiv> snd (give b i n s1)"
  shows "ok s2" "holds s2 a i = holds s a i - n" "holds s2 b i = holds s b i + n"
    "(c', i') \<notin> {(a, i), (b, i)} \<Longrightarrow> holds s2 c' i' = holds s c' i'"
proof -
  have t: "fst (take_away a i n s)" using assms take_iff by simp
  have g: "fst (give b i n s1)" using assms give_iff by simp
  have ok1: "ok s1" using assms take_ok by simp
  have h1: "holds s1 c' i' = holds s c' i' - (if c' = a \<and> i' = i then n else 0)" for c' i'
    using take_holds[OF assms(1) t] by (simp add: s1_def)
  have b: "holds s1 b i + n < INT_LIM" using h1 assms by simp
  have h2: "holds s2 c' i' = holds s1 c' i' + (if c' = b \<and> i' = i then n else 0)" for c' i'
    using give_holds[OF ok1 g b] by (simp add: s2_def)
  show "ok s2" using give_ok[OF ok1 b] by (simp add: s2_def)
  show "holds s2 a i = holds s a i - n" "holds s2 b i = holds s b i + n"
    using h1 h2 assms(5) by simp_all
  show "(c', i') \<notin> {(a, i), (b, i)} \<Longrightarrow> holds s2 c' i' = holds s c' i'"
    using h1 h2 by auto
qed

text \<open>Giving back what was just taken restores every amount (the roll-back of a failed buy).\<close>

lemma take_give_back:
  assumes "ok s" "fst (take_away c i n s)" "known i"
  shows "holds (snd (give c i n (snd (take_away c i n s)))) c' i' = holds s c' i'"
    and "ok (snd (give c i n (snd (take_away c i n s))))"
proof -
  define s1 where "s1 = snd (take_away c i n s)"
  have n: "0 < n" "n \<le> holds s c i" using assms take_iff by auto
  have ok1: "ok s1" using assms take_ok by (simp add: s1_def)
  have h1: "holds s1 c' i' = holds s c' i' - (if c' = c \<and> i' = i then n else 0)" for c' i'
    using take_holds[OF assms(1,2)] by (simp add: s1_def)
  show "holds (snd (give c i n (snd (take_away c i n s)))) c' i' = holds s c' i'"
    and "ok (snd (give c i n (snd (take_away c i n s))))"
    using holds_bound[OF assms(1), of c i] h1 n give_holds[OF ok1, of c i n c' i'] give_ok[OF ok1, of c i n] give_iff[of c i n s1] assms(3)
    by (simp_all add: s1_def)
qed

end

text \<open>
  \<open>session_table\<close> is what the trade and the dialogue handlers rely on: a table of live
  sessions with an index from characters to sessions that never disagrees with it.
\<close>

locale session_table =
  fixes ok :: "'m \<Rightarrow> bool"
    and live :: "'m \<Rightarrow> 'k \<Rightarrow> 'v option"
    and by_character :: "'m \<Rightarrow> int \<Rightarrow> 'v option"
    and sid :: "'v \<Rightarrow> 'k"
    and members :: "'v \<Rightarrow> int set"
    and close_one :: "'k \<Rightarrow> 'm \<Rightarrow> 'm"
  assumes live_sid: "ok m \<Longrightarrow> live m k = Some v \<Longrightarrow> sid v = k"
    and live_member: "ok m \<Longrightarrow> live m k = Some v \<Longrightarrow> c \<in> members v \<Longrightarrow> by_character m c = Some v"
    and by_character_live: "ok m \<Longrightarrow> by_character m c = Some v \<Longrightarrow> live m (sid v) = Some v \<and> c \<in> members v"
    and close_live: "ok m \<Longrightarrow> live (close_one k m) = (live m)(k := None)"
    and close_ok: "ok m \<Longrightarrow> ok (close_one k m)"
begin

text \<open>A character takes part in at most one session.\<close>

lemma one_session:
  assumes "ok m" "live m k = Some v" "live m k' = Some v'" "c \<in> members v" "c \<in> members v'"
  shows "k = k'"
proof -
  have "v = v'" using live_member[OF assms(1,2,4)] live_member[OF assms(1,3,5)] by simp
  then show ?thesis using live_sid[OF assms(1,2)] live_sid[OF assms(1,3)] by simp
qed

text \<open>Closing a session frees its members and nobody else.\<close>

lemma close_frees:
  assumes "ok m" "live m k = Some v"
  shows "by_character (close_one k m) c = (if c \<in> members v then None else by_character m c)"
proof (cases "by_character (close_one k m) c")
  case None
  have "c \<in> members v" if "by_character m c = Some u" for u
  proof (rule ccontr)
    assume "c \<notin> members v"
    have u: "live m (sid u) = Some u" "c \<in> members u" using by_character_live[OF assms(1) that] by auto
    with \<open>c \<notin> members v\<close> assms(2) have "sid u \<noteq> k" by auto
    with u(1) have "live (close_one k m) (sid u) = Some u" using close_live[OF assms(1), of k] by simp
    from live_member[OF close_ok[OF assms(1)] this u(2)] None show False by simp
  qed
  with None show ?thesis by (cases "by_character m c") auto
next
  case (Some u)
  have u: "live (close_one k m) (sid u) = Some u" "c \<in> members u"
    using by_character_live[OF close_ok[OF assms(1)] Some] by auto
  then have "sid u \<noteq> k" "live m (sid u) = Some u"
    using close_live[OF assms(1), of k] by (auto split: if_splits)
  with live_member[OF assms(1) _ u(2)] one_session[OF assms(1) _ assms(2) u(2)] Some show ?thesis by auto
qed

end

end
