(* ===== verification/Inventory.thy ===== *)
theory Inventory
  imports Game_Items Interfaces
begin

text \<open>
  \<^verbatim>\<open>services/InventoryManager.cpp\<close>: the in-memory inventories, one vector of rows per
  character. Each public method runs under the manager's mutex and is one function on
  the state. What the manager sends out (the save packet for the game server, the
  \<open>INVENTORY_UPDATE\<close> event, the quest trigger) is appended to \<open>iv_out\<close>; the three
  flags say whether the corresponding callback, queue or manager has been set.
\<close>

section \<open>State\<close>

datatype inv_out =
    SaveInventoryChange (sv_character: int) (sv_item: int) (sv_quantity: int) (sv_row: int)
  | InventoryUpdate int "PlayerInventoryItemStruct list"
  | QuestItemObtained int int int

record inventory_manager =
  iv_players :: "int \<Rightarrow> PlayerInventoryItemStruct list option"
  iv_hasSave :: bool
  iv_hasQueue :: bool
  iv_hasQuest :: bool
  iv_out :: "inv_out list"

definition rows :: "inventory_manager \<Rightarrow> int \<Rightarrow> PlayerInventoryItemStruct list" where
  "rows s c = (case iv_players s c of Some v \<Rightarrow> v | None \<Rightarrow> [])"

definition put_rows :: "int \<Rightarrow> PlayerInventoryItemStruct list \<Rightarrow> inventory_manager \<Rightarrow> inventory_manager" where
  "put_rows c v s = s\<lparr>iv_players := (iv_players s)(c \<mapsto> v)\<rparr>"

definition emit_save :: "int \<Rightarrow> int \<Rightarrow> int \<Rightarrow> int \<Rightarrow> inventory_manager \<Rightarrow> inventory_manager" where
  "emit_save c i q r s =
     (if iv_hasSave s then s\<lparr>iv_out := iv_out s @ [SaveInventoryChange c i q r]\<rparr> else s)"

definition emit_update :: "int \<Rightarrow> inventory_manager \<Rightarrow> inventory_manager" where
  "emit_update c s =
     (if iv_hasQueue s then s\<lparr>iv_out := iv_out s @ [InventoryUpdate c (rows s c)]\<rparr> else s)"

definition emit_quest :: "int \<Rightarrow> int \<Rightarrow> int \<Rightarrow> inventory_manager \<Rightarrow> inventory_manager" where
  "emit_quest c i q s =
     (if iv_hasQuest s then s\<lparr>iv_out := iv_out s @ [QuestItemObtained c i q]\<rparr> else s)"

section \<open>Queries\<close>

definition getPlayerInventory :: "inventory_manager \<Rightarrow> int \<Rightarrow> PlayerInventoryItemStruct list" where
  "getPlayerInventory s c = rows s c"

definition row_quantities :: "int \<Rightarrow> PlayerInventoryItemStruct list \<Rightarrow> int list" where
  "row_quantities i v = map pi_quantity (filter (\<lambda>r. pi_itemId r = i) v)"

definition getItemQuantity :: "inventory_manager \<Rightarrow> int \<Rightarrow> int \<Rightarrow> int" where
  "getItemQuantity s c i =
     (case iv_players s c of None \<Rightarrow> 0 | Some v \<Rightarrow> sum_i32 0 (row_quantities i v))"

definition hasItem :: "inventory_manager \<Rightarrow> int \<Rightarrow> int \<Rightarrow> int \<Rightarrow> bool" where
  "hasItem s c i requiredQuantity \<longleftrightarrow> requiredQuantity \<le> getItemQuantity s c i"

definition getInventoryItemCount :: "inventory_manager \<Rightarrow> int \<Rightarrow> int" where
  "getInventoryItemCount s c = int (length (rows s c))"

definition getEquippedItems :: "inventory_manager \<Rightarrow> int \<Rightarrow> PlayerInventoryItemStruct list" where
  "getEquippedItems s c = filter pi_isEquipped (rows s c)"

definition getEquippedWeapon ::
  "item_manager \<Rightarrow> inventory_manager \<Rightarrow> int \<Rightarrow> PlayerInventoryItemStruct option" where
  "getEquippedWeapon im s c =
     find (\<lambda>r. pi_isEquipped r \<and>
        it_equipSlotSlug (getItemById im (pi_itemId r)) \<in> {''main_hand'', ''two_hand''}) (rows s c)"

text \<open>\<^verbatim>\<open>total += itemData.weight * float(quantity > 0 ? quantity : 1)\<close>, in binary32.\<close>

fun weight_sum :: "item_manager \<Rightarrow> float32 \<Rightarrow> PlayerInventoryItemStruct list \<Rightarrow> float32" where
  "weight_sum im acc [] = acc"
| "weight_sum im acc (r # v) =
     weight_sum im
       (fl32 (acc + fl32 (it_weight (getItemById im (pi_itemId r))
                       * fl32 (of_int (if 0 < pi_quantity r then pi_quantity r else 1))))) v"

definition getTotalWeight :: "item_manager \<Rightarrow> inventory_manager \<Rightarrow> int \<Rightarrow> float32" where
  "getTotalWeight im s c = weight_sum im 0 (rows s c)"

definition getGoldAmount :: "item_manager \<Rightarrow> inventory_manager \<Rightarrow> int \<Rightarrow> int" where
  "getGoldAmount im s c =
     (case getItemBySlug im ''gold_coin'' of None \<Rightarrow> 0 | Some g \<Rightarrow> getItemQuantity s c (it_id g))"

section \<open>Adding\<close>

definition addItemToInventory ::
  "item_manager \<Rightarrow> int \<Rightarrow> int \<Rightarrow> int \<Rightarrow> inventory_manager \<Rightarrow> bool \<times> inventory_manager" where
  "addItemToInventory im characterId itemId quantity s =
     (if quantity \<le> 0 then (False, s)
      else
        let itemInfo = getItemById im itemId in
        if it_id itemInfo = 0 then (False, s)
        else
          let v = rows s characterId;
              isItem = (\<lambda>r. pi_itemId r = itemId);
              canStack = 1 < it_stackMax itemInfo;
              (v', row) =
                (case (canStack, find isItem v) of
                   (True, Some r) \<Rightarrow>
                     let r' = r\<lparr>pi_quantity := wrap32 (pi_quantity r + quantity)\<rparr>
                     in (upd_first isItem (\<lambda>_. r') v, r')
                 | _ \<Rightarrow>
                     let r' = default_inv_item\<lparr>pi_characterId := characterId,
                                pi_itemId := itemId, pi_quantity := quantity\<rparr>
                     in (v @ [r'], r'));
              s1 = put_rows characterId v' s;
              s2 = emit_save characterId itemId (pi_quantity row) (pi_id row) s1;
              s3 = emit_update characterId s2
          in (True, emit_quest characterId itemId quantity s3))"

section \<open>Removing\<close>

text \<open>The loop over the stacks: what is left of the rows, and the id and the remaining
  quantity of the last row touched (the only one that is persisted).\<close>

fun remove_loop ::
  "int \<Rightarrow> int \<Rightarrow> int \<Rightarrow> int \<Rightarrow> PlayerInventoryItemStruct list
   \<Rightarrow> PlayerInventoryItemStruct list \<times> int \<times> int" where
  "remove_loop itemId remaining lastInvItemId finalQty [] = ([], lastInvItemId, finalQty)"
| "remove_loop itemId remaining lastInvItemId finalQty (r # v) =
     (if remaining \<le> 0 then (r # v, lastInvItemId, finalQty)
      else if pi_itemId r \<noteq> itemId then
        (let (v', l, f) = remove_loop itemId remaining lastInvItemId finalQty v in (r # v', l, f))
      else
        let deduct = min (pi_quantity r) remaining;
            q = wrap32 (pi_quantity r - deduct);
            (v', l, f) = remove_loop itemId (wrap32 (remaining - deduct)) (pi_id r) q v
        in (if q = 0 then v' else r\<lparr>pi_quantity := q\<rparr> # v', l, f))"

definition removeItemFromInventory ::
  "int \<Rightarrow> int \<Rightarrow> int \<Rightarrow> inventory_manager \<Rightarrow> bool \<times> inventory_manager" where
  "removeItemFromInventory characterId itemId quantity s =
     (if quantity \<le> 0 then (False, s)
      else case iv_players s characterId of
        None \<Rightarrow> (False, s)
      | Some v \<Rightarrow>
          if sum_i32 0 (row_quantities itemId v) < quantity then (False, s)
          else
            let (v', lastInvItemId, finalQty) = remove_loop itemId quantity 0 0 v;
                s1 = put_rows characterId v' s;
                s2 = emit_save characterId itemId finalQty lastInvItemId s1
            in (True, emit_update characterId s2))"

definition removeItemFromInventoryById ::
  "int \<Rightarrow> int \<Rightarrow> int \<Rightarrow> inventory_manager \<Rightarrow> bool \<times> inventory_manager" where
  "removeItemFromInventoryById characterId inventoryItemId quantity s =
     (if quantity \<le> 0 then (False, s)
      else case iv_players s characterId of
        None \<Rightarrow> (False, s)
      | Some v \<Rightarrow>
          (case find (\<lambda>r. pi_id r = inventoryItemId) v of
             None \<Rightarrow> (False, s)
           | Some r \<Rightarrow>
               if pi_quantity r < quantity then (False, s)
               else
                 let finalQty = wrap32 (pi_quantity r - quantity);
                     v' = (if finalQty = 0 then del_first (\<lambda>r. pi_id r = inventoryItemId) v
                           else upd_first (\<lambda>r. pi_id r = inventoryItemId)
                                  (\<lambda>r. r\<lparr>pi_quantity := finalQty\<rparr>) v);
                     s1 = put_rows characterId v' s;
                     s2 = emit_save characterId (pi_itemId r) finalQty inventoryItemId s1
                 in (True, emit_update characterId s2)))"

definition clearPlayerInventory :: "int \<Rightarrow> inventory_manager \<Rightarrow> inventory_manager" where
  "clearPlayerInventory c s = put_rows c [] s"

section \<open>Loading and merging stacks\<close>

text \<open>
  \<^verbatim>\<open>groups[item.itemId].push_back(item)\<close> over a \<^verbatim>\<open>std::map\<close>, then each group in id
  order: one merged row when the item stacks, every row otherwise.
\<close>

definition merge_group ::
  "item_manager \<Rightarrow> int \<times> PlayerInventoryItemStruct list \<Rightarrow> PlayerInventoryItemStruct list" where
  "merge_group im g =
     (case g of (itemId, items) \<Rightarrow>
        let itemInfo = getItemById im itemId in
        if it_id itemInfo \<noteq> 0 \<and> 1 < it_stackMax itemInfo then
          (case items of [] \<Rightarrow> []
           | f # rest \<Rightarrow> [f\<lparr>pi_quantity := sum_i32 (pi_quantity f) (map pi_quantity rest)\<rparr>])
        else items)"

definition consolidateInventory ::
  "item_manager \<Rightarrow> PlayerInventoryItemStruct list \<Rightarrow> PlayerInventoryItemStruct list" where
  "consolidateInventory im v = concat (map (merge_group im) (omap_group pi_itemId v))"

definition loadPlayerInventory ::
  "item_manager \<Rightarrow> int \<Rightarrow> PlayerInventoryItemStruct list \<Rightarrow> inventory_manager \<Rightarrow> inventory_manager" where
  "loadPlayerInventory im c items s = put_rows c (consolidateInventory im items) s"

section \<open>Row updates\<close>

definition upd_row ::
  "int \<Rightarrow> int \<Rightarrow> (PlayerInventoryItemStruct \<Rightarrow> PlayerInventoryItemStruct)
   \<Rightarrow> inventory_manager \<Rightarrow> inventory_manager" where
  "upd_row c rid f s =
     (case iv_players s c of None \<Rightarrow> s
      | Some v \<Rightarrow> put_rows c (upd_first (\<lambda>r. pi_id r = rid) f v) s)"

definition updateDurability :: "int \<Rightarrow> int \<Rightarrow> int \<Rightarrow> inventory_manager \<Rightarrow> inventory_manager" where
  "updateDurability c rid d s = upd_row c rid (\<lambda>r. r\<lparr>pi_durabilityCurrent := d\<rparr>) s"

definition updateItemKillCount :: "int \<Rightarrow> int \<Rightarrow> int \<Rightarrow> inventory_manager \<Rightarrow> inventory_manager" where
  "updateItemKillCount c rid k s = upd_row c rid (\<lambda>r. r\<lparr>pi_killCount := k\<rparr>) s"

definition setItemEquipped :: "int \<Rightarrow> int \<Rightarrow> bool \<Rightarrow> inventory_manager \<Rightarrow> inventory_manager" where
  "setItemEquipped c rid e s = upd_row c rid (\<lambda>r. r\<lparr>pi_isEquipped := e\<rparr>) s"

definition addInstancedItemToInventory ::
  "int \<Rightarrow> PlayerInventoryItemStruct \<Rightarrow> inventory_manager \<Rightarrow> inventory_manager" where
  "addInstancedItemToInventory c inst s =
     emit_update c (put_rows c (filter (\<lambda>r. pi_id r \<noteq> pi_id inst) (rows s c) @ [inst]) s)"

definition evictFromMemory :: "int \<Rightarrow> int \<Rightarrow> inventory_manager \<Rightarrow> inventory_manager" where
  "evictFromMemory c rid s =
     (case iv_players s c of None \<Rightarrow> s
      | Some v \<Rightarrow> emit_update c (put_rows c (filter (\<lambda>r. pi_id r \<noteq> rid) v) s))"

text \<open>\<^verbatim>\<open>static_cast<int>(newId)\<close> of an \<^verbatim>\<open>int64_t\<close> keeps the low 32 bits.\<close>

definition updateInventoryItemId :: "int \<Rightarrow> int \<Rightarrow> int \<Rightarrow> inventory_manager \<Rightarrow> inventory_manager" where
  "updateInventoryItemId c itemId newId s =
     (case iv_players s c of None \<Rightarrow> s
      | Some v \<Rightarrow>
          let waiting = (\<lambda>r. pi_itemId r = itemId \<and> pi_id r = 0) in
          (case find waiting v of None \<Rightarrow> s
           | Some _ \<Rightarrow>
               emit_update c
                 (put_rows c (upd_first waiting (\<lambda>r. r\<lparr>pi_id := wrap32 newId\<rparr>) v) s)))"


section \<open>Quantities, exactly\<close>

text \<open>\<open>qty s c i\<close> is what character \<open>c\<close> owns of item \<open>i\<close>, summed without wrapping.\<close>

definition rows_qty :: "int \<Rightarrow> PlayerInventoryItemStruct list \<Rightarrow> int" where
  "rows_qty i v = sum_list (row_quantities i v)"

definition qty :: "inventory_manager \<Rightarrow> int \<Rightarrow> int \<Rightarrow> int" where
  "qty s c i = rows_qty i (rows s c)"

text \<open>Every row of a character's vector is his, holds at least one piece, and the total of
  each item fits an \<open>int\<close>.\<close>

definition wf_rows :: "int \<Rightarrow> PlayerInventoryItemStruct list \<Rightarrow> bool" where
  "wf_rows c v \<longleftrightarrow> list_all (\<lambda>r. 0 < pi_quantity r \<and> pi_characterId r = c) v
     \<and> (\<forall>i. rows_qty i v < INT_LIM)"

definition wf_inventory :: "inventory_manager \<Rightarrow> bool" where
  "wf_inventory s \<longleftrightarrow> (\<forall>c v. iv_players s c = Some v \<longrightarrow> wf_rows c v)"

lemma rows_qty_Nil [simp]: "rows_qty i [] = 0"
  by (simp add: rows_qty_def row_quantities_def)

lemma rows_qty_Cons [simp]:
  "rows_qty i (r # v) = (if pi_itemId r = i then pi_quantity r else 0) + rows_qty i v"
  by (simp add: rows_qty_def row_quantities_def)

lemma rows_qty_append [simp]: "rows_qty i (v @ w) = rows_qty i v + rows_qty i w"
  by (induction v) auto

lemma rows_qty_nonneg: "\<forall>r\<in>set v. 0 < pi_quantity r \<Longrightarrow> 0 \<le> rows_qty i v"
  by (induction v) auto

lemma rows_qty_ge_row:
  "\<forall>r\<in>set v. 0 < pi_quantity r \<Longrightarrow> r \<in> set v \<Longrightarrow> pi_quantity r \<le> rows_qty (pi_itemId r) v"
  by (induction v) (auto dest: rows_qty_nonneg[where i = "pi_itemId r"])

lemma rows_qty_upd_first:
  assumes "find P v = Some r" "pi_itemId (f r) = pi_itemId r"
  shows "rows_qty i (upd_first P f v)
    = rows_qty i v + (if pi_itemId r = i then pi_quantity (f r) - pi_quantity r else 0)"
  using assms by (induction v) (auto split: if_splits)

lemma rows_qty_del_first:
  "find P v = Some r \<Longrightarrow> rows_qty i (del_first P v)
     = rows_qty i v - (if pi_itemId r = i then pi_quantity r else 0)"
  by (induction v) (auto split: if_splits)

lemma rows_qty_filter_split:
  "rows_qty i v = rows_qty i (filter P v) + rows_qty i (filter (\<lambda>r. \<not> P r) v)"
  by (induction v) auto

lemma wf_rows_list_all: "wf_rows c v \<Longrightarrow> list_all (\<lambda>r. 0 < pi_quantity r \<and> pi_characterId r = c) v"
  and wf_rows_bound: "wf_rows c v \<Longrightarrow> rows_qty i v < INT_LIM"
  by (simp_all add: wf_rows_def)

lemma wf_rows_pos: "wf_rows c v \<Longrightarrow> \<forall>r\<in>set v. 0 < pi_quantity r"
  by (simp add: wf_rows_def list_all_iff)

lemma wf_rows_nonneg: "wf_rows c v \<Longrightarrow> 0 \<le> rows_qty i v"
  by (rule rows_qty_nonneg) (rule wf_rows_pos)

lemma wf_rows_row:
  assumes "wf_rows c v" "r \<in> set v"
  shows "0 < pi_quantity r" "pi_quantity r < INT_LIM" "pi_characterId r = c"
proof -
  have "pi_quantity r \<le> rows_qty (pi_itemId r) v"
    using wf_rows_pos[OF assms(1)] assms(2) by (rule rows_qty_ge_row)
  then show "pi_quantity r < INT_LIM" using wf_rows_bound[OF assms(1)] by (rule le_less_trans)
  show "0 < pi_quantity r" "pi_characterId r = c"
    using wf_rows_list_all[OF assms(1)] assms(2) by (auto simp: list_all_iff)
qed

lemma wf_rows_Nil [simp]: "wf_rows c []"
  by (simp add: wf_rows_def)

lemma wf_inventory_rows: "wf_inventory s \<Longrightarrow> wf_rows c (rows s c)"
  by (simp add: wf_inventory_def rows_def split: option.split)

lemma qty_nonneg: "wf_inventory s \<Longrightarrow> 0 \<le> qty s c i"
  unfolding qty_def using wf_rows_nonneg wf_inventory_rows by blast

lemma qty_bound: "wf_inventory s \<Longrightarrow> qty s c i < INT_LIM"
  unfolding qty_def using wf_rows_bound wf_inventory_rows by blast

lemma sum_i32_rows: "wf_rows c v \<Longrightarrow> sum_i32 0 (row_quantities i v) = rows_qty i v"
  using wf_rows_nonneg[of c v i] wf_rows_bound[of c v i]
  by (simp add: sum_i32_exact in_i32_def rows_qty_def)

lemma getItemQuantity_exact: "wf_inventory s \<Longrightarrow> getItemQuantity s c i = qty s c i"
  by (auto simp: getItemQuantity_def qty_def rows_def wf_inventory_def split: option.splits
      intro: sum_i32_rows)

section \<open>Effects of the building blocks\<close>

lemma rows_put_rows [inv_simps]: "rows (put_rows c v s) c' = (if c' = c then v else rows s c')"
  by (simp add: rows_def put_rows_def)

lemma emit_players [out_simps]:
  "iv_players (emit_save a b d e s) = iv_players s"
  "iv_players (emit_update c s) = iv_players s"
  "iv_players (emit_quest x y z s) = iv_players s"
  by (simp_all add: emit_save_def emit_update_def emit_quest_def)

lemma rows_emit [inv_simps, out_simps]:
  "rows (emit_save a b d e s) c' = rows s c'"
  "rows (emit_update c s) c' = rows s c'"
  "rows (emit_quest x y z s) c' = rows s c'"
  by (simp_all add: rows_def out_simps)

lemma qty_emit [inv_simps]:
  "qty (emit_save a b d e s) c' i = qty s c' i"
  "qty (emit_update c s) c' i = qty s c' i"
  "qty (emit_quest x y z s) c' i = qty s c' i"
  by (simp_all add: qty_def inv_simps)

lemma wf_emit [inv_simps]:
  "wf_inventory (emit_save a b d e s) = wf_inventory s"
  "wf_inventory (emit_update c s) = wf_inventory s"
  "wf_inventory (emit_quest x y z s) = wf_inventory s"
  by (simp_all add: wf_inventory_def out_simps)

lemma qty_put_rows [inv_simps]:
  "qty (put_rows c v s) c' i = (if c' = c then rows_qty i v else qty s c' i)"
  by (simp add: qty_def inv_simps)

lemma wf_put_rows [inv_simps]: "wf_inventory s \<Longrightarrow> wf_rows c v \<Longrightarrow> wf_inventory (put_rows c v s)"
  by (simp add: wf_inventory_def put_rows_def)

lemma wf_rows_upd:
  assumes "wf_rows c v" "find P v = Some r" "pi_itemId (f r) = pi_itemId r"
    "pi_characterId (f r) = pi_characterId r" "0 < pi_quantity (f r)"
    "rows_qty (pi_itemId r) v - pi_quantity r + pi_quantity (f r) < INT_LIM"
  shows "wf_rows c (upd_first P f v)"
proof -
  have r: "pi_characterId r = c" using wf_rows_row(3) assms(1,2) by (blast dest: find_SomeD)
  have "list_all (\<lambda>r. 0 < pi_quantity r \<and> pi_characterId r = c) (upd_first P f v)"
    using wf_rows_list_all[OF assms(1)] assms(2,4,5) r by (induction v) (auto split: if_splits)
  moreover have "rows_qty i (upd_first P f v) < INT_LIM" for i
    using rows_qty_upd_first[where P = P and f = f and v = v and r = r and i = i] assms(2,3,6) wf_rows_bound[OF assms(1), of i]
    by (auto split: if_splits)
  ultimately show ?thesis by (simp add: wf_rows_def)
qed

lemma rows_qty_filter_le: "wf_rows c v \<Longrightarrow> rows_qty i (filter P v) \<le> rows_qty i v"
  using rows_qty_filter_split[of i v P]
    rows_qty_nonneg[of "filter (\<lambda>r. \<not> P r) v" i]
  by (auto dest: wf_rows_pos)

lemma wf_rows_filter:
  assumes "wf_rows c v" shows "wf_rows c (filter P v)"
proof -
  have "rows_qty i (filter P v) < INT_LIM" for i
    using rows_qty_filter_le[OF assms] wf_rows_bound[OF assms] by (rule le_less_trans)
  then show ?thesis using assms by (simp add: wf_rows_def list_all_iff)
qed


section \<open>Adding and removing\<close>

lemma find_rows_wf:
  assumes "wf_rows c v" "find P v = Some r"
  shows "r \<in> set v" "P r" "0 < pi_quantity r" "pi_quantity r \<le> rows_qty (pi_itemId r) v"
    "pi_characterId r = c"
proof -
  show r: "r \<in> set v" "P r" using find_SomeD[OF assms(2)] by simp_all
  show "0 < pi_quantity r" "pi_characterId r = c" using wf_rows_row[OF assms(1) r(1)] by simp_all
  show "pi_quantity r \<le> rows_qty (pi_itemId r) v"
    using wf_rows_pos[OF assms(1)] r(1) by (rule rows_qty_ge_row)
qed

lemma add_iff:
  "fst (addItemToInventory im c i n s) \<longleftrightarrow> 0 < n \<and> it_id (getItemById im i) \<noteq> 0"
  by (auto simp: addItemToInventory_def Let_def split: prod.splits)

lemma add_refused: "\<not> fst (addItemToInventory im c i n s) \<Longrightarrow> snd (addItemToInventory im c i n s) = s"
  by (auto simp: addItemToInventory_def Let_def split: prod.splits)

text \<open>The rows of the character after a successful add, and nothing else changes.\<close>

definition added_rows :: "bool \<Rightarrow> int \<Rightarrow> int \<Rightarrow> int \<Rightarrow> PlayerInventoryItemStruct list \<Rightarrow> PlayerInventoryItemStruct list" where
  "added_rows canStack c i n v =
     (case (canStack, find (\<lambda>r. pi_itemId r = i) v) of
        (True, Some r) \<Rightarrow> upd_first (\<lambda>r. pi_itemId r = i) (\<lambda>_. r\<lparr>pi_quantity := wrap32 (pi_quantity r + n)\<rparr>) v
      | _ \<Rightarrow> v @ [default_inv_item\<lparr>pi_characterId := c, pi_itemId := i, pi_quantity := n\<rparr>])"

lemma add_players:
  "fst (addItemToInventory im c i n s) \<Longrightarrow> iv_players (snd (addItemToInventory im c i n s)) =
    (iv_players s)(c \<mapsto> added_rows (1 < it_stackMax (getItemById im i)) c i n (rows s c))"
  by (simp add: addItemToInventory_def added_rows_def Let_def out_simps put_rows_def
      split: if_splits option.splits bool.splits)

lemma add_rows:
  "fst (addItemToInventory im c i n s) \<Longrightarrow> rows (snd (addItemToInventory im c i n s)) c' =
    (if c' = c then added_rows (1 < it_stackMax (getItemById im i)) c i n (rows s c) else rows s c')"
  by (simp add: rows_def[of "snd _"] add_players) (simp add: rows_def)

lemma added_rows_wf:
  assumes "wf_rows c v" "0 < n" "rows_qty i v + n < INT_LIM"
  shows "wf_rows c (added_rows b c i n v)"
    and "rows_qty j (added_rows b c i n v) = rows_qty j v + (if j = i then n else 0)"
proof -
  let ?P = "\<lambda>r. pi_itemId r = i"
  let ?f = "\<lambda>r0 _. r0\<lparr>pi_quantity := wrap32 (pi_quantity r0 + n)\<rparr>"
  have *: "wf_rows c (added_rows b c i n v) \<and>
    rows_qty j (added_rows b c i n v) = rows_qty j v + (if j = i then n else 0)"
  proof (cases "b \<and> find ?P v \<noteq> None")
    case True
    then obtain r where r: "find ?P v = Some r" by auto
    note fr = find_rows_wf[OF assms(1) r]
    then have w: "wrap32 (pi_quantity r + n) = pi_quantity r + n"
      using assms(2,3) by (simp add: in_i32_def)
    have eq: "added_rows b c i n v = upd_first ?P (?f r) v"
      using True r by (simp add: added_rows_def)
    have "wf_rows c (upd_first ?P (?f r) v)"
      using assms fr by (intro wf_rows_upd[OF assms(1) r]) (simp_all add: w)
    moreover have "rows_qty j (upd_first ?P (?f r) v) = rows_qty j v + (if j = i then n else 0)"
      using rows_qty_upd_first[OF r, of "?f r" j] fr(2) by (simp add: w)
    ultimately show ?thesis by (simp add: eq)
  next
    case False
    then have eq: "added_rows b c i n v
        = v @ [default_inv_item\<lparr>pi_characterId := c, pi_itemId := i, pi_quantity := n\<rparr>]"
      by (auto simp: added_rows_def split: bool.splits option.splits)
    show ?thesis using assms by (auto simp: eq wf_rows_def)
  qed
  then show "wf_rows c (added_rows b c i n v)"
    and "rows_qty j (added_rows b c i n v) = rows_qty j v + (if j = i then n else 0)" by simp_all
qed

lemma add_wf:
  assumes "wf_inventory s" "qty s c i + n < INT_LIM"
  shows "wf_inventory (snd (addItemToInventory im c i n s))"
proof (cases "fst (addItemToInventory im c i n s)")
  case True
  then have n: "0 < n" by (simp add: add_iff)
  have "wf_rows c (added_rows b c i n (rows s c))" for b
    using added_rows_wf(1)[OF wf_inventory_rows[OF assms(1)] n] assms(2) by (simp add: qty_def)
  then show ?thesis using assms(1) by (auto simp: wf_inventory_def add_players[OF True])
qed (simp add: add_refused assms)

lemma add_qty:
  assumes "wf_inventory s" "fst (addItemToInventory im c i n s)" "qty s c i + n < INT_LIM"
  shows "qty (snd (addItemToInventory im c i n s)) c' i'
    = qty s c' i' + (if c' = c \<and> i' = i then n else 0)"
proof -
  have "0 < n" "rows_qty i (rows s c) + n < INT_LIM" using assms by (simp_all add: add_iff qty_def)
  from added_rows_wf(2)[OF wf_inventory_rows[OF assms(1)] this]
  have "rows_qty i' (added_rows b c i n (rows s c)) = rows_qty i' (rows s c) + (if i' = i then n else 0)"
    for b i' .
  then show ?thesis by (simp add: qty_def add_rows[OF assms(2)])
qed

lemma same_quantity [simp]: "r\<lparr>pi_quantity := pi_quantity r\<rparr> = (r :: PlayerInventoryItemStruct)"
  by (cases r) simp

lemma remove_loop_effect:
  assumes "\<forall>r\<in>set v. 0 < pi_quantity r" "rows_qty i v < INT_LIM" "0 \<le> n" "n \<le> rows_qty i v"
    "remove_loop i n l f v = (v', l', f')"
  shows "rows_qty i v' = rows_qty i v - n \<and> (\<forall>j. j \<noteq> i \<longrightarrow> rows_qty j v' = rows_qty j v)
    \<and> (\<forall>r\<in>set v'. 0 < pi_quantity r \<and> (\<exists>r0\<in>set v. r0\<lparr>pi_quantity := pi_quantity r\<rparr> = r))"
  using assms
proof (induction i n l f v arbitrary: v' l' f' rule: remove_loop.induct)
  case (2 i n l f r v)
  have pos: "0 < pi_quantity r" "\<forall>r\<in>set v. 0 < pi_quantity r" using "2.prems"(1) by auto
  note nn = rows_qty_nonneg[OF pos(2), of i]
  consider "n \<le> 0" | "0 < n" "pi_itemId r \<noteq> i" | "0 < n" "pi_itemId r = i" by linarith
  then show ?case
  proof cases
    case 1
    then have "v' = r # v" "n = 0" using "2.prems" by auto
    moreover have "\<forall>r\<in>set v. \<exists>r0\<in>set v. r0\<lparr>pi_quantity := pi_quantity r\<rparr> = r"
      by (metis same_quantity)
    ultimately show ?thesis using pos by simp
  next
    case 2
    obtain v1 l1 f1 where rl: "remove_loop i n l f v = (v1, l1, f1)" by (metis prod_cases3)
    have "v' = r # v1" using "2.prems"(5) 2 rl by simp
    moreover have "rows_qty i v1 = rows_qty i v - n \<and> (\<forall>j. j \<noteq> i \<longrightarrow> rows_qty j v1 = rows_qty j v)
      \<and> (\<forall>r\<in>set v1. 0 < pi_quantity r \<and> (\<exists>r0\<in>set v. r0\<lparr>pi_quantity := pi_quantity r\<rparr> = r))"
      using "2.IH"(1)[OF _ _ pos(2) _ _ _ rl] 2 "2.prems"(2-4) by simp
    ultimately show ?thesis using 2 pos by auto
  next
    case 3
    define d where "d = min (pi_quantity r) n"
    have d: "0 < d" "d \<le> pi_quantity r" "d \<le> n" using 3 pos by (auto simp: d_def)
    have b: "pi_quantity r < INT_LIM" "rows_qty i v < INT_LIM" "n - d \<le> rows_qty i v" "n < INT_LIM"
      using "2.prems"(2,4) 3 nn pos by (auto simp: d_def)
    have w: "wrap32 (pi_quantity r - d) = pi_quantity r - d" "wrap32 (n - d) = n - d"
      using d b pos by (simp_all add: in_i32_def)
    obtain v1 l1 f1 where rl: "remove_loop i (n - d) (pi_id r) (pi_quantity r - d) v = (v1, l1, f1)"
      by (metis prod_cases3)
    have v': "v' = (if pi_quantity r = d then v1 else r\<lparr>pi_quantity := pi_quantity r - d\<rparr> # v1)"
      using "2.prems"(5) 3 rl w by (auto simp: Let_def simp flip: d_def split: if_splits)
    have "rows_qty i v1 = rows_qty i v - (n - d) \<and> (\<forall>j. j \<noteq> i \<longrightarrow> rows_qty j v1 = rows_qty j v)
      \<and> (\<forall>r\<in>set v1. 0 < pi_quantity r \<and> (\<exists>r0\<in>set v. r0\<lparr>pi_quantity := pi_quantity r\<rparr> = r))"
      using "2.IH"(2)[of d "pi_quantity r - d" v1] 3 w rl b d pos by (simp add: d_def)
    then show ?thesis using 3 d by (auto simp: v')
  qed
qed auto


lemma remove_loop_wf:
  assumes "wf_rows c v" "0 \<le> n" "n \<le> rows_qty i v" "remove_loop i n l f v = (v', l', f')"
  shows "wf_rows c v'" "rows_qty j v' = rows_qty j v - (if j = i then n else 0)"
proof -
  note eff = remove_loop_effect[OF wf_rows_pos[OF assms(1)] wf_rows_bound[OF assms(1)] assms(2-4)]
  show q: "rows_qty j v' = rows_qty j v - (if j = i then n else 0)" for j
    using eff by simp
  have "\<forall>r\<in>set v'. pi_characterId r = c"
  proof
    fix r assume "r \<in> set v'"
    then obtain r0 where "r0 \<in> set v" "r0\<lparr>pi_quantity := pi_quantity r\<rparr> = r" using eff by blast
    moreover have "pi_characterId (r0\<lparr>pi_quantity := pi_quantity r\<rparr>) = pi_characterId r0" by simp
    ultimately show "pi_characterId r = c" using wf_rows_row(3)[OF assms(1)] by metis
  qed
  moreover have "rows_qty j v' < INT_LIM" for j
    using q[of j] wf_rows_bound[OF assms(1), of j] assms(2) by (simp split: if_splits)
  ultimately show "wf_rows c v'" using eff by (simp add: wf_rows_def list_all_iff)
qed

lemma remove_iff:
  assumes "wf_inventory s"
  shows "fst (removeItemFromInventory c i n s) \<longleftrightarrow> 0 < n \<and> n \<le> qty s c i"
proof (cases "iv_players s c")
  case None
  then show ?thesis by (auto simp: removeItemFromInventory_def qty_def rows_def)
next
  case (Some v)
  then have "wf_rows c v" using assms by (simp add: wf_inventory_def)
  with Some show ?thesis
    by (auto simp: removeItemFromInventory_def qty_def rows_def sum_i32_rows split: prod.splits)
qed

lemma remove_refused:
  "\<not> fst (removeItemFromInventory c i n s) \<Longrightarrow> snd (removeItemFromInventory c i n s) = s"
  by (auto simp: removeItemFromInventory_def Let_def split: option.splits prod.splits if_splits)

lemma remove_players:
  assumes "fst (removeItemFromInventory c i n s)"
  obtains v l f where "remove_loop i n 0 0 (rows s c) = (v, l, f)"
    "iv_players (snd (removeItemFromInventory c i n s)) = (iv_players s)(c \<mapsto> v)"
  using assms
  by (auto simp: removeItemFromInventory_def Let_def out_simps put_rows_def rows_def
      split: option.splits prod.splits if_splits)

lemma remove_effect:
  assumes "wf_inventory s" "fst (removeItemFromInventory c i n s)"
  defines "s' \<equiv> snd (removeItemFromInventory c i n s)"
  shows "wf_inventory s'" "qty s' c' i' = qty s c' i' - (if c' = c \<and> i' = i then n else 0)"
proof -
  obtain v l f where rl: "remove_loop i n 0 0 (rows s c) = (v, l, f)"
    and pl: "iv_players s' = (iv_players s)(c \<mapsto> v)"
    using remove_players[OF assms(2)] unfolding s'_def by metis
  have n: "0 \<le> n" "n \<le> rows_qty i (rows s c)" using assms(1,2) by (simp_all add: remove_iff qty_def)
  note w = remove_loop_wf[OF wf_inventory_rows[OF assms(1)] n rl]
  show "wf_inventory s'" using w(1) assms(1) by (auto simp: wf_inventory_def pl)
  show "qty s' c' i' = qty s c' i' - (if c' = c \<and> i' = i then n else 0)"
    using w(2) by (simp add: qty_def rows_def[of s'] pl) (simp add: rows_def)
qed

interpretation bag: item_store wf_inventory qty "\<lambda>i. it_id (getItemById im i) \<noteq> 0"
  "addItemToInventory im" removeItemFromInventory
proof unfold_locales
  fix s c i n
  show "wf_inventory s \<Longrightarrow> wf_inventory (snd (removeItemFromInventory c i n s))"
    by (cases "fst (removeItemFromInventory c i n s)") (simp_all add: remove_effect remove_refused)
qed (simp_all add: qty_nonneg qty_bound add_iff add_refused add_qty add_wf remove_iff
       remove_refused remove_effect)


section \<open>Loading: merged stacks\<close>

definition stackable :: "item_manager \<Rightarrow> int \<Rightarrow> bool" where
  "stackable im i \<longleftrightarrow> it_id (getItemById im i) \<noteq> 0 \<and> 1 < it_stackMax (getItemById im i)"

lemma rows_qty_other: "\<forall>r\<in>set v. pi_itemId r \<noteq> i \<Longrightarrow> rows_qty i v = 0"
  by (induction v) auto

lemma rows_qty_same: "\<forall>r\<in>set v. pi_itemId r = i \<Longrightarrow> rows_qty i v = sum_list (map pi_quantity v)"
  by (induction v) auto

lemma rows_qty_filter_item: "rows_qty i (filter (\<lambda>r. pi_itemId r = i) v) = rows_qty i v"
  by (induction v) auto

text \<open>What a group becomes: its rows if it does not stack, one row with the total otherwise.\<close>

lemma merge_group_eq:
  "merge_group im (i, v) = (if stackable im i then
     (case v of [] \<Rightarrow> [] | f # rest \<Rightarrow>
        [f\<lparr>pi_quantity := sum_i32 (pi_quantity f) (map pi_quantity rest)\<rparr>]) else v)"
  by (simp add: merge_group_def stackable_def Let_def)

lemma merge_group_item:
  "\<forall>r\<in>set v. pi_itemId r = i \<Longrightarrow> r \<in> set (merge_group im (i, v)) \<Longrightarrow> pi_itemId r = i"
  by (auto simp: merge_group_eq split: list.splits if_splits)

lemma merge_group_qty:
  assumes "wf_rows c v" "\<forall>r\<in>set v. pi_itemId r = i"
  shows "rows_qty i (merge_group im (i, v)) = rows_qty i v" "wf_rows c (merge_group im (i, v))"
proof -
  have *: "rows_qty i (merge_group im (i, v)) = rows_qty i v \<and> wf_rows c (merge_group im (i, v))"
  proof (cases "stackable im i \<and> v \<noteq> []")
    case True
    then obtain f rest where v: "v = f # rest" by (cases v) auto
    have f: "pi_itemId f = i" "0 < pi_quantity f" "pi_quantity f < INT_LIM" "pi_characterId f = c"
      using assms wf_rows_row[OF assms(1), of f] by (auto simp: v)
    have tot: "rows_qty i v = pi_quantity f + sum_list (map pi_quantity rest)"
      using rows_qty_same[OF assms(2)] by (simp add: v)
    have b: "0 \<le> rows_qty i rest" "rows_qty i v < INT_LIM"
      using rows_qty_nonneg[of rest i] wf_rows_pos[OF assms(1)] wf_rows_bound[OF assms(1)] by (auto simp: v)
    have b0: "0 < rows_qty i v" using b f by (simp add: v)
    then have "sum_i32 (pi_quantity f) (map pi_quantity rest) = rows_qty i v"
      using f b tot by (simp add: sum_i32_wrap in_i32_iff)
    then have eq: "merge_group im (i, v) = [f\<lparr>pi_quantity := rows_qty i v\<rparr>]"
      using True v by (simp add: merge_group_eq)
    show ?thesis using f b b0 by (simp add: eq wf_rows_def)
  next
    case False
    then have "merge_group im (i, v) = v" by (auto simp: merge_group_eq)
    then show ?thesis using assms(1) by simp
  qed
  then show "rows_qty i (merge_group im (i, v)) = rows_qty i v" "wf_rows c (merge_group im (i, v))"
    by simp_all
qed

lemma filter_item_concat:
  assumes "distinct (map fst g)" "\<forall>(k, w)\<in>set g. \<forall>r\<in>set w. pi_itemId r = k"
  shows "filter (\<lambda>r. pi_itemId r = i) (concat (map (merge_group im) g))
    = (case map_of g i of None \<Rightarrow> [] | Some w \<Rightarrow> merge_group im (i, w))"
  using assms
proof (induction g)
  case (Cons e g)
  obtain k w where e: "e = (k, w)" by (cases e)
  have all: "\<forall>r\<in>set (merge_group im (k, w)). pi_itemId r = k"
    using Cons.prems(2) merge_group_item[of w k] by (auto simp: e)
  show ?case
  proof (cases "k = i")
    case True
    then have "map_of g i = None" using Cons.prems(1) by (simp add: e map_of_eq_None_iff)
    then show ?thesis using Cons all True by (simp add: e filter_id_conv)
  next
    case False
    have "filter (\<lambda>r. pi_itemId r = i) (merge_group im (k, w)) = []"
      using all False by (simp add: filter_empty_conv)
    then show ?thesis using Cons False by (simp add: e)
  qed
qed simp

lemma filter_item_consolidate:
  "filter (\<lambda>r. pi_itemId r = i) (consolidateInventory im v)
     = merge_group im (i, filter (\<lambda>r. pi_itemId r = i) v)"
proof -
  have "\<forall>(k, w)\<in>set (omap_group pi_itemId v). \<forall>r\<in>set w. pi_itemId r = k"
    using omap_group_entry by fastforce
  then show ?thesis
    by (auto simp: consolidateInventory_def filter_item_concat omap_sorted_distinct
        map_of_omap_group Let_def merge_group_eq)
qed

lemma consolidate_qty:
  assumes "wf_rows c v"
  shows "rows_qty i (consolidateInventory im v) = rows_qty i v"
proof -
  have "rows_qty i (consolidateInventory im v)
      = rows_qty i (merge_group im (i, filter (\<lambda>r. pi_itemId r = i) v))"
    by (metis rows_qty_filter_item filter_item_consolidate)
  also have "\<dots> = rows_qty i v"
    using merge_group_qty(1)[OF wf_rows_filter[OF assms]] rows_qty_filter_item by simp
  finally show ?thesis .
qed

lemma consolidate_wf:
  assumes "wf_rows c v" shows "wf_rows c (consolidateInventory im v)"
proof -
  have "\<forall>r\<in>set (consolidateInventory im v). 0 < pi_quantity r \<and> pi_characterId r = c"
  proof
    fix r assume "r \<in> set (consolidateInventory im v)"
    then have "r \<in> set (filter (\<lambda>r'. pi_itemId r' = pi_itemId r) (consolidateInventory im v))" by simp
    then have "r \<in> set (merge_group im (pi_itemId r, filter (\<lambda>r'. pi_itemId r' = pi_itemId r) v))"
      unfolding filter_item_consolidate .
    moreover have "wf_rows c (merge_group im (pi_itemId r, filter (\<lambda>r'. pi_itemId r' = pi_itemId r) v))"
      using merge_group_qty(2)[OF wf_rows_filter[OF assms]] by simp
    ultimately show "0 < pi_quantity r \<and> pi_characterId r = c" using wf_rows_row by blast
  qed
  then show ?thesis
    using consolidate_qty[OF assms] assms by (simp add: wf_rows_def list_all_iff)
qed

lemma consolidate_one_stack:
  "stackable im i \<Longrightarrow> length (filter (\<lambda>r. pi_itemId r = i) (consolidateInventory im v)) \<le> 1"
  by (simp add: filter_item_consolidate merge_group_eq split: list.split)

section \<open>The other operations keep the inventories well formed\<close>

lemma upd_row_wf:
  assumes "wf_inventory s" "\<And>r. pi_quantity (f r) = pi_quantity r" "\<And>r. pi_itemId (f r) = pi_itemId r"
    "\<And>r. pi_characterId (f r) = pi_characterId r"
  shows "wf_inventory (upd_row c rid f s)" "qty (upd_row c rid f s) c' i = qty s c' i"
proof -
  have all: "list_all Q (map g (upd_first P f v)) \<longleftrightarrow> list_all Q (map g v)"
    if "\<And>r. g (f r) = g r" for P v and g :: "PlayerInventoryItemStruct \<Rightarrow> 'b" and Q
    by (simp add: map_upd_first_inv that)
  have q: "rows_qty i (upd_first P f v) = rows_qty i v" for P v i
    using assms(2,3) by (induction v) auto
  have w: "wf_rows c v \<Longrightarrow> wf_rows c (upd_first P f v)" for P v c
    using all[of "\<lambda>r. 0 < pi_quantity r \<and> pi_characterId r = c" "\<lambda>b. b" P v] assms(2,4)
    by (simp add: wf_rows_def q list.pred_map comp_def)
  show "wf_inventory (upd_row c rid f s)"
    using assms(1) w by (auto simp: upd_row_def wf_inventory_def put_rows_def split: option.splits)
  show "qty (upd_row c rid f s) c' i = qty s c' i"
    by (simp add: upd_row_def inv_simps q split: option.splits) (simp add: qty_def rows_def)
qed

lemma removeById_wf:
  assumes "wf_inventory s" shows "wf_inventory (snd (removeItemFromInventoryById c rid n s))"
proof (cases "iv_players s c")
  case (Some v)
  then have wv: "wf_rows c v" using assms by (simp add: wf_inventory_def)
  let ?P = "\<lambda>r. pi_id r = rid"
  show ?thesis
  proof (cases "\<exists>r. find ?P v = Some r \<and> 0 < n \<and> n \<le> pi_quantity r")
    case True
    then obtain r where r: "find ?P v = Some r" and n: "0 < n" "n \<le> pi_quantity r" by blast
    note fr = find_rows_wf[OF wv r]
    have qr: "pi_quantity r < INT_LIM" using wf_rows_row[OF wv fr(1)] by simp
    have w: "wrap32 (pi_quantity r - n) = pi_quantity r - n" using n qr by (simp add: in_i32_iff)
    have bound: "rows_qty (pi_itemId r) v < INT_LIM" using wf_rows_bound[OF wv] .
    define v' where "v' = (if pi_quantity r = n then del_first ?P v
      else upd_first ?P (\<lambda>r0. r0\<lparr>pi_quantity := pi_quantity r - n\<rparr>) v)"
    have "wf_rows c v'"
    proof (cases "pi_quantity r = n")
      case True
      have "rows_qty i (del_first ?P v) < INT_LIM" for i
        using rows_qty_del_first[OF r, of i] wf_rows_bound[OF wv, of i] fr by (simp split: if_splits)
      then show ?thesis
        using wv True by (simp add: wf_rows_def v'_def list_all_del_first)
    next
      case False
      then show ?thesis unfolding v'_def using n fr bound
        by (simp, intro wf_rows_upd[OF wv r]) simp_all
    qed
    moreover have "snd (removeItemFromInventoryById c rid n s)
        = emit_update c (emit_save c (pi_itemId r) (pi_quantity r - n) rid (put_rows c v' s))"
      using Some r n w by (simp add: removeItemFromInventoryById_def v'_def Let_def)
    ultimately show ?thesis using assms by (simp add: inv_simps)
  next
    case False
    then show ?thesis
      using assms Some by (auto simp: removeItemFromInventoryById_def split: option.splits)
  qed
qed (use assms in \<open>simp add: removeItemFromInventoryById_def\<close>)

lemma evict_wf: "wf_inventory s \<Longrightarrow> wf_inventory (evictFromMemory c rid s)"
  by (auto simp: evictFromMemory_def inv_simps split: option.splits intro!: wf_put_rows wf_rows_filter)
    (simp add: wf_inventory_def)

lemma wf_rows_snoc:
  assumes "wf_rows c v" "pi_characterId r = c" "0 < pi_quantity r"
    "rows_qty (pi_itemId r) v + pi_quantity r < INT_LIM"
  shows "wf_rows c (v @ [r])"
  using assms by (auto simp: wf_rows_def)

lemma addInstanced_wf:
  assumes "wf_inventory s" "pi_characterId r = c" "0 < pi_quantity r"
    "qty s c (pi_itemId r) + pi_quantity r < INT_LIM"
  shows "wf_inventory (addInstancedItemToInventory c r s)"
proof -
  let ?v = "filter (\<lambda>x. pi_id x \<noteq> pi_id r) (rows s c)"
  have w: "wf_rows c (rows s c)" using assms(1) by (rule wf_inventory_rows)
  have "rows_qty (pi_itemId r) ?v + pi_quantity r < INT_LIM"
    using rows_qty_filter_le[OF w, of "pi_itemId r"] assms(4) unfolding qty_def
    by (rule order_le_less_trans[OF add_right_mono])
  then have "wf_rows c (?v @ [r])" using assms(2,3) wf_rows_filter[OF w] by (intro wf_rows_snoc)
  then show ?thesis using assms(1) by (simp add: addInstancedItemToInventory_def inv_simps)
qed

lemma updateId_wf: "wf_inventory s \<Longrightarrow> wf_inventory (updateInventoryItemId c i newId s)"
proof -
  assume a: "wf_inventory s"
  have w: "wf_rows c v \<Longrightarrow> wf_rows c (upd_first P (\<lambda>r. r\<lparr>pi_id := k\<rparr>) v)" for v P k
  proof -
    assume v: "wf_rows c v"
    have "rows_qty i (upd_first P (\<lambda>r. r\<lparr>pi_id := k\<rparr>) v) = rows_qty i v" for i
      by (induction v) auto
    moreover have "list_all (\<lambda>r. 0 < pi_quantity r \<and> pi_characterId r = c) (upd_first P (\<lambda>r. r\<lparr>pi_id := k\<rparr>) v)"
      using wf_rows_list_all[OF v] by (rule list_all_upd_first) simp
    ultimately show ?thesis using v by (simp add: wf_rows_def)
  qed
  have "iv_players s c = Some v \<Longrightarrow> wf_inventory (put_rows c (upd_first P (\<lambda>r. r\<lparr>pi_id := k\<rparr>) v) s)"
    for v P k
  proof -
    assume v: "iv_players s c = Some v"
    have "wf_rows c v" using a v by (simp add: wf_inventory_def)
    then show "wf_inventory (put_rows c (upd_first P (\<lambda>r. r\<lparr>pi_id := k\<rparr>) v) s)"
      using a w by (intro wf_put_rows)
  qed
  then show ?thesis using a
    by (simp add: updateInventoryItemId_def Let_def inv_simps split: option.splits)
qed


section \<open>Runs of the manager\<close>

text \<open>
  The operations the server calls, as steps. \<open>Give\<close> carries the room the caller must
  leave below the \<open>int\<close> limit; \<open>Load\<close> and \<open>AddInstance\<close> carry what the game server
  and the trade code guarantee about the rows they hand over.
\<close>

inductive inv_step :: "item_manager \<Rightarrow> inventory_manager \<Rightarrow> inventory_manager \<Rightarrow> bool"
  for im :: item_manager where
  Give: "qty s c i + n < INT_LIM \<Longrightarrow> inv_step im s (snd (addItemToInventory im c i n s))"
| Take: "inv_step im s (snd (removeItemFromInventory c i n s))"
| TakeRow: "inv_step im s (snd (removeItemFromInventoryById c rid n s))"
| Clear: "inv_step im s (clearPlayerInventory c s)"
| Load: "wf_rows c v \<Longrightarrow> inv_step im s (loadPlayerInventory im c v s)"
| Durability: "inv_step im s (updateDurability c rid d s)"
| KillCount: "inv_step im s (updateItemKillCount c rid k s)"
| Equipped: "inv_step im s (setItemEquipped c rid e s)"
| AddInstance: "pi_characterId r = c \<Longrightarrow> 0 < pi_quantity r \<Longrightarrow>
     qty s c (pi_itemId r) + pi_quantity r < INT_LIM \<Longrightarrow>
     inv_step im s (addInstancedItemToInventory c r s)"
| Evict: "inv_step im s (evictFromMemory c rid s)"
| SyncId: "inv_step im s (updateInventoryItemId c i newId s)"

lemma inv_step_wf: "inv_step im s t \<Longrightarrow> wf_inventory s \<Longrightarrow> wf_inventory t"
proof (induction rule: inv_step.induct)
  case (Take s c i n) then show ?case by (rule bag.take_ok)
next
  case (Load c v s) then show ?case by (simp add: loadPlayerInventory_def inv_simps consolidate_wf)
qed (simp_all add: add_wf removeById_wf clearPlayerInventory_def inv_simps upd_row_wf
      updateDurability_def updateItemKillCount_def setItemEquipped_def addInstanced_wf evict_wf updateId_wf)

definition empty_inventory :: "bool \<Rightarrow> bool \<Rightarrow> bool \<Rightarrow> inventory_manager" where
  "empty_inventory sv qu qm = \<lparr>iv_players = Map.empty, iv_hasSave = sv, iv_hasQueue = qu,
     iv_hasQuest = qm, iv_out = []\<rparr>"

inductive inv_reachable :: "item_manager \<Rightarrow> inventory_manager \<Rightarrow> bool" for im :: item_manager where
  start: "inv_reachable im (empty_inventory sv qu qm)"
| step: "inv_reachable im s \<Longrightarrow> inv_step im s t \<Longrightarrow> inv_reachable im t"

lemma wf_empty_inventory [simp]: "wf_inventory (empty_inventory sv qu qm)"
  by (simp add: wf_inventory_def empty_inventory_def)


section \<open>Properties\<close>

definition sample_row :: "int \<Rightarrow> int \<Rightarrow> int \<Rightarrow> int \<Rightarrow> PlayerInventoryItemStruct" where
  "sample_row rid c i n =
     default_inv_item\<lparr>pi_id := rid, pi_characterId := c, pi_itemId := i, pi_quantity := n\<rparr>"

lemma sample_row_simps [simp]:
  "pi_id (sample_row rid c i n) = rid" "pi_characterId (sample_row rid c i n) = c"
  "pi_itemId (sample_row rid c i n) = i" "pi_quantity (sample_row rid c i n) = n"
  "pi_isEquipped (sample_row rid c i n) = False"
  by (simp_all add: sample_row_def default_inv_item_def)

text \<open>Character 7 owns 100 gold, two swords and three potions; character 8 owns 40 gold.\<close>

definition sample_inv :: inventory_manager where
  "sample_inv = (empty_inventory True True False)\<lparr>iv_players := [
     7 \<mapsto> [sample_row 11 7 1 100, sample_row 12 7 2 1, sample_row 13 7 2 1, sample_row 14 7 3 3],
     8 \<mapsto> [sample_row 21 8 1 40]]\<rparr>"

lemma sample_inv_rows [simp]:
  "rows sample_inv 7 = [sample_row 11 7 1 100, sample_row 12 7 2 1, sample_row 13 7 2 1, sample_row 14 7 3 3]"
  "rows sample_inv 8 = [sample_row 21 8 1 40]"
  by (simp_all add: rows_def sample_inv_def)

lemma wf_sample_inv [simp]: "wf_inventory sample_inv"
  by (simp add: wf_inventory_def sample_inv_def wf_rows_def)

lemma qty_sample [simp]:
  "qty sample_inv 7 1 = 100" "qty sample_inv 7 2 = 2" "qty sample_inv 7 3 = 3" "qty sample_inv 8 1 = 40"
  by (simp_all add: qty_def)

text \<open>C1: \<open>addItemToInventory\<close> succeeds exactly for a positive amount of a catalogued item; it
  then raises what that character owns of that item by exactly that amount and nothing else,
  for every character and item, and otherwise it leaves the state untouched.\<close>

theorem add_item_effect:
  assumes "wf_inventory s" and "qty s c i + n < INT_LIM"
  shows "case addItemToInventory im c i n s of (done, s') \<Rightarrow>
    (done \<longleftrightarrow> 0 < n \<and> it_id (getItemById im i) \<noteq> 0) \<and>
    (if done then (\<forall>c' i'. getItemQuantity s' c' i'
       = getItemQuantity s c' i' + (if c' = c \<and> i' = i then n else 0)) else s' = s)"
proof -
  have "wf_inventory (snd (addItemToInventory im c i n s))" using assms by (rule bag.give_ok)
  then show ?thesis
    using bag.give_iff[of im c i n s] bag.give_refused[of im c i n s] bag.give_holds[OF assms(1) _ assms(2), of im]
    by (auto simp: getItemQuantity_exact assms(1) split: prod.splits)
qed

theorem add_item_effect_witness:
  "getItemQuantity (snd (addItemToInventory sample_items 7 1 50 sample_inv)) 7 1 = 150"
proof -
  have "qty sample_inv 7 1 + 50 < INT_LIM" by simp
  from add_item_effect[OF wf_sample_inv this, of sample_items] show ?thesis
    by (simp add: getItemQuantity_exact sample_item_defs split: prod.splits)
qed

text \<open>C2: \<open>removeItemFromInventory\<close> succeeds exactly when the amount is positive and the character
  owns that much over all his stacks; it then lowers that quantity by exactly the amount, over
  however many stacks, keeps everything else, and a refused removal changes nothing.\<close>

theorem remove_item_effect:
  assumes "wf_inventory s"
  shows "case removeItemFromInventory c i n s of (done, s') \<Rightarrow>
    (done \<longleftrightarrow> 0 < n \<and> n \<le> getItemQuantity s c i) \<and>
    (if done then (\<forall>c' i'. getItemQuantity s' c' i'
       = getItemQuantity s c' i' - (if c' = c \<and> i' = i then n else 0)) else s' = s)"
  using bag.take_iff[OF assms, of c i n] bag.take_refused[of c i n s] bag.take_holds[OF assms, of c i n]
    bag.take_ok[OF assms, of c i n]
  by (auto simp: getItemQuantity_exact assms split: prod.splits)

theorem remove_item_effect_witness:
  "getItemQuantity (snd (removeItemFromInventory 7 2 2 sample_inv)) 7 2 = 0"
  using remove_item_effect[OF wf_sample_inv, where c = 7 and i = 2 and n = 2]
  by (simp add: getItemQuantity_exact split: prod.splits)

text \<open>C3: In every state the manager can reach, each inventory row belongs to the character it is
  filed under and holds at least one piece, and no total exceeds the \<open>int\<close> range.\<close>

theorem inventory_invariant:
  assumes "inv_reachable im s" shows "wf_inventory s"
  using assms by induction (auto intro: inv_step_wf)

theorem inventory_invariant_witness:
  "wf_inventory (snd (addItemToInventory sample_items 7 1 5 (empty_inventory True True True)))"
proof (rule inventory_invariant)
  have "qty (empty_inventory True True True) 7 1 + 5 < INT_LIM"
    by (simp add: qty_def rows_def empty_inventory_def)
  then show "inv_reachable sample_items (snd (addItemToInventory sample_items 7 1 5 (empty_inventory True True True)))"
    by (rule inv_reachable.step[OF inv_reachable.start inv_step.Give])
qed

text \<open>Loading an inventory from the game server neither creates nor loses a piece of any item,
  and afterwards every stackable item occupies at most one row.\<close>

lemma load_merges_stacks:
  assumes "wf_rows c v"
  shows "let s' = loadPlayerInventory im c v s in
    (\<forall>i. getItemQuantity s' c i = rows_qty i v) \<and>
    (\<forall>i. stackable im i \<longrightarrow> length (filter (\<lambda>r. pi_itemId r = i) (getPlayerInventory s' c)) \<le> 1)"
proof -
  have "getItemQuantity (loadPlayerInventory im c v s) c i
      = sum_i32 0 (row_quantities i (consolidateInventory im v))" for i
    by (simp add: getItemQuantity_def loadPlayerInventory_def put_rows_def)
  also have "\<dots> i = rows_qty i v" for i
    by (simp add: sum_i32_rows[OF consolidate_wf[OF assms]] consolidate_qty[OF assms])
  finally show ?thesis
    using consolidate_one_stack
    by (simp add: Let_def loadPlayerInventory_def inv_simps getPlayerInventory_def)
qed

lemma remove_loop_none:
  "filter (\<lambda>r. pi_itemId r = i) v = [] \<Longrightarrow> remove_loop i n l f v = (v, l, f)"
  by (induction v arbitrary: n l f) (auto split: if_splits)

lemma remove_loop_single:
  assumes "filter (\<lambda>r. pi_itemId r = i) v = [r]" "0 < n" "n \<le> pi_quantity r" "pi_quantity r < INT_LIM"
  shows "\<exists>v'. remove_loop i n l f v = (v', pi_id r, pi_quantity r - n)"
  using assms
proof (induction v)
  case (Cons x v)
  show ?case
  proof (cases "pi_itemId x = i")
    case True
    then have x: "x = r" "filter (\<lambda>r. pi_itemId r = i) v = []" using Cons.prems(1) by auto
    have w: "wrap32 (pi_quantity r - n) = pi_quantity r - n"
      using Cons.prems by (simp add: in_i32_iff)
    show ?thesis using Cons.prems True x w by (simp add: Let_def remove_loop_none)
  next
    case False
    then obtain v' where "remove_loop i n l f v = (v', pi_id r, pi_quantity r - n)"
      using Cons.IH Cons.prems by auto
    then show ?thesis using False Cons.prems(2) by simp
  qed
qed simp

text \<open>Removing from an item that occupies one row (every stackable item, once loaded) persists exactly
  the row's new quantity under the row's database id, and then sends the client the new rows.\<close>

lemma remove_persists_single_row:
  assumes "wf_inventory s" "filter (\<lambda>r. pi_itemId r = i) (rows s c) = [r]"
    "0 < n" "n \<le> pi_quantity r" "iv_hasSave s" "iv_hasQueue s"
  shows "let s' = snd (removeItemFromInventory c i n s) in
    iv_out s' = iv_out s @ [SaveInventoryChange c i (qty s' c i) (pi_id r), InventoryUpdate c (rows s' c)]
    \<and> qty s' c i = pi_quantity r - n"
proof -
  define s' where "s' = snd (removeItemFromInventory c i n s)"
  have w: "wf_rows c (rows s c)" using assms(1) by (rule wf_inventory_rows)
  have "r \<in> set (filter (\<lambda>r. pi_itemId r = i) (rows s c))" using assms(2) by simp
  then have r: "r \<in> set (rows s c)" by simp
  have "r \<in> set (filter (\<lambda>r. pi_itemId r = i) (rows s c))" using assms(2) by simp
  then have "pi_itemId r = i" by simp
  then have q: "qty s c i = pi_quantity r"
    unfolding qty_def by (subst rows_qty_filter_item[symmetric]) (simp only: assms(2) rows_qty_Cons rows_qty_Nil simp_thms if_True add_0_right)
  have b: "pi_quantity r < INT_LIM" using wf_rows_row[OF w r] by simp
  obtain v' where rl: "remove_loop i n 0 0 (rows s c) = (v', pi_id r, pi_quantity r - n)"
    using remove_loop_single[OF assms(2-4) b] by metis
  obtain v where v: "iv_players s c = Some v" using r by (cases "iv_players s c") (auto simp: rows_def)
  have res: "fst (removeItemFromInventory c i n s)" using assms(1,3,4) q by (simp add: remove_iff)
  then have qn: "qty s' c i = pi_quantity r - n" using remove_effect(2)[OF assms(1) res] q by (simp add: s'_def)
  have "iv_out s' = iv_out s @ [SaveInventoryChange c i (pi_quantity r - n) (pi_id r),
           InventoryUpdate c (rows s' c)]"
  proof -
    have "removeItemFromInventory c i n s
      = (True, emit_update c (emit_save c i (pi_quantity r - n) (pi_id r) (put_rows c v' s)))"
      using res rl v by (simp add: removeItemFromInventory_def rows_def split: if_splits)
    then show ?thesis
      using assms(5,6) by (simp add: s'_def emit_save_def emit_update_def put_rows_def rows_def)
  qed
  with qn show ?thesis by (simp add: Let_def flip: s'_def)
qed

text \<open>
  With several rows the manager persists only the last row it touched. Taking both swords of
  the sample inventory empties rows 12 and 13, and the database only hears of row 13: row 12
  comes back at the next login.
\<close>

theorem remove_two_rows_saves_one:
  "rows (snd (removeItemFromInventory 7 2 2 sample_inv)) 7 = [sample_row 11 7 1 100, sample_row 14 7 3 3]"
  "filter (\<lambda>e. case e of SaveInventoryChange _ _ _ _ \<Rightarrow> True | _ \<Rightarrow> False)
     (iv_out (snd (removeItemFromInventory 7 2 2 sample_inv))) = [SaveInventoryChange 7 2 0 13]"
  by code_simp+

end
