(* ===== verification/Vendor.thy ===== *)
theory Vendor
  imports Inventory
begin

text \<open>
  \<^verbatim>\<open>services/VendorManager.cpp\<close>: what each vendor NPC sells, and the four transactions.
  A transaction works on the vendor table and the inventories together and returns
  \<open>Inl reason\<close> or \<open>Inr\<close> of what the C++ result struct carries on success.
  Prices are computed in binary32 exactly as the code does.
\<close>

section \<open>State\<close>

record VendorInventoryItemStruct =
  vs_itemId :: int
  vs_stockCurrent :: int
  vs_stockMax :: int
  vs_restockAmount :: int
  vs_restockIntervalSec :: int
  vs_priceOverrideBuy :: int
  vs_priceOverrideSell :: int

record VendorNPCDataStruct =
  vn_npcId :: int
  vn_items :: "VendorInventoryItemStruct list"

type_synonym vendor_manager = "int \<Rightarrow> VendorNPCDataStruct option"

definition setVendorData :: "VendorNPCDataStruct list \<Rightarrow> vendor_manager \<Rightarrow> vendor_manager" where
  "setVendorData vendors vm = fold (\<lambda>v m. m(vn_npcId v \<mapsto> v)) vendors Map.empty"

definition set_vendor_items ::
  "int \<Rightarrow> (VendorInventoryItemStruct list \<Rightarrow> VendorInventoryItemStruct list) \<Rightarrow> vendor_manager \<Rightarrow> vendor_manager" where
  "set_vendor_items npcId f vm =
     (case vm npcId of None \<Rightarrow> vm
      | Some v \<Rightarrow> vm(npcId \<mapsto> v\<lparr>vn_items := f (vn_items v)\<rparr>))"

definition updateStockCount :: "int \<Rightarrow> int \<Rightarrow> int \<Rightarrow> vendor_manager \<Rightarrow> vendor_manager" where
  "updateStockCount npcId itemId newStock vm =
     set_vendor_items npcId
       (upd_first (\<lambda>s. vs_itemId s = itemId) (\<lambda>s. s\<lparr>vs_stockCurrent := newStock\<rparr>)) vm"

section \<open>Prices\<close>

text \<open>\<^verbatim>\<open>static_cast<int>(std::ceil(item.vendorPriceBuy * (1.0f + buyMarkupPct)))\<close>\<close>

definition buy_unit_price :: "ItemDataStruct \<Rightarrow> VendorInventoryItemStruct \<Rightarrow> float32 \<Rightarrow> int" where
  "buy_unit_price item slot buyMarkupPct =
     (if 0 < vs_priceOverrideBuy slot then vs_priceOverrideBuy slot
      else \<lceil>fl32 (fl32 (of_int (it_vendorPriceBuy item)) * fl32 (1 + buyMarkupPct))\<rceil>)"

text \<open>\<^verbatim>\<open>static_cast<int>(std::floor(unitSell * quantity * (1.0f - sellTaxPct)))\<close>\<close>

definition sell_price :: "ItemDataStruct \<Rightarrow> int \<Rightarrow> float32 \<Rightarrow> int" where
  "sell_price item quantity sellTaxPct =
     \<lfloor>fl32 (fl32 (of_int (wrap32 (it_vendorPriceSell item * quantity))) * fl32 (1 - sellTaxPct))\<rfloor>"

text \<open>The prices the shop window shows, per slot whose item exists.\<close>

definition buildShopJson ::
  "item_manager \<Rightarrow> vendor_manager \<Rightarrow> int \<Rightarrow> float32 \<Rightarrow> (ItemDataStruct \<times> int \<times> int \<times> int \<times> int) list option" where
  "buildShopJson im vm npcId buyMarkupPct =
     (case vm npcId of None \<Rightarrow> None
      | Some v \<Rightarrow> Some (concat (map (\<lambda>slot.
          let item = getItemById im (vs_itemId slot) in
          if it_id item = 0 then []
          else [(item, buy_unit_price item slot buyMarkupPct,
                 (if 0 < vs_priceOverrideSell slot then vs_priceOverrideSell slot else it_vendorPriceSell item),
                 vs_stockCurrent slot, vs_stockMax slot)]) (vn_items v))))"

section \<open>Transactions\<close>

definition find_slot :: "vendor_manager \<Rightarrow> int \<Rightarrow> int \<Rightarrow> VendorInventoryItemStruct option" where
  "find_slot vm npcId itemId =
     (case vm npcId of None \<Rightarrow> None | Some v \<Rightarrow> find (\<lambda>s. vs_itemId s = itemId) (vn_items v))"

text \<open>The stock loop: the first slot of the item that is not unlimited is lowered, not below 0.\<close>

definition decrement_stock :: "int \<Rightarrow> int \<Rightarrow> int \<Rightarrow> vendor_manager \<Rightarrow> vendor_manager" where
  "decrement_stock npcId itemId quantity vm =
     set_vendor_items npcId
       (upd_first (\<lambda>s. vs_itemId s = itemId \<and> vs_stockCurrent s \<noteq> -1)
          (\<lambda>s. s\<lparr>vs_stockCurrent := max 0 (wrap32 (vs_stockCurrent s - quantity))\<rparr>)) vm"

definition buyItem ::
  "item_manager \<Rightarrow> int \<Rightarrow> int \<Rightarrow> int \<Rightarrow> int \<Rightarrow> int \<Rightarrow> float32
   \<Rightarrow> vendor_manager \<times> inventory_manager \<Rightarrow> (string + int) \<times> vendor_manager \<times> inventory_manager" where
  "buyItem im characterId npcId itemId quantity goldItemId buyMarkupPct st =
     (case st of (vm, ivm) \<Rightarrow>
      if quantity \<le> 0 then (Inl ''invalid_quantity'', vm, ivm)
      else if vm npcId = None then (Inl ''vendor_not_found'', vm, ivm)
      else case find_slot vm npcId itemId of
        None \<Rightarrow> (Inl ''item_not_sold_here'', vm, ivm)
      | Some slot \<Rightarrow>
        if vs_stockCurrent slot \<noteq> -1 \<and> vs_stockCurrent slot < quantity
        then (Inl ''insufficient_stock'', vm, ivm)
        else
          let item = getItemById im itemId in
          if it_id item = 0 then (Inl ''item_not_found'', vm, ivm)
          else
            let totalPrice = wrap32 (buy_unit_price item slot buyMarkupPct * quantity) in
            if getItemQuantity ivm characterId goldItemId < totalPrice
            then (Inl ''insufficient_gold'', vm, ivm)
            else case removeItemFromInventory characterId goldItemId totalPrice ivm of
              (False, ivm1) \<Rightarrow> (Inl ''gold_deduct_failed'', vm, ivm1)
            | (True, ivm1) \<Rightarrow>
              (case addItemToInventory im characterId itemId quantity ivm1 of
                 (False, ivm2) \<Rightarrow>
                   (Inl ''inventory_add_failed'', vm,
                    snd (addItemToInventory im characterId goldItemId totalPrice ivm2))
               | (True, ivm2) \<Rightarrow>
                   (Inr totalPrice, decrement_stock npcId itemId quantity vm, ivm2)))"

definition sellItem ::
  "item_manager \<Rightarrow> int \<Rightarrow> int \<Rightarrow> int \<Rightarrow> int \<Rightarrow> int \<Rightarrow> float32 \<Rightarrow> vendor_manager
   \<Rightarrow> inventory_manager \<Rightarrow> (string + int) \<times> inventory_manager" where
  "sellItem im characterId npcId inventoryItemId quantity goldItemId sellTaxPct vm ivm =
     (if quantity \<le> 0 then (Inl ''invalid_quantity'', ivm)
      else if vm npcId = None then (Inl ''vendor_not_found'', ivm)
      else case find (\<lambda>r. pi_id r = inventoryItemId) (getPlayerInventory ivm characterId) of
        None \<Rightarrow> (Inl ''item_not_in_inventory'', ivm)
      | Some invSlot \<Rightarrow>
        if pi_isEquipped invSlot then (Inl ''item_is_equipped'', ivm)
        else if pi_quantity invSlot < quantity then (Inl ''insufficient_quantity'', ivm)
        else
          let item = getItemById im (pi_itemId invSlot) in
          if \<not> it_isTradable item then (Inl ''item_not_tradable'', ivm)
          else
            let goldReceived = sell_price item quantity sellTaxPct in
            (case removeItemFromInventory characterId (pi_itemId invSlot) quantity ivm of
               (False, ivm1) \<Rightarrow> (Inl ''item_remove_failed'', ivm1)
             | (True, ivm1) \<Rightarrow>
                 (Inr goldReceived, snd (addItemToInventory im characterId goldItemId goldReceived ivm1))))"

section \<open>Batches\<close>

definition MAX_VENDOR_BATCH_SIZE :: int where
  "MAX_VENDOR_BATCH_SIZE = 20"

text \<open>A batch entry is (item id, quantity) for a buy and (inventory row id, quantity) for a
  sale; a result line adds the price.\<close>

fun price_entries ::
  "item_manager \<Rightarrow> vendor_manager \<Rightarrow> int \<Rightarrow> float32 \<Rightarrow> (int \<times> int) list \<Rightarrow> string + (int \<times> int \<times> int) list" where
  "price_entries im vm npcId mk [] = Inr []"
| "price_entries im vm npcId mk ((itemId, quantity) # es) =
     (if quantity \<le> 0 then Inl ''invalid_quantity''
      else case find_slot vm npcId itemId of
        None \<Rightarrow> Inl ''item_not_sold_here''
      | Some slot \<Rightarrow>
        if vs_stockCurrent slot \<noteq> -1 \<and> vs_stockCurrent slot < quantity then Inl ''insufficient_stock''
        else
          let item = getItemById im itemId in
          if it_id item = 0 then Inl ''item_not_found''
          else case price_entries im vm npcId mk es of
            Inl e \<Rightarrow> Inl e
          | Inr lines \<Rightarrow> Inr ((itemId, quantity, wrap32 (buy_unit_price item slot mk * quantity)) # lines))"

text \<open>Adds the lines one by one; on a refusal, everything added so far is taken out again.\<close>

fun add_lines ::
  "item_manager \<Rightarrow> int \<Rightarrow> int \<Rightarrow> int \<Rightarrow> (int \<times> int \<times> int) list \<Rightarrow> (int \<times> int \<times> int) list
   \<Rightarrow> inventory_manager \<Rightarrow> bool \<times> inventory_manager" where
  "add_lines im c goldItemId totalGold added [] ivm = (True, ivm)"
| "add_lines im c goldItemId totalGold added ((itemId, quantity, price) # ls) ivm =
     (case addItemToInventory im c itemId quantity ivm of
        (True, ivm1) \<Rightarrow> add_lines im c goldItemId totalGold (added @ [(itemId, quantity, price)]) ls ivm1
      | (False, ivm1) \<Rightarrow>
          (False, fold (\<lambda>(i, q, p) s. snd (removeItemFromInventory c i q s)) added
             (snd (addItemToInventory im c goldItemId totalGold ivm1))))"

definition buyBatch ::
  "item_manager \<Rightarrow> int \<Rightarrow> int \<Rightarrow> (int \<times> int) list \<Rightarrow> int \<Rightarrow> float32
   \<Rightarrow> vendor_manager \<times> inventory_manager
   \<Rightarrow> (string + int \<times> (int \<times> int \<times> int) list) \<times> vendor_manager \<times> inventory_manager" where
  "buyBatch im characterId npcId entries goldItemId buyMarkupPct st =
     (case st of (vm, ivm) \<Rightarrow>
      if entries = [] then (Inl ''empty_batch'', vm, ivm)
      else if MAX_VENDOR_BATCH_SIZE < int (length entries) then (Inl ''batch_too_large'', vm, ivm)
      else if vm npcId = None then (Inl ''vendor_not_found'', vm, ivm)
      else case price_entries im vm npcId buyMarkupPct entries of
        Inl e \<Rightarrow> (Inl e, vm, ivm)
      | Inr lines \<Rightarrow>
        let totalGold = sum_i32 0 (map (\<lambda>(i, q, p). p) lines) in
        if getItemQuantity ivm characterId goldItemId < totalGold then (Inl ''insufficient_gold'', vm, ivm)
        else case removeItemFromInventory characterId goldItemId totalGold ivm of
          (False, ivm1) \<Rightarrow> (Inl ''gold_deduct_failed'', vm, ivm1)
        | (True, ivm1) \<Rightarrow>
          (case add_lines im characterId goldItemId totalGold [] lines ivm1 of
             (False, ivm2) \<Rightarrow> (Inl ''inventory_add_failed'', vm, ivm2)
           | (True, ivm2) \<Rightarrow>
               (Inr (totalGold, lines),
                fold (\<lambda>(i, q, p). decrement_stock npcId i q) lines vm, ivm2)))"

fun value_entries ::
  "item_manager \<Rightarrow> PlayerInventoryItemStruct list \<Rightarrow> float32 \<Rightarrow> (int \<times> int) list
   \<Rightarrow> string + (int \<times> int \<times> int) list" where
  "value_entries im inventory tax [] = Inr []"
| "value_entries im inventory tax ((rid, quantity) # es) =
     (if quantity \<le> 0 then Inl ''invalid_quantity''
      else case find (\<lambda>r. pi_id r = rid) inventory of
        None \<Rightarrow> Inl ''item_not_in_inventory''
      | Some invSlot \<Rightarrow>
        if pi_isEquipped invSlot then Inl ''item_is_equipped''
        else if pi_quantity invSlot < quantity then Inl ''insufficient_quantity''
        else
          let item = getItemById im (pi_itemId invSlot) in
          if \<not> it_isTradable item then Inl ''item_not_tradable''
          else case value_entries im inventory tax es of
            Inl e \<Rightarrow> Inl e
          | Inr lines \<Rightarrow> Inr ((rid, quantity, sell_price item quantity tax) # lines))"

text \<open>The removals of a batch sale. \<open>inventory\<close> is the snapshot taken before the first one.\<close>

fun sell_lines ::
  "item_manager \<Rightarrow> int \<Rightarrow> int \<Rightarrow> PlayerInventoryItemStruct list \<Rightarrow> int \<Rightarrow> (int \<times> int \<times> int) list
   \<Rightarrow> inventory_manager \<Rightarrow> string option \<times> inventory_manager" where
  "sell_lines im c goldItemId inventory goldCredited [] ivm = (None, ivm)"
| "sell_lines im c goldItemId inventory goldCredited ((rid, quantity, gold) # ls) ivm =
     (let rollback = (\<lambda>s. if 0 < goldCredited then snd (removeItemFromInventory c goldItemId goldCredited s) else s)
      in case find (\<lambda>r. pi_id r = rid) inventory of
        None \<Rightarrow> (Some ''item_not_in_inventory'', rollback ivm)
      | Some invSlot \<Rightarrow>
        (case removeItemFromInventory c (pi_itemId invSlot) quantity ivm of
           (False, ivm1) \<Rightarrow> (Some ''item_remove_failed'', rollback ivm1)
         | (True, ivm1) \<Rightarrow>
             sell_lines im c goldItemId inventory (wrap32 (goldCredited + gold)) ls
               (snd (addItemToInventory im c goldItemId gold ivm1))))"

definition sellBatch ::
  "item_manager \<Rightarrow> int \<Rightarrow> int \<Rightarrow> (int \<times> int) list \<Rightarrow> int \<Rightarrow> float32 \<Rightarrow> vendor_manager
   \<Rightarrow> inventory_manager \<Rightarrow> (string + int \<times> (int \<times> int \<times> int) list) \<times> inventory_manager" where
  "sellBatch im characterId npcId entries goldItemId sellTaxPct vm ivm =
     (if entries = [] then (Inl ''empty_batch'', ivm)
      else if MAX_VENDOR_BATCH_SIZE < int (length entries) then (Inl ''batch_too_large'', ivm)
      else if vm npcId = None then (Inl ''vendor_not_found'', ivm)
      else
        let inventory = getPlayerInventory ivm characterId in
        case value_entries im inventory sellTaxPct entries of
          Inl e \<Rightarrow> (Inl e, ivm)
        | Inr lines \<Rightarrow>
          (case sell_lines im characterId goldItemId inventory 0 lines ivm of
             (Some e, ivm1) \<Rightarrow> (Inl e, ivm1)
           | (None, ivm1) \<Rightarrow> (Inr (sum_i32 0 (map (\<lambda>(i, q, p). p) lines), lines), ivm1)))"


section \<open>Stock\<close>

definition stock_ok :: "vendor_manager \<Rightarrow> bool" where
  "stock_ok vm \<longleftrightarrow> (\<forall>n v. vm n = Some v \<longrightarrow>
     list_all (\<lambda>s. vs_stockCurrent s = -1 \<or> 0 \<le> vs_stockCurrent s) (vn_items v))"

lemma stock_ok_set_items:
  assumes "stock_ok vm"
    "\<And>xs. list_all (\<lambda>s. vs_stockCurrent s = -1 \<or> 0 \<le> vs_stockCurrent s) xs \<Longrightarrow>
      list_all (\<lambda>s. vs_stockCurrent s = -1 \<or> 0 \<le> vs_stockCurrent s) (f xs)"
  shows "stock_ok (set_vendor_items n f vm)"
  using assms by (auto simp: stock_ok_def set_vendor_items_def split: option.splits)

lemma decrement_stock_ok: "stock_ok vm \<Longrightarrow> stock_ok (decrement_stock n i q vm)"
  unfolding decrement_stock_def by (intro stock_ok_set_items list_all_upd_first) auto

lemma upd_first_sub:
  "find P xs = Some x \<Longrightarrow> Q x \<Longrightarrow> upd_first (\<lambda>x. P x \<and> Q x) f xs = upd_first P f xs"
  by (induction xs) (auto split: if_splits)

lemma find_slot_decrement:
  assumes "find_slot vm n i = Some slot" "vs_stockCurrent slot \<noteq> -1"
  shows "find_slot (decrement_stock n i q vm) n i
    = Some (slot\<lparr>vs_stockCurrent := max 0 (wrap32 (vs_stockCurrent slot - q))\<rparr>)"
proof -
  obtain v where v: "vm n = Some v" and f: "find (\<lambda>s. vs_itemId s = i) (vn_items v) = Some slot"
    using assms(1) by (auto simp: find_slot_def split: option.splits)
  show ?thesis
    using upd_first_sub[OF f, of "\<lambda>s. vs_stockCurrent s \<noteq> -1"] assms(2) f
    by (simp add: find_slot_def decrement_stock_def set_vendor_items_def v find_upd_first)
qed

section \<open>Prices\<close>

lemma ceiling_ge_of_le: "of_int n \<le> x \<Longrightarrow> n \<le> \<lceil>x\<rceil>"
  using ceiling_mono[of "of_int n" x] by simp

lemma floor_le_of_ge: "x \<le> of_int n \<Longrightarrow> \<lfloor>x\<rfloor> \<le> n"
  using floor_mono[of x "of_int n"] by simp

lemma buy_unit_price_ge:
  assumes "vs_priceOverrideBuy slot \<le> 0" "0 \<le> it_vendorPriceBuy item" "it_vendorPriceBuy item < 2 ^ 24"
    "0 \<le> mk"
  shows "it_vendorPriceBuy item \<le> buy_unit_price item slot mk"
proof -
  let ?p = "of_int (it_vendorPriceBuy item) :: rat"
  have p: "fl32 ?p = ?p" using assms by (intro fl32_int) simp
  have "1 \<le> fl32 (1 + mk)" using fl32_mono[of 1 "1 + mk"] assms by simp
  then have "?p * 1 \<le> ?p * fl32 (1 + mk)" using assms by (intro mult_left_mono) simp_all
  then have "?p \<le> fl32 (?p * fl32 (1 + mk))" using fl32_mono[of ?p "?p * fl32 (1 + mk)"] p by simp
  then show ?thesis using assms by (simp add: buy_unit_price_def p ceiling_ge_of_le)
qed

lemma sell_price_le:
  assumes "0 \<le> it_vendorPriceSell item * n" "it_vendorPriceSell item * n < 2 ^ 24" "0 \<le> tax"
  shows "sell_price item n tax \<le> it_vendorPriceSell item * n"
proof -
  let ?v = "it_vendorPriceSell item * n"
  let ?p = "of_int ?v :: rat"
  have w: "wrap32 ?v = ?v" using assms by (simp add: in_i32_def)
  have p: "fl32 ?p = ?p" using assms by (intro fl32_int) simp
  have "fl32 (1 - tax) \<le> 1" using fl32_mono[of "1 - tax" 1] assms by simp
  then have "?p * fl32 (1 - tax) \<le> ?p * 1"
    using assms by (intro mult_left_mono) (simp_all del: of_int_mult)
  then have "fl32 (?p * fl32 (1 - tax)) \<le> ?p" using fl32_mono[of "?p * fl32 (1 - tax)" ?p] p by simp
  then show ?thesis by (simp only: sell_price_def w p floor_le_of_ge)
qed

lemma sell_price_nonneg:
  assumes "0 \<le> it_vendorPriceSell item * n" "it_vendorPriceSell item * n < INT_LIM" "tax \<le> 1"
  shows "0 \<le> sell_price item n tax"
proof -
  have "wrap32 (it_vendorPriceSell item * n) = it_vendorPriceSell item * n"
    using assms by (simp add: in_i32_iff)
  then show ?thesis using assms by (simp add: sell_price_def del: of_int_mult)
qed

section \<open>Buying\<close>

definition no_such_sale :: "item_manager \<Rightarrow> vendor_manager \<Rightarrow> int \<Rightarrow> int \<Rightarrow> bool" where
  "no_such_sale im vm npcId itemId \<longleftrightarrow> find_slot vm npcId itemId = None \<or> it_id (getItemById im itemId) = 0"

text \<open>The price the C++ computes, when no arithmetic wraps.\<close>

definition exact_price :: "item_manager \<Rightarrow> vendor_manager \<Rightarrow> int \<Rightarrow> int \<Rightarrow> int \<Rightarrow> float32 \<Rightarrow> int" where
  "exact_price im vm npcId itemId n mk =
     (case find_slot vm npcId itemId of None \<Rightarrow> 0
      | Some slot \<Rightarrow> buy_unit_price (getItemById im itemId) slot mk * n)"

lemma remove_pair: "removeItemFromInventory c i n s = (False, s1) \<Longrightarrow> s1 = s"
  using remove_refused[of c i n s] by simp

lemma add_pair:
  "0 < n \<Longrightarrow> it_id (getItemById im i) \<noteq> 0 \<Longrightarrow> addItemToInventory im c i n s \<noteq> (False, s1)"
  using add_iff[of im c i n s] by auto

lemma buyItem_success:
  assumes "fst (buyItem im c npcId i n g mk (vm, ivm)) = Inr tot" "wf_inventory ivm"
  obtains slot where "find_slot vm npcId i = Some slot"
    "vs_stockCurrent slot = -1 \<or> n \<le> vs_stockCurrent slot" "0 < n" "it_id (getItemById im i) \<noteq> 0"
    "tot = wrap32 (buy_unit_price (getItemById im i) slot mk * n)" "0 < tot" "tot \<le> qty ivm c g"
    "buyItem im c npcId i n g mk (vm, ivm) = (Inr tot, decrement_stock npcId i n vm,
      snd (addItemToInventory im c i n (snd (removeItemFromInventory c g tot ivm))))"
proof -
  obtain slot where slot: "find_slot vm npcId i = Some slot"
    using assms(1) by (auto simp: buyItem_def split: option.splits if_splits)
  let ?t = "wrap32 (buy_unit_price (getItemById im i) slot mk * n)"
  have base: "0 < n" "it_id (getItemById im i) \<noteq> 0" "vs_stockCurrent slot = -1 \<or> n \<le> vs_stockCurrent slot"
    "fst (removeItemFromInventory c g ?t ivm)" "tot = ?t"
    "buyItem im c npcId i n g mk (vm, ivm) = (Inr tot, decrement_stock npcId i n vm,
      snd (addItemToInventory im c i n (snd (removeItemFromInventory c g tot ivm))))"
    using assms(1) slot
    by (auto simp: buyItem_def Let_def split: option.splits if_splits prod.splits bool.splits)
  moreover have "0 < tot" "tot \<le> qty ivm c g" using base(4,5) remove_iff[OF assms(2)] by simp_all
  ultimately show ?thesis using slot that by blast
qed

lemma buyItem_refused:
  assumes "fst (buyItem im c npcId i n g mk (vm, ivm)) = Inl e"
  shows "buyItem im c npcId i n g mk (vm, ivm) = (Inl e, vm, ivm)"
  using assms
  by (auto simp: buyItem_def Let_def add_pair dest: remove_pair
      split: option.splits if_splits prod.splits bool.splits)


text \<open>A sequence of gives: what \<open>add_lines\<close> does when every item of the batch is catalogued.\<close>

definition lines_qty :: "int \<Rightarrow> (int \<times> int \<times> int) list \<Rightarrow> int" where
  "lines_qty i ls = sum_list (map (\<lambda>(j, q, p). if j = i then q else 0) ls)"

lemma lines_qty_simps [simp]:
  "lines_qty i [] = 0"
  "lines_qty i ((j, q, p) # ls) = (if j = i then q else 0) + lines_qty i ls"
  by (simp_all add: lines_qty_def)

lemma lines_qty_map:
  "lines_qty i ls = sum_list (map (\<lambda>(j, q). if j = i then q else 0) (map (\<lambda>(j, q, p). (j, q)) ls))"
  by (induction ls) auto

lemma lines_qty_nonneg: "\<forall>(j, q, p)\<in>set ls. 0 < q \<Longrightarrow> 0 \<le> lines_qty i ls"
  by (induction ls) auto

lemma add_lines_effect:
  assumes "wf_inventory s" "\<forall>(j, q, p)\<in>set ls. 0 < q \<and> it_id (getItemById im j) \<noteq> 0"
    "\<forall>i. qty s c i + lines_qty i ls < INT_LIM"
  shows "fst (add_lines im c g tg added ls s) \<and> wf_inventory (snd (add_lines im c g tg added ls s))
    \<and> (\<forall>c' i'. qty (snd (add_lines im c g tg added ls s)) c' i'
        = qty s c' i' + (if c' = c then lines_qty i' ls else 0))"
  using assms
proof (induction ls arbitrary: s added)
  case (Cons l ls)
  obtain j q p where l: "l = (j, q, p)" by (cases l)
  have jq: "0 < q" "it_id (getItemById im j) \<noteq> 0" using Cons.prems(2) by (auto simp: l)
  have nn: "0 \<le> lines_qty i ls" for i using Cons.prems(2) by (intro lines_qty_nonneg) auto
  define s1 where "s1 = snd (addItemToInventory im c j q s)"
  have given: "fst (addItemToInventory im c j q s)" using jq by (simp add: add_iff)
  then have res: "addItemToInventory im c j q s = (True, s1)"
    unfolding s1_def by (cases "addItemToInventory im c j q s") simp
  have "qty s c j + (q + lines_qty j ls) < INT_LIM" using spec[OF Cons.prems(3), of j] by (simp add: l)
  then have room: "qty s c j + q < INT_LIM" using nn[of j] by linarith
  have ok1: "wf_inventory s1" using bag.give_ok[OF Cons.prems(1) room] by (simp add: s1_def)
  have q1: "qty s1 c' i' = qty s c' i' + (if c' = c \<and> i' = j then q else 0)" for c' i'
    unfolding s1_def by (rule bag.give_holds[OF Cons.prems(1) given room])
  have room1: "\<forall>i. qty s1 c i + lines_qty i ls < INT_LIM"
  proof
    fix i
    show "qty s1 c i + lines_qty i ls < INT_LIM"
      using spec[OF Cons.prems(3), of i] by (simp add: q1 l split: if_splits)
  qed
  have known: "\<forall>(j, q, p)\<in>set ls. 0 < q \<and> it_id (getItemById im j) \<noteq> 0"
    using Cons.prems(2) by simp
  have step: "add_lines im c g tg added (l # ls) s = add_lines im c g tg (added @ [(j, q, p)]) ls s1"
    by (simp add: l res)
  have amount: "qty s1 c' i' + (if c' = c then lines_qty i' ls else 0)
      = qty s c' i' + (if c' = c then lines_qty i' (l # ls) else 0)" for c' i'
    by (simp add: q1 l)
  show ?case
    using Cons.IH[OF ok1 known room1, of "added @ [(j, q, p)]"] unfolding step amount .
qed simp

lemma price_entries_lines:
  assumes "price_entries im vm npcId mk es = Inr ls"
  shows "(\<forall>(j, q, p)\<in>set ls. 0 < q \<and> it_id (getItemById im j) \<noteq> 0)
    \<and> map (\<lambda>(j, q, p). (j, q)) ls = es"
  using assms
proof (induction es arbitrary: ls)
  case (Cons e es)
  obtain i n where e: "e = (i, n)" by (cases e)
  obtain slot ls' where "find_slot vm npcId i = Some slot" "0 < n" "it_id (getItemById im i) \<noteq> 0"
    "price_entries im vm npcId mk es = Inr ls'"
    "ls = (i, n, wrap32 (buy_unit_price (getItemById im i) slot mk * n)) # ls'"
    using Cons.prems by (auto simp: e Let_def split: option.splits if_splits sum.splits)
  then show ?case using Cons.IH by (auto simp: e)
qed simp

lemma buyBatch_success:
  assumes "fst (buyBatch im c npcId es g mk (vm, ivm)) = Inr (tot, ls)"
  shows "price_entries im vm npcId mk es = Inr ls" "tot = sum_i32 0 (map (\<lambda>(i, q, p). p) ls)"
    "fst (removeItemFromInventory c g tot ivm)"
    "snd (snd (buyBatch im c npcId es g mk (vm, ivm)))
      = snd (add_lines im c g tot [] ls (snd (removeItemFromInventory c g tot ivm)))"
  using assms
  by (auto simp: buyBatch_def Let_def split: option.splits if_splits prod.splits bool.splits sum.splits)

section \<open>Examples for the witnesses\<close>

definition sample_slot :: "int \<Rightarrow> int \<Rightarrow> VendorInventoryItemStruct" where
  "sample_slot i stock = \<lparr>vs_itemId = i, vs_stockCurrent = stock, vs_stockMax = stock,
     vs_restockAmount = 1, vs_restockIntervalSec = 3600, vs_priceOverrideBuy = 0, vs_priceOverrideSell = 0\<rparr>"

lemma sample_slot_simps [simp]:
  "vs_itemId (sample_slot i n) = i" "vs_stockCurrent (sample_slot i n) = n"
  "vs_priceOverrideBuy (sample_slot i n) = 0"
  by (simp_all add: sample_slot_def)

definition sample_vendor :: vendor_manager where
  "sample_vendor = [50 \<mapsto> \<lparr>vn_npcId = 50, vn_items = [sample_slot 3 5, sample_slot 2 (-1)]\<rparr>]"

lemma sample_find_slot [simp]:
  "find_slot sample_vendor 50 3 = Some (sample_slot 3 5)"
  "find_slot sample_vendor 50 2 = Some (sample_slot 2 (-1))"
  by (simp_all add: find_slot_def sample_vendor_def)

lemma potion_price [simp]: "buy_unit_price potion (sample_slot 3 n) 0 = 10"
  by code_simp

section \<open>Properties\<close>

text \<open>C4: A purchase is atomic. On success the buyer pays exactly unit price times quantity in gold,
  receives exactly the quantity, a limited stock falls by exactly the quantity, and no other
  amount of any character changes; on any refusal the vendor and every inventory are unchanged.\<close>

theorem buy_item_effect:
  assumes wf: "wf_inventory ivm" and ne: "i \<noteq> g"
    and price: "in_i32 (exact_price im vm npcId i n mk)" and room: "qty ivm c i + n < INT_LIM"
  shows "case buyItem im c npcId i n g mk (vm, ivm) of
      (Inl e, vm', ivm') \<Rightarrow> vm' = vm \<and> ivm' = ivm
    | (Inr tot, vm', ivm') \<Rightarrow>
        tot = exact_price im vm npcId i n mk \<and> 0 < n \<and> wf_inventory ivm' \<and>
        (\<forall>c' i'. qty ivm' c' i' = qty ivm c' i'
           + (if c' = c \<and> i' = i then n else 0) - (if c' = c \<and> i' = g then tot else 0)) \<and>
        (\<forall>slot. find_slot vm npcId i = Some slot \<and> vs_stockCurrent slot \<noteq> -1 \<and> vs_stockCurrent slot < INT_LIM \<longrightarrow>
           find_slot vm' npcId i = Some (slot\<lparr>vs_stockCurrent := vs_stockCurrent slot - n\<rparr>)
           \<and> 0 \<le> vs_stockCurrent slot - n)"
proof (cases "fst (buyItem im c npcId i n g mk (vm, ivm))")
  case (Inl e)
  then show ?thesis using buyItem_refused[OF Inl] by simp
next
  case (Inr tot)
  obtain slot where b: "find_slot vm npcId i = Some slot"
    "vs_stockCurrent slot = -1 \<or> n \<le> vs_stockCurrent slot" "0 < n" "it_id (getItemById im i) \<noteq> 0"
    "tot = wrap32 (buy_unit_price (getItemById im i) slot mk * n)" "0 < tot" "tot \<le> qty ivm c g"
    "buyItem im c npcId i n g mk (vm, ivm) = (Inr tot, decrement_stock npcId i n vm,
      snd (addItemToInventory im c i n (snd (removeItemFromInventory c g tot ivm))))"
    using buyItem_success[OF Inr wf] by metis
  have tp: "tot = exact_price im vm npcId i n mk" using b(1,5) price by (simp add: exact_price_def)
  note ex = bag.exchange[OF wf b(6,7,3,4) ne[symmetric] room]
  let ?s' = "snd (addItemToInventory im c i n (snd (removeItemFromInventory c g tot ivm)))"
  have q: "qty ?s' c' i' = qty ivm c' i'
      + (if c' = c \<and> i' = i then n else 0) - (if c' = c \<and> i' = g then tot else 0)" for c' i'
    using ex(4,5) ex(6)[of c' i'] ne by auto
  have "wrap32 (vs_stockCurrent slot - n) = vs_stockCurrent slot - n"
    if "vs_stockCurrent slot \<noteq> -1" "vs_stockCurrent slot < INT_LIM"
    using that b(2,3) by (simp add: in_i32_iff)
  then show ?thesis
    using b(1-3,8) tp q ex(3) find_slot_decrement[OF b(1), of n] by auto
qed

theorem buy_item_effect_witness:
  "qty (snd (snd (buyItem sample_items 7 50 3 4 1 0 (sample_vendor, sample_inv)))) 7 1 = 60
   \<and> qty (snd (snd (buyItem sample_items 7 50 3 4 1 0 (sample_vendor, sample_inv)))) 7 3 = 7"
proof -
  have p: "exact_price sample_items sample_vendor 50 3 4 0 = 40" by (simp add: exact_price_def)
  have ok: "fst (buyItem sample_items 7 50 3 4 1 0 (sample_vendor, sample_inv)) = Inr 40" by code_simp
  have "in_i32 (exact_price sample_items sample_vendor 50 3 4 0)" "qty sample_inv 7 3 + 4 < INT_LIM" "(3::int) \<noteq> 1"
    by (simp_all add: p in_i32_def)
  from buy_item_effect[OF wf_sample_inv this(3,1,2)] ok p show ?thesis
    by (auto split: prod.splits sum.splits)
qed

text \<open>C5: A batch purchase is all or nothing: on success the buyer's gold falls by the sum of the
  line prices and each item rises by the sum of its lines; when it is refused nobody's
  quantities change.\<close>

theorem buy_batch_effect:
  assumes wf: "wf_inventory ivm" and gold: "g \<notin> fst ` set es"
    and room: "\<forall>i. qty ivm c i + sum_list (map (\<lambda>(j, q). if j = i then q else 0) es) < INT_LIM"
  shows "case buyBatch im c npcId es g mk (vm, ivm) of
      (Inl e, vm', ivm') \<Rightarrow> vm' = vm \<and> ivm' = ivm
    | (Inr (tot, ls), vm', ivm') \<Rightarrow> wf_inventory ivm' \<and> 0 < tot \<and>
        tot = wrap32 (sum_list (map (\<lambda>(i, q, p). p) ls)) \<and> map (\<lambda>(i, q, p). (i, q)) ls = es \<and>
        (\<forall>c' i'. qty ivm' c' i' = qty ivm c' i'
          + (if c' = c then lines_qty i' ls - (if i' = g then tot else 0) else 0))"
proof -
  have lines: "b \<and> wf_inventory s2 \<and> 0 < t \<and> (\<forall>c' i'. qty s2 c' i' = qty ivm c' i'
          + (if c' = c then lines_qty i' ls - (if i' = g then t else 0) else 0))"
    if pe: "price_entries im vm npcId mk es = Inr ls" and rm: "removeItemFromInventory c g t ivm = (True, s1)"
      and al: "add_lines im c g t [] ls s1 = (b, s2)"
    for ls t s1 b s2
  proof -
    have r: "fst (removeItemFromInventory c g t ivm)" and s1: "s1 = snd (removeItemFromInventory c g t ivm)"
      using rm by simp_all
    have tpos: "0 < t" using bag.take_iff[OF wf, of c g t] r by simp
    have ok1: "wf_inventory s1" unfolding s1 by (rule bag.take_ok[OF wf])
    have q1: "qty s1 c' i' = qty ivm c' i' - (if c' = c \<and> i' = g then t else 0)" for c' i'
      unfolding s1 by (rule bag.take_holds[OF wf r])
    have es: "es = map (\<lambda>(j, q, p). (j, q)) ls" using price_entries_lines[OF pe] by simp
    have lq: "lines_qty i ls = sum_list (map (\<lambda>(j, q). if j = i then q else 0) es)" for i
      unfolding es by (rule lines_qty_map)
    have rm1: "\<forall>i. qty s1 c i + lines_qty i ls < INT_LIM"
    proof
      fix i
      show "qty s1 c i + lines_qty i ls < INT_LIM" using spec[OF room, of i] tpos by (cases "i = g") (simp_all add: q1 lq)
    qed
    show ?thesis
      using add_lines_effect[OF ok1 _ rm1, of im g t "[]"] price_entries_lines[OF pe] tpos by (auto simp: q1 al)
  qed
  show ?thesis
  proof (cases "fst (buyBatch im c npcId es g mk (vm, ivm))")
    case (Inl e)
    then show ?thesis
      by (auto simp: buyBatch_def Let_def dest: remove_pair lines
          split: option.splits if_splits prod.splits bool.splits sum.splits)
  next
    case (Inr r)
    obtain tot ls where r: "r = (tot, ls)" by (cases r)
    obtain vm' ivm' where res: "buyBatch im c npcId es g mk (vm, ivm) = (Inr (tot, ls), vm', ivm')"
      using Inr r by (metis prod.collapse)
    then have f: "fst (buyBatch im c npcId es g mk (vm, ivm)) = Inr (tot, ls)" by simp
    note suc = buyBatch_success[OF f]
    obtain s1 where rm: "removeItemFromInventory c g tot ivm = (True, s1)"
      using suc(3) by (metis prod.collapse)
    obtain b s2 where al: "add_lines im c g tot [] ls s1 = (b, s2)" by (cases "add_lines im c g tot [] ls s1")
    have "ivm' = s2" using suc(4) by (simp add: res rm al)
    moreover have "map (\<lambda>(i, q, p). (i, q)) ls = es" using price_entries_lines[OF suc(1)] by simp
    moreover have "tot = wrap32 (sum_list (map (\<lambda>(i, q, p). p) ls))" using suc(2) by (simp add: sum_i32_wrap)
    ultimately show ?thesis using lines[OF suc(1) rm al] by (simp add: res)
  qed
qed

text \<open>The gold hypothesis holds and both potions and swords are delivered.\<close>

theorem buy_batch_effect_witness:
  "fst (buyBatch sample_items 7 50 [(3, 2), (3, 1)] 1 0 (sample_vendor, sample_inv)) = Inr (30, [(3, 2, 20), (3, 1, 10)])
   \<and> qty (snd (snd (buyBatch sample_items 7 50 [(3, 2), (3, 1)] 1 0 (sample_vendor, sample_inv)))) 7 3 = 6"
proof -
  have res: "fst (buyBatch sample_items 7 50 [(3, 2), (3, 1)] 1 0 (sample_vendor, sample_inv))
      = Inr (30, [(3, 2, 20), (3, 1, 10)])" by code_simp
  have room: "\<forall>i. qty sample_inv 7 i + sum_list (map (\<lambda>(j, q). if j = i then q else 0) [(3, 2), (3, 1)]) < INT_LIM"
    by (auto simp: qty_def)
  show ?thesis
    using buy_batch_effect[OF wf_sample_inv _ room, where g = 1 and im = sample_items and npcId = 50
        and mk = 0 and vm = sample_vendor] res
    by (auto split: prod.splits sum.splits)
qed


text \<open>A sale takes exactly the quantity of the sold row's item, pays \<open>sell_price\<close> in gold (nothing
  when the price rounds to zero), leaves every other amount alone, and a refused sale changes
  nothing.\<close>

lemma sell_item_effect:
  assumes wf: "wf_inventory ivm" and gold: "it_id (getItemById im g) \<noteq> 0"
    and room: "\<forall>i. qty ivm c g + sell_price (getItemById im i) n tax < INT_LIM"
    and notgold: "\<forall>r\<in>set (rows ivm c). pi_id r = rid \<longrightarrow> pi_itemId r \<noteq> g"
  shows "case sellItem im c npcId rid n g tax vm ivm of
      (Inl e, ivm') \<Rightarrow> ivm' = ivm
    | (Inr gold, ivm') \<Rightarrow> wf_inventory ivm' \<and>
        (\<exists>r\<in>set (rows ivm c). pi_id r = rid \<and> \<not> pi_isEquipped r \<and> 0 < n \<and> n \<le> pi_quantity r
          \<and> it_isTradable (getItemById im (pi_itemId r)) \<and> gold = sell_price (getItemById im (pi_itemId r)) n tax
          \<and> (\<forall>c' i'. qty ivm' c' i' = qty ivm c' i' - (if c' = c \<and> i' = pi_itemId r then n else 0)
                + (if c' = c \<and> i' = g then max 0 gold else 0)))"
proof (cases "fst (sellItem im c npcId rid n g tax vm ivm)")
  case (Inl e)
  then show ?thesis
    by (auto simp: sellItem_def Let_def dest: remove_pair split: option.splits if_splits prod.splits bool.splits)
next
  case (Inr paid)
  then obtain r s1 where f: "find (\<lambda>r. pi_id r = rid) (rows ivm c) = Some r" and e: "\<not> pi_isEquipped r"
    and n: "0 < n" "n \<le> pi_quantity r" and tr: "it_isTradable (getItemById im (pi_itemId r))"
    and paid: "paid = sell_price (getItemById im (pi_itemId r)) n tax"
    and rm: "removeItemFromInventory c (pi_itemId r) n ivm = (True, s1)"
    and res: "sellItem im c npcId rid n g tax vm ivm = (Inr paid, snd (addItemToInventory im c g paid s1))"
    by (auto simp: sellItem_def Let_def getPlayerInventory_def
        split: option.splits if_splits prod.splits bool.splits)
  note fr = find_rows_wf[OF wf_inventory_rows[OF wf] f]
  have rf: "fst (removeItemFromInventory c (pi_itemId r) n ivm)" and s1: "s1 = snd (removeItemFromInventory c (pi_itemId r) n ivm)"
    using rm by simp_all
  have ok1: "wf_inventory s1" unfolding s1 by (rule bag.take_ok[OF wf])
  have q1: "qty s1 c' i' = qty ivm c' i' - (if c' = c \<and> i' = pi_itemId r then n else 0)" for c' i'
    unfolding s1 by (rule bag.take_holds[OF wf rf])
  have ng: "pi_itemId r \<noteq> g" using notgold fr by blast
  have rm1: "qty s1 c g + paid < INT_LIM" using spec[OF room, of "pi_itemId r"] ng by (simp add: q1 paid)
  let ?s' = "snd (addItemToInventory im c g paid s1)"
  have q': "qty ?s' c' i' = qty s1 c' i' + (if c' = c \<and> i' = g then max 0 paid else 0)" for c' i'
  proof (cases "0 < paid")
    case True
    then have "fst (addItemToInventory im c g paid s1)" using gold by (simp add: add_iff)
    from bag.give_holds[OF ok1 this rm1] True show ?thesis by simp
  next
    case False
    then have "?s' = s1" using add_refused[of im c g paid s1] by (simp add: add_iff)
    then show ?thesis using False by simp
  qed
  have "wf_inventory ?s'" by (rule bag.give_ok[OF ok1 rm1])
  moreover have "\<forall>c' i'. qty ?s' c' i' = qty ivm c' i' - (if c' = c \<and> i' = pi_itemId r then n else 0)
      + (if c' = c \<and> i' = g then max 0 paid else 0)" by (simp add: q' q1)
  ultimately show ?thesis
    unfolding res prod.case sum.case using fr(1,2) e n tr paid by (intro conjI bexI[where x = r]) simp_all
qed

lemma sell_potion_price: "sell_price potion 2 (fl32 (1 / 4)) = 6"
  by code_simp



section \<open>Where the transactions go wrong\<close>

definition seller_inv :: inventory_manager where
  "seller_inv = (empty_inventory True True False)\<lparr>iv_players :=
     [7 \<mapsto> [sample_row 11 7 1 100, sample_row 14 7 3 3]]\<rparr>"

text \<open>
  Both entries of a batch sale are checked against the same snapshot: selling 2 + 2 of a stack
  of 3 passes the check, the second removal fails, the gold is taken back and the two potions
  already removed are not returned.
\<close>

theorem sell_batch_loses_items:
  "fst (sellBatch sample_items 7 50 [(14, 2), (14, 2)] 1 0 sample_vendor seller_inv) = Inl ''item_remove_failed''"
  "getItemQuantity seller_inv 7 3 = 3"
  "getItemQuantity (snd (sellBatch sample_items 7 50 [(14, 2), (14, 2)] 1 0 sample_vendor seller_inv)) 7 3 = 1"
  "getItemQuantity (snd (sellBatch sample_items 7 50 [(14, 2), (14, 2)] 1 0 sample_vendor seller_inv)) 7 1 = 100"
  by code_simp+

text \<open>The stock of a batch purchase is checked per line, so two lines oversell it.\<close>

theorem buy_batch_oversells:
  "fst (buyBatch sample_items 7 50 [(3, 4), (3, 4)] 1 0 (sample_vendor, sample_inv)) = Inr (80, [(3, 4, 40), (3, 4, 40)])"
  by code_simp

text \<open>Selling row 13 (not equipped) takes the first row of the same item instead: row 12, worn.\<close>

definition armed_inv :: inventory_manager where
  "armed_inv = setItemEquipped 7 12 True sample_inv"

theorem sell_takes_equipped_row:
  "map pi_id (getEquippedItems armed_inv 7) = [12]"
  "fst (sellItem sample_items 7 50 13 1 1 0 sample_vendor armed_inv) = Inr 20"
  "map pi_id (rows (snd (sellItem sample_items 7 50 13 1 1 0 sample_vendor armed_inv)) 7) = [11, 13, 14]"
  by code_simp+

text \<open>The total price wraps: 53687092 swords at 80 gold each cost 64 gold.\<close>

theorem buy_price_wraps:
  "fst (buyItem sample_items 7 50 2 53687092 1 0 (sample_vendor, sample_inv)) = Inr 64"
  by code_simp

end
