(* ===== verification/Equipment.thy ===== *)
theory Equipment
  imports Inventory
begin

text \<open>
  \<^verbatim>\<open>services/EquipmentManager.cpp\<close>: which inventory row occupies which equipment slot.
  The manager keeps its own slot table per character and mirrors every change into the
  \<open>isEquipped\<close> flag of the inventory row, so an operation works on both states. The
  level, class and strength of the character (CharacterManager) and the configuration
  values (GameConfigService) are arguments.
\<close>

section \<open>State\<close>

record EquipmentSlotItemStruct =
  es_inventoryItemId :: int
  es_itemId :: int
  es_itemSlug :: string
  es_durabilityCurrent :: int
  es_durabilityMax :: int
  es_isDurabilityWarning :: bool
  es_blockedByTwoHanded :: bool

record CharacterEquipmentStruct =
  ce_characterId :: int
  ce_slots :: "(string \<times> EquipmentSlotItemStruct) list"
  ce_twoHandedActive :: bool

type_synonym equipment_manager = "int \<Rightarrow> CharacterEquipmentStruct option"

definition default_equipment :: CharacterEquipmentStruct where
  "default_equipment = \<lparr>ce_characterId = 0, ce_slots = [], ce_twoHandedActive = False\<rparr>"

definition ALL_SLOTS :: "string list" where
  "ALL_SLOTS = [''head'', ''chest'', ''legs'', ''feet'', ''hands'', ''waist'', ''necklace'',
     ''ring_1'', ''ring_2'', ''main_hand'', ''off_hand'', ''cloak'']"

datatype EquipError = NONE | ITEM_NOT_IN_INVENTORY | ITEM_NOT_EQUIPPABLE | LEVEL_REQUIREMENT_NOT_MET
  | CLASS_RESTRICTION | SLOT_BLOCKED_BY_TWO_HANDED | EQUIP_FAILED

datatype UnequipError = UNEQUIP_NONE | SLOT_EMPTY | UNEQUIP_FAILED

record EquipResult =
  er_error :: EquipError
  er_equipSlotSlug :: string
  er_swappedOutInventoryItemId :: int

record UnequipResult =
  ur_error :: UnequipError
  ur_inventoryItemId :: int
  ur_equipSlotSlug :: string

definition equip_error :: "EquipError \<Rightarrow> EquipResult" where
  "equip_error e = \<lparr>er_error = e, er_equipSlotSlug = [], er_swappedOutInventoryItemId = 0\<rparr>"

section \<open>Operations\<close>

definition slotFromInventoryItem ::
  "PlayerInventoryItemStruct \<Rightarrow> ItemDataStruct \<Rightarrow> float32 \<Rightarrow> EquipmentSlotItemStruct" where
  "slotFromInventoryItem invItem itemData warningThreshold =
     \<lparr>es_inventoryItemId = pi_id invItem, es_itemId = pi_itemId invItem, es_itemSlug = it_slug itemData,
      es_durabilityCurrent = pi_durabilityCurrent invItem, es_durabilityMax = it_durabilityMax itemData,
      es_isDurabilityWarning =
        (it_isDurable itemData \<and> 0 < it_durabilityMax itemData \<and>
         fl32 (fl32 (of_int (pi_durabilityCurrent invItem)) / fl32 (of_int (it_durabilityMax itemData)))
           < warningThreshold),
      es_blockedByTwoHanded = False\<rparr>"

definition build_step ::
  "item_manager \<Rightarrow> float32 \<Rightarrow> PlayerInventoryItemStruct \<Rightarrow> CharacterEquipmentStruct \<Rightarrow> CharacterEquipmentStruct" where
  "build_step im threshold invItem e =
     (let itemData = getItemById im (pi_itemId invItem) in
      if \<not> pi_isEquipped invItem \<or> it_id itemData = 0 \<or> it_equipSlotSlug itemData = [] then e
      else e\<lparr>ce_slots := umap_put (it_equipSlotSlug itemData)
                (slotFromInventoryItem invItem itemData threshold) (ce_slots e),
             ce_twoHandedActive := ce_twoHandedActive e
                \<or> it_equipSlotSlug itemData = ''main_hand'' \<and> it_isTwoHanded itemData\<rparr>)"

definition buildFromInventory ::
  "item_manager \<Rightarrow> float32 \<Rightarrow> int \<Rightarrow> inventory_manager \<Rightarrow> equipment_manager \<Rightarrow> equipment_manager" where
  "buildFromInventory im threshold c ivm em =
     em(c \<mapsto> fold (build_step im threshold) (getPlayerInventory ivm c)
             \<lparr>ce_characterId = c, ce_slots = [], ce_twoHandedActive = False\<rparr>)"

text \<open>\<^verbatim>\<open>it != end() && it->second.inventoryItemId != 0\<close>\<close>

definition occupied :: "CharacterEquipmentStruct \<Rightarrow> string \<Rightarrow> EquipmentSlotItemStruct option" where
  "occupied e slug =
     (case map_of (ce_slots e) slug of None \<Rightarrow> None
      | Some s \<Rightarrow> if es_inventoryItemId s \<noteq> 0 then Some s else None)"

definition swap_out ::
  "int \<Rightarrow> string \<Rightarrow> CharacterEquipmentStruct \<times> inventory_manager \<Rightarrow> CharacterEquipmentStruct \<times> inventory_manager" where
  "swap_out c slug st =
     (case st of (e, ivm) \<Rightarrow>
       case occupied e slug of None \<Rightarrow> (e, ivm)
       | Some s \<Rightarrow> (e\<lparr>ce_slots := omap_erase slug (ce_slots e)\<rparr>,
                    setItemEquipped c (es_inventoryItemId s) False ivm))"

definition equip_checks ::
  "item_manager \<Rightarrow> int \<Rightarrow> int \<Rightarrow> int \<Rightarrow> int \<Rightarrow> inventory_manager \<Rightarrow> equipment_manager
   \<Rightarrow> EquipError + PlayerInventoryItemStruct" where
  "equip_checks im charLevel charClassId c inventoryItemId ivm em =
     (case find (\<lambda>r. pi_id r = inventoryItemId) (getPlayerInventory ivm c) of
        None \<Rightarrow> Inl ITEM_NOT_IN_INVENTORY
      | Some invItem \<Rightarrow>
        if pi_characterId invItem \<noteq> c then Inl ITEM_NOT_IN_INVENTORY
        else
          let itemData = getItemById im (pi_itemId invItem) in
          if \<not> it_isEquippable itemData \<or> it_equipSlotSlug itemData = [] then Inl ITEM_NOT_EQUIPPABLE
          else if 0 < it_levelRequirement itemData \<and> charLevel < it_levelRequirement itemData
          then Inl LEVEL_REQUIREMENT_NOT_MET
          else if it_allowedClassIds itemData \<noteq> [] \<and> charClassId \<notin> set (it_allowedClassIds itemData)
          then Inl CLASS_RESTRICTION
          else if (case em c of None \<Rightarrow> False
                   | Some e \<Rightarrow> it_equipSlotSlug itemData = ''off_hand'' \<and> ce_twoHandedActive e)
          then Inl SLOT_BLOCKED_BY_TWO_HANDED
          else Inr invItem)"

definition equipItem ::
  "item_manager \<Rightarrow> float32 \<Rightarrow> int \<Rightarrow> int \<Rightarrow> int \<Rightarrow> int \<Rightarrow> equipment_manager \<times> inventory_manager
   \<Rightarrow> EquipResult \<times> equipment_manager \<times> inventory_manager" where
  "equipItem im threshold charLevel charClassId c inventoryItemId st =
     (case st of (em, ivm) \<Rightarrow>
       case equip_checks im charLevel charClassId c inventoryItemId ivm em of
         Inl err \<Rightarrow> (equip_error err, em, ivm)
       | Inr invItem \<Rightarrow>
         let itemData = getItemById im (pi_itemId invItem);
             targetSlug = it_equipSlotSlug itemData;
             e0 = (case em c of None \<Rightarrow> default_equipment | Some e \<Rightarrow> e)\<lparr>ce_characterId := c\<rparr>;
             (e1, ivm1) =
               (if targetSlug = ''main_hand'' \<and> it_isTwoHanded itemData
                then swap_out c ''off_hand'' (e0, ivm) else (e0, ivm));
             swapped = (case occupied e1 targetSlug of None \<Rightarrow> 0 | Some s \<Rightarrow> es_inventoryItemId s);
             (e2, ivm2) = swap_out c targetSlug (e1, ivm1);
             e3 = e2\<lparr>ce_slots := umap_put targetSlug (slotFromInventoryItem invItem itemData threshold) (ce_slots e2)\<rparr>;
             ivm3 = setItemEquipped c inventoryItemId True ivm2;
             e4 = (if targetSlug = ''main_hand'' then e3\<lparr>ce_twoHandedActive := it_isTwoHanded itemData\<rparr> else e3)
         in (\<lparr>er_error = NONE, er_equipSlotSlug = targetSlug, er_swappedOutInventoryItemId = swapped\<rparr>,
             em(c \<mapsto> e4), ivm3))"

definition unequipItem ::
  "int \<Rightarrow> string \<Rightarrow> equipment_manager \<times> inventory_manager
   \<Rightarrow> UnequipResult \<times> equipment_manager \<times> inventory_manager" where
  "unequipItem c slotSlug st =
     (case st of (em, ivm) \<Rightarrow>
       let slot_empty = (\<lparr>ur_error = SLOT_EMPTY, ur_inventoryItemId = 0, ur_equipSlotSlug = []\<rparr>, em, ivm) in
       case em c of None \<Rightarrow> slot_empty
       | Some e \<Rightarrow>
         (case occupied e slotSlug of None \<Rightarrow> slot_empty
          | Some s \<Rightarrow>
            let ivm1 = setItemEquipped c (es_inventoryItemId s) False ivm;
                e1 = e\<lparr>ce_slots := omap_erase slotSlug (ce_slots e)\<rparr>;
                e2 = (if slotSlug = ''main_hand'' then e1\<lparr>ce_twoHandedActive := False\<rparr> else e1)
            in (\<lparr>ur_error = UNEQUIP_NONE, ur_inventoryItemId = es_inventoryItemId s,
                 ur_equipSlotSlug = slotSlug\<rparr>, em(c \<mapsto> e2), ivm1)))"

text \<open>One entry of the client's view per slot: \<open>null\<close>, the two-handed sentinel, or the item.\<close>

datatype slot_view = EmptySlot | BlockedByTwoHanded | Filled EquipmentSlotItemStruct

definition buildEquipmentStateJson :: "equipment_manager \<Rightarrow> int \<Rightarrow> (string \<times> slot_view) list" where
  "buildEquipmentStateJson em c =
     map (\<lambda>slug. (slug,
        case em c of None \<Rightarrow> EmptySlot
        | Some e \<Rightarrow>
          if slug = ''off_hand'' \<and> ce_twoHandedActive e \<and> occupied e slug = None then BlockedByTwoHanded
          else (case occupied e slug of None \<Rightarrow> EmptySlot | Some s \<Rightarrow> Filled s))) ALL_SLOTS"

definition getEquipmentState :: "equipment_manager \<Rightarrow> int \<Rightarrow> CharacterEquipmentStruct" where
  "getEquipmentState em c = (case em c of Some e \<Rightarrow> e | None \<Rightarrow> default_equipment)"

definition clearCharacter :: "int \<Rightarrow> equipment_manager \<Rightarrow> equipment_manager" where
  "clearCharacter c em = em(c := None)"

definition findSlotForItemId :: "equipment_manager \<Rightarrow> int \<Rightarrow> int \<Rightarrow> (string \<times> int) option" where
  "findSlotForItemId em c itemId =
     (case em c of None \<Rightarrow> None
      | Some e \<Rightarrow> map_option (\<lambda>(slug, s). (slug, es_inventoryItemId s))
          (find (\<lambda>(slug, s). es_itemId s = itemId \<and> es_inventoryItemId s \<noteq> 0) (ce_slots e)))"

definition getCarryWeightLimit :: "int \<Rightarrow> int \<Rightarrow> (string \<times> int) list \<Rightarrow> float32" where
  "getCarryWeightLimit base perStrength attrs =
     (let strength = (case find (\<lambda>(slug, v). slug = ''strength'') attrs of None \<Rightarrow> 0 | Some (_, v) \<Rightarrow> v)
      in fl32 (fl32 (of_int base) + fl32 (fl32 (of_int perStrength) * fl32 (of_int strength))))"

section \<open>Slots and flags agree\<close>

text \<open>
  The relation the operations maintain between the slot table of a character and his
  inventory rows: database ids are unique and non-zero, every slot holds an owned row whose
  item belongs in that slot, a row is flagged equipped exactly when it sits in a slot, and
  the two-handed flag is that of the main-hand item and excludes an off-hand item.
\<close>

definition slot_row :: "item_manager \<Rightarrow> PlayerInventoryItemStruct list \<Rightarrow> string \<Rightarrow> EquipmentSlotItemStruct \<Rightarrow> bool" where
  "slot_row im v slug s \<longleftrightarrow> (\<exists>r\<in>set v. pi_id r = es_inventoryItemId s \<and> pi_itemId r = es_itemId s
     \<and> it_equipSlotSlug (getItemById im (pi_itemId r)) = slug)"

definition slots_match :: "item_manager \<Rightarrow> PlayerInventoryItemStruct list \<Rightarrow> CharacterEquipmentStruct \<Rightarrow> bool" where
  "slots_match im v e \<longleftrightarrow>
     distinct (map pi_id v) \<and> (\<forall>r\<in>set v. pi_id r \<noteq> 0) \<and>
     (\<forall>slug s. map_of (ce_slots e) slug = Some s \<longrightarrow> slot_row im v slug s) \<and>
     (\<forall>r\<in>set v. pi_isEquipped r \<longleftrightarrow>
        (\<exists>slug s. map_of (ce_slots e) slug = Some s \<and> es_inventoryItemId s = pi_id r))"

definition hands_ok :: "item_manager \<Rightarrow> CharacterEquipmentStruct \<Rightarrow> bool" where
  "hands_ok im e \<longleftrightarrow>
     (ce_twoHandedActive e \<longleftrightarrow>
        (case map_of (ce_slots e) ''main_hand'' of None \<Rightarrow> False
         | Some s \<Rightarrow> it_isTwoHanded (getItemById im (es_itemId s)))) \<and>
     (ce_twoHandedActive e \<longrightarrow> map_of (ce_slots e) ''off_hand'' = None)"

definition equip_sync :: "item_manager \<Rightarrow> PlayerInventoryItemStruct list \<Rightarrow> CharacterEquipmentStruct \<Rightarrow> bool" where
  "equip_sync im v e \<longleftrightarrow> slots_match im v e \<and> hands_ok im e"

text \<open>The rows after the flag of row \<open>rid\<close> has been set to \<open>b\<close>.\<close>

definition flag :: "int \<Rightarrow> bool \<Rightarrow> PlayerInventoryItemStruct list \<Rightarrow> PlayerInventoryItemStruct list" where
  "flag rid b v = map (\<lambda>r. if pi_id r = rid then r\<lparr>pi_isEquipped := b\<rparr> else r) v"

lemma flag_keeps [simp]: "map pi_id (flag rid b v) = map pi_id v"
  by (simp add: flag_def)

lemma upd_first_flag:
  "distinct (map pi_id v) \<Longrightarrow> upd_first (\<lambda>r. pi_id r = rid) (\<lambda>r. r\<lparr>pi_isEquipped := b\<rparr>) v = flag rid b v"
proof (induction v)
  case (Cons r v)
  have "flag rid b v = v" if "rid \<notin> pi_id ` set v"
    using that unfolding flag_def by (intro map_idI) auto
  with Cons show ?case by (auto simp: flag_def)
qed (simp add: flag_def)

lemma rows_setItemEquipped:
  assumes "distinct (map pi_id (rows ivm c))"
  shows "rows (setItemEquipped c rid b ivm) c' = (if c' = c then flag rid b (rows ivm c) else rows ivm c')"
proof (cases "iv_players ivm c")
  case None
  then have "rows ivm c = []" by (simp add: rows_def)
  with None show ?thesis by (simp add: setItemEquipped_def upd_row_def flag_def)
next
  case (Some v)
  then have "rows ivm c = v" by (simp add: rows_def)
  with assms Some show ?thesis
    by (simp add: setItemEquipped_def upd_row_def inv_simps upd_first_flag)
qed

lemma slots_match_distinct: "slots_match im v e \<Longrightarrow> distinct (map pi_id v)"
  by (simp add: slots_match_def)

lemma slots_match_slot:
  assumes "slots_match im v e" "map_of (ce_slots e) slug = Some s"
  shows "es_inventoryItemId s \<noteq> 0" "slot_row im v slug s"
  using assms by (auto simp: slots_match_def slot_row_def) metis

lemma occupied_slot: "slots_match im v e \<Longrightarrow> occupied e slug = map_of (ce_slots e) slug"
  by (auto simp: occupied_def slots_match_slot(1) split: option.split)

text \<open>A row occupies at most one slot: its item names the slot.\<close>

lemma row_unique:
  "distinct (map pi_id v) \<Longrightarrow> r \<in> set v \<Longrightarrow> r' \<in> set v \<Longrightarrow> pi_id r = pi_id r' \<Longrightarrow> r = r'"
  by (auto simp: distinct_map dest: inj_onD)

lemma slot_of_row:
  assumes "slots_match im v e" "map_of (ce_slots e) slug = Some s" "r \<in> set v"
    "es_inventoryItemId s = pi_id r"
  shows "it_equipSlotSlug (getItemById im (pi_itemId r)) = slug"
proof -
  obtain r' where r': "r' \<in> set v" "pi_id r' = es_inventoryItemId s"
    "it_equipSlotSlug (getItemById im (pi_itemId r')) = slug"
    using slots_match_slot(2)[OF assms(1,2)] by (auto simp: slot_row_def)
  have "r' = r" using row_unique[OF slots_match_distinct[OF assms(1)] r'(1) assms(3)] r'(2) assms(4) by simp
  with r'(3) show ?thesis by simp
qed

lemma slot_row_flag [simp]: "slot_row im (flag rid b v) slug s = slot_row im v slug s"
  by (auto simp: slot_row_def flag_def bex_Un)

lemma slots_match_flagI:
  assumes m: "slots_match im v e"
    and rows: "\<And>slug s. map_of sl slug = Some s \<Longrightarrow> slot_row im v slug s"
    and this_row: "\<And>r. r \<in> set v \<Longrightarrow> pi_id r = rid \<Longrightarrow>
       b = (\<exists>slug s. map_of sl slug = Some s \<and> es_inventoryItemId s = pi_id r)"
    and others: "\<And>r. r \<in> set v \<Longrightarrow> pi_id r \<noteq> rid \<Longrightarrow>
       (\<exists>slug s. map_of sl slug = Some s \<and> es_inventoryItemId s = pi_id r) =
       (\<exists>slug s. map_of (ce_slots e) slug = Some s \<and> es_inventoryItemId s = pi_id r)"
  shows "slots_match im (flag rid b v) (e\<lparr>ce_slots := sl\<rparr>)"
proof -
  have "pi_isEquipped r' = (\<exists>slug s. map_of sl slug = Some s \<and> es_inventoryItemId s = pi_id r')"
    if r': "r' \<in> set (flag rid b v)" for r'
  proof -
    obtain r where r: "r \<in> set v" "r' = (if pi_id r = rid then r\<lparr>pi_isEquipped := b\<rparr> else r)"
      using r' by (auto simp: flag_def)
    show ?thesis
    proof (cases "pi_id r = rid")
      case True
      with r this_row[OF r(1)] show ?thesis by simp
    next
      case False
      with r m have "pi_isEquipped r' = (\<exists>slug s. map_of (ce_slots e) slug = Some s \<and> es_inventoryItemId s = pi_id r)"
        by (simp add: slots_match_def)
      with False r others[OF r(1)] show ?thesis by simp
    qed
  qed
  moreover have "pi_id r' \<noteq> 0" if "r' \<in> set (flag rid b v)" for r'
    using that m by (auto simp: flag_def slots_match_def)
  ultimately show ?thesis
    using m rows by (simp add: slots_match_def)
qed

lemma slots_match_free:
  assumes m: "slots_match im v e" and s: "map_of (ce_slots e) slug = Some s"
  shows "slots_match im (flag (es_inventoryItemId s) False v) (e\<lparr>ce_slots := omap_erase slug (ce_slots e)\<rparr>)"
proof (rule slots_match_flagI[OF m])
  show "slot_row im v slug' s'" if "map_of (omap_erase slug (ce_slots e)) slug' = Some s'" for slug' s'
    using that slots_match_slot(2)[OF m] by (simp split: if_splits)
next
  fix r assume r: "r \<in> set v" "pi_id r = es_inventoryItemId s"
  have "slug' = slug" if "map_of (ce_slots e) slug' = Some s'" "es_inventoryItemId s' = pi_id r" for slug' s'
    using slot_of_row[OF m that(1) r(1) that(2)] slot_of_row[OF m s r(1)] r(2) by simp
  then show "False = (\<exists>slug' s'. map_of (omap_erase slug (ce_slots e)) slug' = Some s' \<and> es_inventoryItemId s' = pi_id r)"
    by (auto split: if_splits)
next
  fix r assume "r \<in> set v" "pi_id r \<noteq> es_inventoryItemId s"
  with s show "(\<exists>slug' s'. map_of (omap_erase slug (ce_slots e)) slug' = Some s' \<and> es_inventoryItemId s' = pi_id r) =
      (\<exists>slug' s'. map_of (ce_slots e) slug' = Some s' \<and> es_inventoryItemId s' = pi_id r)"
    by (auto split: if_splits) (metis option.inject)
qed

lemma slots_match_place:
  assumes m: "slots_match im v e" and r: "r \<in> set v"
    and slug: "it_equipSlotSlug (getItemById im (pi_itemId r)) = slug" and free: "map_of (ce_slots e) slug = None"
    and s: "es_inventoryItemId s = pi_id r" "es_itemId s = pi_itemId r"
  shows "slots_match im (flag (pi_id r) True v) (e\<lparr>ce_slots := umap_put slug s (ce_slots e)\<rparr>)"
proof (rule slots_match_flagI[OF m])
  show "slot_row im v slug' s'" if "map_of (umap_put slug s (ce_slots e)) slug' = Some s'" for slug' s'
    using that slots_match_slot(2)[OF m] r slug s by (auto simp: slot_row_def split: if_splits)
next
  fix r' assume "r' \<in> set v" "pi_id r' = pi_id r"
  with s show "True = (\<exists>slug' s'. map_of (umap_put slug s (ce_slots e)) slug' = Some s' \<and> es_inventoryItemId s' = pi_id r')"
    by auto
next
  fix r' assume r': "r' \<in> set v" "pi_id r' \<noteq> pi_id r"
  with s free show "(\<exists>slug' s'. map_of (umap_put slug s (ce_slots e)) slug' = Some s' \<and> es_inventoryItemId s' = pi_id r') =
      (\<exists>slug' s'. map_of (ce_slots e) slug' = Some s' \<and> es_inventoryItemId s' = pi_id r')"
    by (auto split: if_splits) (metis option.distinct(1))+
qed

section \<open>Each operation keeps them in agreement\<close>

text \<open>Everything except the equipped flags: a change of equipment moves no item.\<close>

definition same_goods :: "inventory_manager \<Rightarrow> inventory_manager \<Rightarrow> bool" where
  "same_goods s t \<longleftrightarrow> (\<forall>c. map (pi_isEquipped_update (\<lambda>_. False)) (rows t c)
      = map (pi_isEquipped_update (\<lambda>_. False)) (rows s c))"

lemma same_goods_refl [simp]: "same_goods s s"
  by (simp add: same_goods_def)

lemma same_goods_trans: "same_goods s t \<Longrightarrow> same_goods t u \<Longrightarrow> same_goods s u"
  by (simp add: same_goods_def)

lemma same_goods_setItemEquipped:
  "distinct (map pi_id (rows ivm c)) \<Longrightarrow> same_goods ivm (setItemEquipped c rid b ivm)"
  by (simp add: same_goods_def rows_setItemEquipped flag_def)

lemma swap_out_slots:
  fixes slug :: string
  assumes "slots_match im (rows ivm c) e"
  defines "st \<equiv> swap_out c slug (e, ivm)"
  shows "slots_match im (rows (snd st) c) (fst st)"
    and "ce_slots (fst st) = (if map_of (ce_slots e) slug = None then ce_slots e else omap_erase slug (ce_slots e))"
    and "ce_twoHandedActive (fst st) = ce_twoHandedActive e"
    and "same_goods ivm (snd st)"
    and "c' \<noteq> c \<Longrightarrow> rows (snd st) c' = rows ivm c'"
proof -
  have d: "distinct (map pi_id (rows ivm c))" by (rule slots_match_distinct[OF assms(1)])
  have occ: "occupied e slug = map_of (ce_slots e) slug" by (rule occupied_slot[OF assms(1)])
  show "slots_match im (rows (snd st) c) (fst st)"
    using assms(1) slots_match_free[OF assms(1)]
    by (auto simp: st_def swap_out_def occ rows_setItemEquipped[OF d] split: option.split)
  show "ce_slots (fst st) = (if map_of (ce_slots e) slug = None then ce_slots e else omap_erase slug (ce_slots e))"
    "ce_twoHandedActive (fst st) = ce_twoHandedActive e" "same_goods ivm (snd st)"
    "c' \<noteq> c \<Longrightarrow> rows (snd st) c' = rows ivm c'"
    by (auto simp: st_def swap_out_def occ rows_setItemEquipped[OF d] same_goods_setItemEquipped[OF d]
        split: option.split)
qed

lemma swap_out_map:
  assumes "slots_match im (rows ivm c) e"
  shows "map_of (ce_slots (fst (swap_out c slug (e, ivm)))) = (map_of (ce_slots e))(slug := None)"
  using swap_out_slots(2)[OF assms] by (auto simp: fun_eq_iff)

text \<open>Placing a row into a slot that has just been freed (\<^verbatim>\<open>equip.slots[targetSlug] = slot\<close>
  and the flag of the row).\<close>

lemma place_slots:
  assumes "slots_match im (rows ivm c) e" "same_goods ivm0 ivm" "r \<in> set (rows ivm0 c)"
    "it_equipSlotSlug (getItemById im (pi_itemId r)) = slug" "map_of (ce_slots e) slug = None"
  shows "slots_match im (rows (setItemEquipped c (pi_id r) True ivm) c)
      (e\<lparr>ce_slots := umap_put slug (slotFromInventoryItem r d th) (ce_slots e)\<rparr>)"
proof -
  have "pi_isEquipped_update (\<lambda>_. False) r \<in> pi_isEquipped_update (\<lambda>_. False) ` set (rows ivm c)"
    using assms(2,3) unfolding same_goods_def by (metis image_eqI list.set_map)
  then obtain r' where r': "r' \<in> set (rows ivm c)" "pi_isEquipped_update (\<lambda>_. False) r' = pi_isEquipped_update (\<lambda>_. False) r"
    by auto
  have "pi_id r' = pi_id r" "pi_itemId r' = pi_itemId r"
    using arg_cong[OF r'(2), of pi_id] arg_cong[OF r'(2), of pi_itemId] by simp_all
  with slots_match_place[OF assms(1) r'(1), of slug "slotFromInventoryItem r d th"] assms(4,5) show ?thesis
    by (simp add: rows_setItemEquipped[OF slots_match_distinct[OF assms(1)]] slotFromInventoryItem_def)
qed

lemma slots_match_twoHanded [simp]: "slots_match im v (e\<lparr>ce_twoHandedActive := b\<rparr>) = slots_match im v e"
  and slots_match_character [simp]: "slots_match im v (e\<lparr>ce_characterId := k\<rparr>) = slots_match im v e"
  by (simp_all add: slots_match_def)

lemma equip_checks_Inr:
  assumes "equip_checks im lv cl c rid ivm em = Inr r"
  shows "r \<in> set (rows ivm c)" "pi_id r = rid" "pi_characterId r = c"
    "it_isEquippable (getItemById im (pi_itemId r))" "it_equipSlotSlug (getItemById im (pi_itemId r)) \<noteq> []"
    "it_equipSlotSlug (getItemById im (pi_itemId r)) = ''off_hand'' \<Longrightarrow> \<not> ce_twoHandedActive (getEquipmentState em c)"
    "it_levelRequirement (getItemById im (pi_itemId r)) \<le> max 0 lv"
    "it_allowedClassIds (getItemById im (pi_itemId r)) \<noteq> [] \<Longrightarrow> cl \<in> set (it_allowedClassIds (getItemById im (pi_itemId r)))"
  using assms
  by (auto simp: equip_checks_def Let_def getPlayerInventory_def getEquipmentState_def default_equipment_def
      split: option.splits if_splits dest!: find_SomeD)

text \<open>The slot table after a successful \<open>equipItem\<close>.\<close>

definition slots_after ::
  "(string \<rightharpoonup> EquipmentSlotItemStruct) \<Rightarrow> bool \<Rightarrow> string \<Rightarrow> EquipmentSlotItemStruct
   \<Rightarrow> (string \<rightharpoonup> EquipmentSlotItemStruct)" where
  "slots_after m twoHanded slug s =
     (if slug = ''main_hand'' \<and> twoHanded then m(''off_hand'' := None) else m)(slug \<mapsto> s)"

lemma equip_success:
  assumes sync: "equip_sync im (rows ivm c) (getEquipmentState em c)"
    and chk: "equip_checks im lv cl c rid ivm em = Inr r"
    and item: "it = getItemById im (pi_itemId r)"
    and out: "equipItem im th lv cl c rid (em, ivm) = (res, em', ivm')"
  shows "er_error res = NONE \<and> er_equipSlotSlug res = it_equipSlotSlug it"
    and "map_of (ce_slots (getEquipmentState em' c)) =
      slots_after (map_of (ce_slots (getEquipmentState em c))) (it_isTwoHanded it) (it_equipSlotSlug it)
        (slotFromInventoryItem r it th)"
    and "slots_match im (rows ivm' c) (getEquipmentState em' c)"
    and "ce_twoHandedActive (getEquipmentState em' c) =
      (if it_equipSlotSlug it = ''main_hand'' then it_isTwoHanded it
       else ce_twoHandedActive (getEquipmentState em c))"
    and "same_goods ivm ivm'"
    and "c' \<noteq> c \<Longrightarrow> rows ivm' c' = rows ivm c' \<and> em' c' = em c'"
proof -
  define slug where "slug = it_equipSlotSlug it"
  define two where "two \<longleftrightarrow> slug = ''main_hand'' \<and> it_isTwoHanded it"
  define e0 where "e0 = (getEquipmentState em c)\<lparr>ce_characterId := c\<rparr>"
  define st1 where "st1 = (if two then swap_out c ''off_hand'' (e0, ivm) else (e0, ivm))"
  define st2 where "st2 = swap_out c slug st1"
  define e3 where "e3 = (fst st2)\<lparr>ce_slots := umap_put slug (slotFromInventoryItem r it th) (ce_slots (fst st2))\<rparr>"
  have m0: "slots_match im (rows ivm c) e0"
    using sync by (simp add: equip_sync_def e0_def)
  have m1: "slots_match im (rows (snd st1) c) (fst st1)"
    and s1: "map_of (ce_slots (fst st1)) = (if two then (map_of (ce_slots e0))(''off_hand'' := None) else map_of (ce_slots e0))"
    and t1: "ce_twoHandedActive (fst st1) = ce_twoHandedActive e0" and g1: "same_goods ivm (snd st1)"
    and o1: "c' \<noteq> c \<Longrightarrow> rows (snd st1) c' = rows ivm c'" for c'
    using swap_out_slots[OF m0] swap_out_map[OF m0] m0 by (simp_all add: st1_def)
  have st1: "(fst st1, snd st1) = st1" by simp
  have m2: "slots_match im (rows (snd st2) c) (fst st2)"
    and s2: "map_of (ce_slots (fst st2)) = (map_of (ce_slots (fst st1)))(slug := None)"
    and t2: "ce_twoHandedActive (fst st2) = ce_twoHandedActive (fst st1)" and g2: "same_goods (snd st1) (snd st2)"
    and o2: "c' \<noteq> c \<Longrightarrow> rows (snd st2) c' = rows (snd st1) c'" for c'
    using swap_out_slots[OF m1, where slug = slug] swap_out_map[OF m1, where slug = slug] unfolding st1 st2_def[symmetric] by simp_all
  have id: "pi_id r = rid" and r0: "r \<in> set (rows ivm c)" using equip_checks_Inr[OF chk] by simp_all
  have e0': "(case em c of None \<Rightarrow> default_equipment | Some e \<Rightarrow> e)\<lparr>ce_characterId := c\<rparr> = e0"
    by (simp add: e0_def getEquipmentState_def)
  have eq: "equipItem im th lv cl c rid (em, ivm) =
     (\<lparr>er_error = NONE, er_equipSlotSlug = slug,
        er_swappedOutInventoryItemId = (case occupied (fst st1) slug of None \<Rightarrow> 0 | Some s \<Rightarrow> es_inventoryItemId s)\<rparr>,
      em(c \<mapsto> (if slug = ''main_hand'' then e3\<lparr>ce_twoHandedActive := it_isTwoHanded it\<rparr> else e3)),
      setItemEquipped c rid True (snd st2))"
    by (simp only: equipItem_def prod.case fst_conv snd_conv chk sum.case Let_def item[symmetric] slug_def[symmetric] e0'
        two_def[symmetric] st1_def[symmetric] split_beta prod.collapse st2_def[symmetric] e3_def[symmetric])
  have res: "er_error res = NONE \<and> er_equipSlotSlug res = slug"
    and em': "em' = em(c \<mapsto> (if slug = ''main_hand'' then e3\<lparr>ce_twoHandedActive := it_isTwoHanded it\<rparr> else e3))"
    and ivm': "ivm' = setItemEquipped c rid True (snd st2)"
    using out unfolding eq by auto
  show "er_error res = NONE \<and> er_equipSlotSlug res = it_equipSlotSlug it"
    by (simp add: res slug_def)
  have free: "map_of (ce_slots (fst st2)) slug = None" by (simp add: s2)
  have g: "same_goods ivm (snd st2)" by (rule same_goods_trans[OF g1 g2])
  have state: "getEquipmentState em' c = (if slug = ''main_hand'' then e3\<lparr>ce_twoHandedActive := it_isTwoHanded it\<rparr> else e3)"
    by (simp add: getEquipmentState_def em')
  have "slots_match im (rows ivm' c) e3"
    using place_slots[OF m2 g r0 _ free, of it th] by (simp add: ivm' e3_def id item slug_def)
  then show "slots_match im (rows ivm' c) (getEquipmentState em' c)" by (simp add: state)
  show "map_of (ce_slots (getEquipmentState em' c)) =
      slots_after (map_of (ce_slots (getEquipmentState em c))) (it_isTwoHanded it) (it_equipSlotSlug it)
        (slotFromInventoryItem r it th)"
    by (simp add: state e3_def s2 s1 slots_after_def e0_def two_def slug_def)
  show "ce_twoHandedActive (getEquipmentState em' c) =
      (if it_equipSlotSlug it = ''main_hand'' then it_isTwoHanded it
       else ce_twoHandedActive (getEquipmentState em c))"
    by (simp add: state e3_def slug_def t2 t1 e0_def)
  show "same_goods ivm ivm'"
    unfolding ivm' by (rule same_goods_trans[OF g same_goods_setItemEquipped[OF slots_match_distinct[OF m2]]])
  show "rows ivm' c' = rows ivm c' \<and> em' c' = em c'" if "c' \<noteq> c"
    using that o1 o2 by (simp add: ivm' em' rows_setItemEquipped[OF slots_match_distinct[OF m2]])
qed

lemma equipItem_refused:
  "equip_checks im lv cl c rid ivm em = Inl err
   \<Longrightarrow> equipItem im th lv cl c rid (em, ivm) = (equip_error err, em, ivm)"
  by (simp add: equipItem_def)

lemma slotFromInventoryItem_itemId [simp]: "es_itemId (slotFromInventoryItem r it th) = pi_itemId r"
  and slotFromInventoryItem_rowId [simp]: "es_inventoryItemId (slotFromInventoryItem r it th) = pi_id r"
  by (simp_all add: slotFromInventoryItem_def)

lemma equip_keeps_sync:
  assumes sync: "equip_sync im (rows ivm c) (getEquipmentState em c)"
    and out: "equipItem im th lv cl c rid (em, ivm) = (res, em', ivm')"
  shows "equip_sync im (rows ivm' c) (getEquipmentState em' c)"
proof (cases "equip_checks im lv cl c rid ivm em")
  case (Inl err)
  with out sync show ?thesis by (simp add: equipItem_refused)
next
  case (Inr r)
  note succ = equip_success[OF sync Inr refl out]
  have "hands_ok im (getEquipmentState em c)" using sync by (simp add: equip_sync_def)
  then have "hands_ok im (getEquipmentState em' c)"
    using equip_checks_Inr(6)[OF Inr] unfolding hands_ok_def succ(2,4)
    by (simp add: slots_after_def split: option.splits if_splits)
  with succ(3) show ?thesis by (simp add: equip_sync_def)
qed

lemma unequip_success:
  assumes sync: "equip_sync im (rows ivm c) (getEquipmentState em c)"
    and s: "map_of (ce_slots (getEquipmentState em c)) slug = Some s"
    and out: "unequipItem c slug (em, ivm) = (res, em', ivm')"
  shows "ur_error res = UNEQUIP_NONE \<and> ur_inventoryItemId res = es_inventoryItemId s"
    and "map_of (ce_slots (getEquipmentState em' c)) = (map_of (ce_slots (getEquipmentState em c)))(slug := None)"
    and "equip_sync im (rows ivm' c) (getEquipmentState em' c)"
    and "same_goods ivm ivm'"
    and "c' \<noteq> c \<Longrightarrow> rows ivm' c' = rows ivm c' \<and> em' c' = em c'"
proof -
  obtain e where e: "em c = Some e" "getEquipmentState em c = e"
    using s by (cases "em c") (auto simp: getEquipmentState_def default_equipment_def)
  have m: "slots_match im (rows ivm c) e" and h: "hands_ok im e" using sync by (simp_all add: equip_sync_def e)
  have occ: "occupied e slug = Some s" using s by (simp add: occupied_slot[OF m] e)
  note d = slots_match_distinct[OF m]
  have res: "res = \<lparr>ur_error = UNEQUIP_NONE, ur_inventoryItemId = es_inventoryItemId s, ur_equipSlotSlug = slug\<rparr>"
    and ivm': "ivm' = setItemEquipped c (es_inventoryItemId s) False ivm"
    and em': "em' = em(c \<mapsto> (if slug = ''main_hand''
        then e\<lparr>ce_slots := omap_erase slug (ce_slots e), ce_twoHandedActive := False\<rparr>
        else e\<lparr>ce_slots := omap_erase slug (ce_slots e)\<rparr>))"
    using out by (simp_all add: unequipItem_def e occ Let_def)
  show "ur_error res = UNEQUIP_NONE \<and> ur_inventoryItemId res = es_inventoryItemId s" by (simp add: res)
  show "map_of (ce_slots (getEquipmentState em' c)) = (map_of (ce_slots (getEquipmentState em c)))(slug := None)"
    by (simp add: em' e getEquipmentState_def)
  have "s' = s" if "slug = ''main_hand''" "map_of (ce_slots e) ''main_hand'' = Some s'" for s'
    using that s e by simp
  then have "hands_ok im (getEquipmentState em' c)"
    using h by (auto simp: hands_ok_def em' getEquipmentState_def split: option.splits)
  moreover have "slots_match im (rows ivm' c) (getEquipmentState em' c)"
    using slots_match_free[OF m, of slug s] s by (auto simp: em' ivm' e getEquipmentState_def rows_setItemEquipped[OF d])
  ultimately show "equip_sync im (rows ivm' c) (getEquipmentState em' c)" by (simp add: equip_sync_def)
  show "same_goods ivm ivm'" unfolding ivm' by (rule same_goods_setItemEquipped[OF d])
  show "c' \<noteq> c \<Longrightarrow> rows ivm' c' = rows ivm c' \<and> em' c' = em c'"
    by (simp add: ivm' em' rows_setItemEquipped[OF d])
qed

lemma unequip_refused:
  assumes "equip_sync im (rows ivm c) (getEquipmentState em c)"
    and "map_of (ce_slots (getEquipmentState em c)) slug = None"
  shows "unequipItem c slug (em, ivm) = (\<lparr>ur_error = SLOT_EMPTY, ur_inventoryItemId = 0, ur_equipSlotSlug = []\<rparr>, em, ivm)"
  using assms
  by (auto simp: unequipItem_def getEquipmentState_def equip_sync_def occupied_slot Let_def split: option.splits)

lemma unequip_keeps_sync:
  assumes "equip_sync im (rows ivm c) (getEquipmentState em c)"
    and "unequipItem c slug (em, ivm) = (res, em', ivm')"
  shows "equip_sync im (rows ivm' c) (getEquipmentState em' c)"
  using assms unequip_success(3)[OF assms(1) _ assms(2)] unequip_refused[OF assms(1)]
  by (cases "map_of (ce_slots (getEquipmentState em c)) slug") auto

section \<open>Login\<close>

text \<open>The stored rows a login can rebuild: one equipped row per slot, and no off-hand item
  beside a two-handed weapon.\<close>

definition equipped_slug :: "item_manager \<Rightarrow> PlayerInventoryItemStruct \<Rightarrow> string" where
  "equipped_slug im r = it_equipSlotSlug (getItemById im (pi_itemId r))"

definition login_rows :: "item_manager \<Rightarrow> PlayerInventoryItemStruct list \<Rightarrow> bool" where
  "login_rows im v \<longleftrightarrow> distinct (map pi_id v) \<and> list_all (\<lambda>r. pi_id r \<noteq> 0) v \<and>
     (let w = filter pi_isEquipped v in
      list_all (\<lambda>r. it_id (getItemById im (pi_itemId r)) \<noteq> 0 \<and> equipped_slug im r \<noteq> []) w \<and>
      distinct (map (equipped_slug im) w) \<and>
      \<not> (list_ex (\<lambda>r. equipped_slug im r = ''main_hand'' \<and> it_isTwoHanded (getItemById im (pi_itemId r))) w
         \<and> list_ex (\<lambda>r. equipped_slug im r = ''off_hand'') w))"

lemma build_fold:
  assumes "list_all (\<lambda>r. it_id (getItemById im (pi_itemId r)) \<noteq> 0 \<and> equipped_slug im r \<noteq> []) (filter pi_isEquipped v)"
    and "distinct (map (equipped_slug im) (filter pi_isEquipped v))"
    and "e = fold (build_step im th) v \<lparr>ce_characterId = c, ce_slots = [], ce_twoHandedActive = False\<rparr>"
  shows "(map_of (ce_slots e) slug = Some s \<longleftrightarrow>
      (\<exists>r\<in>set v. pi_isEquipped r \<and> equipped_slug im r = slug
         \<and> s = slotFromInventoryItem r (getItemById im (pi_itemId r)) th)) \<and>
    (ce_twoHandedActive e \<longleftrightarrow> (\<exists>r\<in>set v. pi_isEquipped r \<and> equipped_slug im r = ''main_hand''
         \<and> it_isTwoHanded (getItemById im (pi_itemId r))))"
  using assms
proof (induction v arbitrary: e rule: rev_induct)
  case (snoc r v)
  define e0 where "e0 = fold (build_step im th) v \<lparr>ce_characterId = c, ce_slots = [], ce_twoHandedActive = False\<rparr>"
  have e: "e = build_step im th r e0" using snoc.prems(3) by (simp add: e0_def)
  note IH = snoc.IH[OF _ _ e0_def]
  show ?case
  proof (cases "pi_isEquipped r")
    case False
    with snoc.prems IH show ?thesis by (simp add: e build_step_def Let_def)
  next
    case True
    with snoc.prems have g: "it_id (getItemById im (pi_itemId r)) \<noteq> 0" "equipped_slug im r \<noteq> []"
      "\<forall>r'\<in>set v. pi_isEquipped r' \<longrightarrow> equipped_slug im r' \<noteq> equipped_slug im r"
      by (auto simp: image_iff)
    define st where "st = slotFromInventoryItem r (getItemById im (pi_itemId r)) th"
    have slots: "map_of (ce_slots e) = (map_of (ce_slots e0))(equipped_slug im r \<mapsto> st)"
      and two: "ce_twoHandedActive e \<longleftrightarrow> ce_twoHandedActive e0
        \<or> equipped_slug im r = ''main_hand'' \<and> it_isTwoHanded (getItemById im (pi_itemId r))"
      using True g(1,2) by (simp_all add: e build_step_def Let_def equipped_slug_def st_def)
    have IH': "map_of (ce_slots e0) slug = Some s \<longleftrightarrow>
        (\<exists>r\<in>set v. pi_isEquipped r \<and> equipped_slug im r = slug
           \<and> s = slotFromInventoryItem r (getItemById im (pi_itemId r)) th)"
      "ce_twoHandedActive e0 \<longleftrightarrow> (\<exists>r\<in>set v. pi_isEquipped r \<and> equipped_slug im r = ''main_hand''
         \<and> it_isTwoHanded (getItemById im (pi_itemId r)))"
      using IH snoc.prems(1,2) by simp_all
    show ?thesis
    proof (cases "slug = equipped_slug im r")
      case False
      then show ?thesis using True by (auto simp: slots two IH')
    next
      case slug: True
      have "\<not> (\<exists>r'\<in>set v. pi_isEquipped r' \<and> equipped_slug im r' = slug)" using g(3) slug by auto
      then show ?thesis using True slug by (auto simp: slots two IH' st_def)
    qed
  qed
qed simp

lemma build_sync:
  assumes "login_rows im (rows ivm c)"
  shows "equip_sync im (rows ivm c) (getEquipmentState (buildFromInventory im th c ivm em) c)"
proof -
  define e where "e = fold (build_step im th) (rows ivm c) \<lparr>ce_characterId = c, ce_slots = [], ce_twoHandedActive = False\<rparr>"
  define v where "v = rows ivm c"
  have lr: "login_rows im v" using assms by (simp add: v_def)
  note bf = build_fold[where v = v and im = im and e = e and th = th and c = c]
  have look: "map_of (ce_slots e) slug = Some s \<longleftrightarrow>
      (\<exists>r\<in>set v. pi_isEquipped r \<and> equipped_slug im r = slug
         \<and> s = slotFromInventoryItem r (getItemById im (pi_itemId r)) th)"
    and two: "ce_twoHandedActive e \<longleftrightarrow> (\<exists>r\<in>set v. pi_isEquipped r \<and> equipped_slug im r = ''main_hand''
         \<and> it_isTwoHanded (getItemById im (pi_itemId r)))" for slug s
    using bf lr by (simp_all add: login_rows_def Let_def e_def v_def)
  have d: "distinct (map pi_id v)" "\<forall>r\<in>set v. pi_id r \<noteq> 0"
    using lr by (auto simp: login_rows_def list_all_iff)
  have "slot_row im v slug s" if "map_of (ce_slots e) slug = Some s" for slug s
    using that unfolding look by (auto simp: slot_row_def equipped_slug_def)
  moreover have "pi_isEquipped r \<longleftrightarrow> (\<exists>slug s. map_of (ce_slots e) slug = Some s \<and> es_inventoryItemId s = pi_id r)"
    if r: "r \<in> set v" for r
  proof
    assume "pi_isEquipped r"
    with r have "map_of (ce_slots e) (equipped_slug im r) = Some (slotFromInventoryItem r (getItemById im (pi_itemId r)) th)"
      unfolding look by blast
    then show "\<exists>slug s. map_of (ce_slots e) slug = Some s \<and> es_inventoryItemId s = pi_id r" by force
  next
    assume "\<exists>slug s. map_of (ce_slots e) slug = Some s \<and> es_inventoryItemId s = pi_id r"
    then obtain r' where "r' \<in> set v" "pi_isEquipped r'" "pi_id r' = pi_id r" unfolding look by auto
    then show "pi_isEquipped r" using row_unique[OF d(1) _ r] by metis
  qed
  ultimately have "slots_match im v e"
    using d by (simp add: slots_match_def)
  moreover have "hands_ok im e"
  proof -
    have "map_of (ce_slots e) ''off_hand'' = None" if "ce_twoHandedActive e"
    proof (rule ccontr)
      assume "map_of (ce_slots e) ''off_hand'' \<noteq> None"
      then obtain s where "map_of (ce_slots e) ''off_hand'' = Some s" by blast
      with that lr show False unfolding look two by (auto simp: login_rows_def list_ex_iff Let_def)
    qed
    moreover have "ce_twoHandedActive e \<longleftrightarrow> (case map_of (ce_slots e) ''main_hand'' of None \<Rightarrow> False
         | Some s \<Rightarrow> it_isTwoHanded (getItemById im (es_itemId s)))"
    proof (cases "map_of (ce_slots e) ''main_hand''")
      case None
      then have "\<not> (\<exists>s. map_of (ce_slots e) ''main_hand'' = Some s)" by simp
      then show ?thesis using None unfolding look two by auto
    next
      case (Some s)
      then obtain r where r: "r \<in> set v" "pi_isEquipped r" "equipped_slug im r = ''main_hand''" "es_itemId s = pi_itemId r"
        unfolding look by auto
      have inj: "inj_on (equipped_slug im) {r \<in> set v. pi_isEquipped r}"
        using lr by (simp add: login_rows_def Let_def distinct_map)
      have uniq: "r' = r" if "r' \<in> set v" "pi_isEquipped r'" "equipped_slug im r' = ''main_hand''" for r'
        using inj_onD[OF inj, of r' r] that r by simp
      have "ce_twoHandedActive e \<longleftrightarrow> it_isTwoHanded (getItemById im (pi_itemId r))"
        unfolding two by (metis r(1-3) uniq)
      then show ?thesis by (simp add: Some r(4))
    qed
    ultimately show ?thesis by (simp add: hands_ok_def)
  qed
  ultimately show ?thesis
    by (simp add: equip_sync_def buildFromInventory_def getEquipmentState_def getPlayerInventory_def e_def v_def)
qed

section \<open>Runs of the manager\<close>

text \<open>Login, equip and unequip of one character, in any order.\<close>

inductive equip_reachable ::
  "item_manager \<Rightarrow> int \<Rightarrow> inventory_manager \<Rightarrow> equipment_manager \<times> inventory_manager \<Rightarrow> bool"
  for im :: item_manager and c :: int and ivm0 :: inventory_manager where
  Login: "login_rows im (rows ivm0 c) \<Longrightarrow>
     equip_reachable im c ivm0 (buildFromInventory im th c ivm0 em, ivm0)"
| Equip: "equip_reachable im c ivm0 st \<Longrightarrow>
     equip_reachable im c ivm0 (snd (equipItem im th lv cl c rid st))"
| Unequip: "equip_reachable im c ivm0 st \<Longrightarrow> equip_reachable im c ivm0 (snd (unequipItem c slug st))"

text \<open>C7: However a player equips and unequips after login, the slot table and the equipped flags
  of his inventory agree: a row is flagged exactly when it sits in a slot, the slot is the one
  its item names, no row is in two slots, and an off-hand item never coexists with a two-handed
  main-hand weapon.\<close>

theorem equipment_invariant:
  assumes "equip_reachable im c ivm0 st"
  shows "equip_sync im (rows (snd st) c) (getEquipmentState (fst st) c)"
  using assms
proof induction
  case (Login th em) then show ?case using build_sync by simp
next
  case (Equip st th lv cl rid)
  from equip_keeps_sync[OF Equip.IH, of th lv cl rid] show ?case
    by (metis prod.collapse)
next
  case (Unequip st slug)
  from unequip_keeps_sync[OF Unequip.IH, of slug] show ?case
    by (metis prod.collapse)
qed

definition armoury :: inventory_manager where
  "armoury = (empty_inventory True True False)\<lparr>iv_players :=
     [7 \<mapsto> [sample_row 31 7 2 1, sample_row 32 7 4 1, sample_row 33 7 5 1]]\<rparr>"

lemma armoury_rows [simp]: "rows armoury 7 = [sample_row 31 7 2 1, sample_row 32 7 4 1, sample_row 33 7 5 1]"
  by (simp add: rows_def armoury_def)

lemma armoury_login [simp]: "login_rows sample_items (rows armoury 7)"
  by (simp add: login_rows_def)

theorem equipment_invariant_witness:
  "let st0 = (buildFromInventory sample_items 0 7 armoury Map.empty, armoury);
       st1 = snd (equipItem sample_items 0 1 1 7 33 st0);
       st2 = snd (equipItem sample_items 0 1 1 7 32 st1)
   in equip_sync sample_items (rows (snd st2) 7) (getEquipmentState (fst st2) 7)"
  unfolding Let_def by (intro equipment_invariant[where ?ivm0.0 = armoury] equip_reachable.intros armoury_login)

text \<open>C8: Equipping an owned row of the right level and class puts it in the slot its item names and
  flags it; it displaces only what was in that slot and, for a two-handed weapon, the off-hand
  item; it moves no item, touches no other character, and a refused request changes nothing.\<close>

theorem equip_item_effect:
  assumes "equip_sync im (rows ivm c) (getEquipmentState em c)"
  shows "case equipItem im th lv cl c rid (em, ivm) of (res, em', ivm') \<Rightarrow>
    (case equip_checks im lv cl c rid ivm em of
       Inl err \<Rightarrow> er_error res = err \<and> em' = em \<and> ivm' = ivm
     | Inr r \<Rightarrow>
       let it = getItemById im (pi_itemId r) in
       er_error res = NONE \<and> pi_id r = rid \<and> r \<in> set (rows ivm c) \<and> it_levelRequirement it \<le> max 0 lv \<and>
       (it_allowedClassIds it = [] \<or> cl \<in> set (it_allowedClassIds it)) \<and>
       map_of (ce_slots (getEquipmentState em' c)) =
         slots_after (map_of (ce_slots (getEquipmentState em c))) (it_isTwoHanded it) (it_equipSlotSlug it)
           (slotFromInventoryItem r it th) \<and>
       same_goods ivm ivm' \<and> (\<forall>c'. c' \<noteq> c \<longrightarrow> rows ivm' c' = rows ivm c' \<and> em' c' = em c'))"
proof (cases "equip_checks im lv cl c rid ivm em")
  case (Inl err)
  then show ?thesis by (simp add: equipItem_refused equip_error_def)
next
  case (Inr r)
  obtain res em' ivm' where out: "equipItem im th lv cl c rid (em, ivm) = (res, em', ivm')"
    by (metis prod.collapse)
  show ?thesis
    using equip_success[OF assms Inr refl out] equip_checks_Inr[OF Inr] by (auto simp: out Inr Let_def)
qed

theorem equip_item_effect_witness:
  "er_error (fst (equipItem sample_items 0 1 1 7 31 (buildFromInventory sample_items 0 7 armoury Map.empty, armoury))) = NONE"
  using equip_item_effect[OF build_sync[OF armoury_login, where em = Map.empty and th = 0],
      where th = 0 and lv = 1 and cl = 1 and rid = 31]
  by (simp add: equip_checks_def getPlayerInventory_def sample_item_defs buildFromInventory_def build_step_def Let_def
      split: prod.splits)

end
