(* ===== verification/Chunk_Json.thy ===== *)
theory Chunk_Json
  imports Chunk_Floats
begin

text \<open>
  \<^verbatim>\<open>nlohmann::json\<close> as the server uses it: the value tree, the members of an object, the
  typed reads \<open>get<T>()\<close>, which throw on a value of another type, and \<open>value(key, default)\<close>.
\<close>

datatype json = JNull | JBool bool | JInt int | JFloat float64 | JString string
  | JArray "json list" | JObject "(string \<times> json) list"

text \<open>\<^verbatim>\<open>nlohmann::json::type_error\<close>\<close>

datatype json_error = TypeError

primrec members :: "json \<Rightarrow> (string \<times> json) list" where
  "members JNull = []"
| "members (JBool b) = []"
| "members (JInt i) = []"
| "members (JFloat f) = []"
| "members (JString s) = []"
| "members (JArray js) = []"
| "members (JObject m) = m"

definition contains :: "json \<Rightarrow> string \<Rightarrow> bool" where
  "contains j k \<longleftrightarrow> map_of (members j) k \<noteq> None"

definition json_empty :: "json \<Rightarrow> bool" where
  "json_empty j = (case j of JNull \<Rightarrow> True | JArray js \<Rightarrow> js = [] | JObject m \<Rightarrow> m = [] | _ \<Rightarrow> False)"

text \<open>\<^verbatim>\<open>get<int>()\<close> accepts every arithmetic value, booleans included; the other reads want
  their own type.\<close>

definition get_int :: "json \<Rightarrow> json_error + int" where
  "get_int j = (case j of JInt i \<Rightarrow> Inr (wrap32 i) | JFloat f \<Rightarrow> Inr (cast_i32 f)
     | JBool b \<Rightarrow> Inr (if b then 1 else 0) | _ \<Rightarrow> Inl TypeError)"

definition get_float :: "json \<Rightarrow> json_error + float32" where
  "get_float j = (case j of JInt i \<Rightarrow> Inr (fl32 (of_int i)) | JFloat f \<Rightarrow> Inr (fl32 f)
     | JBool b \<Rightarrow> Inr (if b then 1 else 0) | _ \<Rightarrow> Inl TypeError)"

definition get_bool :: "json \<Rightarrow> json_error + bool" where
  "get_bool j = (case j of JBool b \<Rightarrow> Inr b | _ \<Rightarrow> Inl TypeError)"

definition get_string :: "json \<Rightarrow> json_error + string" where
  "get_string j = (case j of JString s \<Rightarrow> Inr s | _ \<Rightarrow> Inl TypeError)"

text \<open>\<^verbatim>\<open>j[key]\<close> for a key that is present.\<close>

definition member :: "json \<Rightarrow> string \<Rightarrow> json" where
  "member j k = (case map_of (members j) k of Some v \<Rightarrow> v | None \<Rightarrow> JNull)"

text \<open>\<^verbatim>\<open>j.value(key, d)\<close>: the default for a missing key, an error for a member of another type.\<close>

definition value_get :: "(json \<Rightarrow> json_error + 'a) \<Rightarrow> json \<Rightarrow> string \<Rightarrow> 'a \<Rightarrow> json_error + 'a" where
  "value_get get j k d = (case map_of (members j) k of None \<Rightarrow> Inr d | Some v \<Rightarrow> get v)"

text \<open>The same for data the server has written or checked itself, where the error cannot occur.\<close>

definition value_of :: "(json \<Rightarrow> json_error + 'a) \<Rightarrow> json \<Rightarrow> string \<Rightarrow> 'a \<Rightarrow> 'a" where
  "value_of get j k d =
     (case map_of (members j) k of None \<Rightarrow> d | Some v \<Rightarrow> (case get v of Inr x \<Rightarrow> x | Inl e \<Rightarrow> d))"

abbreviation value_int :: "json \<Rightarrow> string \<Rightarrow> int \<Rightarrow> int" where
  "value_int \<equiv> value_of get_int"

abbreviation value_bool :: "json \<Rightarrow> string \<Rightarrow> bool \<Rightarrow> bool" where
  "value_bool \<equiv> value_of get_bool"

abbreviation value_float :: "json \<Rightarrow> string \<Rightarrow> float32 \<Rightarrow> float32" where
  "value_float \<equiv> value_of get_float"

text \<open>\<^verbatim>\<open>j[key] = v\<close> on an object.\<close>

definition json_set :: "string \<Rightarrow> json \<Rightarrow> json \<Rightarrow> json" where
  "json_set k v j = JObject (umap_put k v (members j))"

lemma members_json_set [simp]: "map_of (members (json_set k v j)) = (map_of (members j))(k \<mapsto> v)"
  by (simp add: json_set_def)

lemma value_int_set [simp]: "in_i32 i \<Longrightarrow> value_int (json_set k (JInt i) j) k d = i"
  by (simp add: value_of_def get_int_def)

lemma value_bool_set [simp]: "value_bool (json_set k (JBool b) j) k d = b"
  by (simp add: value_of_def get_bool_def)

lemma in_i32_value_int [simp]: "in_i32 d \<Longrightarrow> in_i32 (value_int j k d)"
  by (auto simp: value_of_def get_int_def cast_i32_in split: option.split json.split sum.split)

lemma size_member: "map_of m k = Some v \<Longrightarrow> size v < size (JObject m)"
proof (induction m)
  case (Cons e m)
  then show ?case by (cases e) (auto split: if_splits)
qed simp

end
