(* ===== verification/Game_Data.thy ===== *)
theory Game_Data
  imports Chunk_Json
begin

text \<open>
  The data of \<^verbatim>\<open>data/DataStructs.hpp\<close> and \<^verbatim>\<open>data/SkillStructs.hpp\<close> that the
  character, combat and quest code share, and the distance computations on positions.
  A \<open>time_point\<close> of the steady clock is an \<^typ>\<open>int\<close> of nanoseconds (0 is the
  default-constructed value), a Unix time an \<^typ>\<open>int\<close> of seconds.
\<close>

section \<open>Positions\<close>

record PositionStruct =
  positionX :: float32
  positionY :: float32
  positionZ :: float32
  rotationZ :: float32

definition default_position :: PositionStruct where
  "default_position = \<lparr>positionX = 0, positionY = 0, positionZ = 0, rotationZ = 0\<rparr>"

section \<open>Characters\<close>

record CharacterAttributeStruct =
  at_id :: int
  at_character_id :: int
  at_name :: string
  at_slug :: string
  at_value :: int

record SkillEffectDefinitionStruct =
  se_effectSlug :: string
  se_effectTypeSlug :: string
  se_attributeSlug :: string
  se_value :: float32
  se_durationSeconds :: int
  se_tickMs :: int

record SkillStruct =
  sk_skillName :: string
  sk_skillSlug :: string
  sk_scaleStat :: string
  sk_school :: string
  sk_skillEffectType :: string
  sk_skillLevel :: int
  sk_coeff :: float32
  sk_flatAdd :: float32
  sk_cooldownMs :: int
  sk_gcdMs :: int
  sk_castMs :: int
  sk_costMp :: int
  sk_maxRange :: float32
  sk_areaRadius :: float32
  sk_swingMs :: int
  sk_animationName :: string
  sk_isPassive :: bool
  sk_effects :: "SkillEffectDefinitionStruct list"

record PlayerFlagStruct =
  pf_flagKey :: string
  pf_boolValue :: "bool option"
  pf_intValue :: "int option"

record PlayerQuestProgressStruct =
  pq_characterId :: int
  pq_questId :: int
  pq_questSlug :: string
  pq_state :: string
  pq_currentStep :: int
  pq_progress :: json
  pq_isDirty :: bool
  pq_updatedAt :: int

record ActiveEffectStruct =
  ae_id :: int
  ae_effectId :: int
  ae_effectSlug :: string
  ae_effectTypeSlug :: string
  ae_attributeId :: int
  ae_attributeSlug :: string
  ae_value :: float32
  ae_sourceType :: string
  ae_expiresAt :: int
  ae_tickMs :: int
  ae_nextTickAt :: int

record EffectTickResult =
  et_characterId :: int
  et_effectSlug :: string
  et_effectTypeSlug :: string
  et_value :: float32
  et_newHealth :: int
  et_newMana :: int
  et_targetDied :: bool

record SkillBarSlotStruct =
  sb_slotIndex :: int
  sb_skillSlug :: string

record MovementSample =
  mv_position :: PositionStruct
  mv_srvMs :: int

record CharacterDataStruct =
  ch_clientId :: int
  ch_characterId :: int
  ch_characterLevel :: int
  ch_characterExperiencePoints :: int
  ch_characterCurrentHealth :: int
  ch_characterCurrentMana :: int
  ch_characterMaxHealth :: int
  ch_characterMaxMana :: int
  ch_expForNextLevel :: int
  ch_characterName :: string
  ch_characterClass :: string
  ch_classId :: int
  ch_characterRace :: string
  ch_characterGender :: string
  ch_characterPosition :: PositionStruct
  ch_attributes :: "CharacterAttributeStruct list"
  ch_skills :: "SkillStruct list"
  ch_flags :: "PlayerFlagStruct list"
  ch_quests :: "PlayerQuestProgressStruct list"
  ch_activeEffects :: "ActiveEffectStruct list"
  ch_experienceDebt :: int
  ch_freeSkillPoints :: int
  ch_respawnPosition :: PositionStruct
  ch_lastValidatedPosition :: PositionStruct
  ch_lastMoveSrvMs :: int
  ch_movementWindow :: "MovementSample list"
  ch_movementWindowHead :: int
  ch_movementWindowCount :: int
  ch_lastInCombatAt :: int
  ch_respawnInvulUntil :: float32
  ch_isDead :: bool
  ch_deathTimestamp :: int
  ch_skillBarSlots :: "SkillBarSlotStruct list"
  ch_sessionId :: string
  ch_totalPlayTimeSec :: int
  ch_lastSessionPlayTimeSec :: int
  ch_sessionStartAt :: int
  ch_lastPlayTimeSaveAt :: int
  ch_joinTimestamp :: int

definition MOVEMENT_WINDOW_SIZE :: nat where
  "MOVEMENT_WINDOW_SIZE = 5"

definition default_character :: CharacterDataStruct where
  "default_character = \<lparr>ch_clientId = 0, ch_characterId = 0, ch_characterLevel = 0,
     ch_characterExperiencePoints = 0, ch_characterCurrentHealth = 0, ch_characterCurrentMana = 0,
     ch_characterMaxHealth = 0, ch_characterMaxMana = 0, ch_expForNextLevel = 0, ch_characterName = [],
     ch_characterClass = [], ch_classId = 0, ch_characterRace = [], ch_characterGender = [],
     ch_characterPosition = default_position, ch_attributes = [], ch_skills = [], ch_flags = [],
     ch_quests = [], ch_activeEffects = [], ch_experienceDebt = 0, ch_freeSkillPoints = 0,
     ch_respawnPosition = default_position, ch_lastValidatedPosition = default_position,
     ch_lastMoveSrvMs = 0,
     ch_movementWindow = replicate MOVEMENT_WINDOW_SIZE \<lparr>mv_position = default_position, mv_srvMs = 0\<rparr>,
     ch_movementWindowHead = 0, ch_movementWindowCount = 0, ch_lastInCombatAt = 0,
     ch_respawnInvulUntil = 0, ch_isDead = False, ch_deathTimestamp = 0, ch_skillBarSlots = [],
     ch_sessionId = [], ch_totalPlayTimeSec = 0, ch_lastSessionPlayTimeSec = 0, ch_sessionStartAt = 0,
     ch_lastPlayTimeSaveAt = 0, ch_joinTimestamp = 0\<rparr>"

section \<open>Dialogue context\<close>

text \<open>The snapshot of a player on which dialogue conditions are evaluated.\<close>

record PlayerContextStruct =
  cx_characterId :: int
  cx_characterLevel :: int
  cx_classId :: int
  cx_flagsBool :: "string \<rightharpoonup> bool"
  cx_flagsInt :: "string \<rightharpoonup> int"
  cx_questStates :: "string \<rightharpoonup> string"
  cx_questCurrentStep :: "string \<rightharpoonup> int"
  cx_questProgress :: "int \<rightharpoonup> json"
  cx_reputations :: "string \<rightharpoonup> int"
  cx_masteries :: "string \<rightharpoonup> float32"
  cx_freeSkillPoints :: int
  cx_learnedSkillSlugs :: "string list"

section \<open>Quests\<close>

record QuestRewardStruct =
  qr_rewardType :: string
  qr_itemId :: int
  qr_quantity :: int
  qr_amount :: int
  qr_isHidden :: bool
  qr_allowedClassIds :: "int list"

record QuestStepStruct =
  qs_id :: int
  qs_questId :: int
  qs_stepIndex :: int
  qs_stepType :: string
  qs_completionMode :: string
  qs_params :: json
  qs_clientStepKey :: string

record QuestStruct =
  qu_id :: int
  qu_slug :: string
  qu_minLevel :: int
  qu_repeatable :: bool
  qu_cooldownSec :: int
  qu_giverNpcId :: int
  qu_turninNpcId :: int
  qu_clientQuestKey :: string
  qu_reputationFactionSlug :: string
  qu_reputationOnComplete :: int
  qu_reputationOnFail :: int
  qu_steps :: "QuestStepStruct list"
  qu_rewards :: "QuestRewardStruct list"

record UpdatePlayerFlagStruct =
  uf_characterId :: int
  uf_flagKey :: string
  uf_boolValue :: "bool option"
  uf_intValue :: "int option"

end
