(* ===== verification/Chunk_Strings.thy ===== *)
theory Chunk_Strings
  imports Chunk_Prelude
begin

text \<open>
  \<^verbatim>\<open>std::to_string\<close> and \<^verbatim>\<open>std::stoi\<close>, which the session managers and the
  trade handler use to build session ids and to read them back. \<open>None\<close> stands for the
  exceptions of \<^verbatim>\<open>std::stoi\<close>.
\<close>

definition digit :: "nat \<Rightarrow> char" where
  "digit d = char_of (48 + d)"

definition digit_val :: "char \<Rightarrow> nat" where
  "digit_val ch = of_char ch - 48"

definition is_digit :: "char \<Rightarrow> bool" where
  "is_digit ch \<longleftrightarrow> 48 \<le> (of_char ch :: nat) \<and> (of_char ch :: nat) \<le> 57"

definition is_space :: "char \<Rightarrow> bool" where
  "is_space ch \<longleftrightarrow> (of_char ch :: nat) = 32 \<or> 9 \<le> (of_char ch :: nat) \<and> (of_char ch :: nat) \<le> 13"

fun digits :: "nat \<Rightarrow> string" where
  "digits n = (if n < 10 then [digit n] else digits (n div 10) @ [digit (n mod 10)])"

declare digits.simps [simp del]

definition to_string :: "int \<Rightarrow> string" where
  "to_string i = (if i < 0 then CHR ''-'' # digits (nat (- i)) else digits (nat i))"

definition digits_val :: "string \<Rightarrow> nat" where
  "digits_val ds = foldl (\<lambda>v ch. v * 10 + digit_val ch) 0 ds"

definition read_sign :: "string \<Rightarrow> bool \<times> string" where
  "read_sign s = (case s of [] \<Rightarrow> (False, [])
     | ch # t \<Rightarrow> if ch = CHR ''-'' then (True, t) else if ch = CHR ''+'' then (False, t) else (False, s))"

definition stoi :: "string \<Rightarrow> int option" where
  "stoi s =
     (let (neg, t) = read_sign (dropWhile is_space s); ds = takeWhile is_digit t in
      if ds = [] then None
      else let v = (if neg then - int (digits_val ds) else int (digits_val ds)) in
        if in_i32 v then Some v else None)"

lemma of_char_digit: "d < 10 \<Longrightarrow> (of_char (digit d) :: nat) = 48 + d"
  by (simp add: digit_def of_char_of)

lemma digit_is_digit [simp]: "d < 10 \<Longrightarrow> is_digit (digit d)"
  and digit_val_digit [simp]: "d < 10 \<Longrightarrow> digit_val (digit d) = d"
  by (simp_all add: is_digit_def digit_val_def of_char_digit)

lemma digits_Nil [simp]: "digits n \<noteq> []"
  by (simp add: digits.simps)

lemma digits_are_digits: "list_all is_digit (digits n)"
proof (induction n rule: digits.induct)
  case (1 n) then show ?case by (simp add: digits.simps[of n])
qed

lemma digits_val_digits [simp]: "digits_val (digits n) = n"
proof (induction n rule: digits.induct)
  case (1 n)
  then show ?case by (simp add: digits.simps[of n] digits_val_def)
qed

lemma digits_inject [simp]: "digits m = digits n \<longleftrightarrow> m = n"
  by (metis digits_val_digits)

lemma is_digit_cases: "is_digit ch \<Longrightarrow> \<not> is_space ch \<and> ch \<noteq> CHR ''-'' \<and> ch \<noteq> CHR ''+'' \<and> ch \<noteq> CHR ''_''"
  by (auto simp: is_digit_def is_space_def)

lemma take_digits: "list_all is_digit ds \<Longrightarrow> (\<forall>ch t'. t = ch # t' \<longrightarrow> \<not> is_digit ch)
   \<Longrightarrow> takeWhile is_digit (ds @ t) = ds"
  by (induction ds) (auto simp: takeWhile_eq_Nil_iff split: list.splits intro: list.exhaust[of t])

lemma to_string_no_sep: "CHR ''_'' \<notin> set (to_string i)"
  using digits_are_digits[of "nat i"] digits_are_digits[of "nat (- i)"]
  by (auto simp: to_string_def list_all_iff dest: is_digit_cases)

lemma to_string_inject [simp]: "to_string i = to_string j \<longleftrightarrow> i = j"
proof -
  have neq: "CHR ''-'' # w \<noteq> digits n" for w n
    using digits_are_digits[of n] by (auto simp: is_digit_cases dest: sym) (metis is_digit_cases list.pred_inject(2))
  show ?thesis using neq neq[symmetric] by (auto simp: to_string_def split: if_splits)
qed

text \<open>The first field of an id joined with underscores can be read back.\<close>

lemma field_inject:
  "CHR ''_'' \<notin> set a \<Longrightarrow> CHR ''_'' \<notin> set b \<Longrightarrow> a @ CHR ''_'' # x = b @ CHR ''_'' # y \<Longrightarrow> a = b \<and> x = y"
  by (auto simp: append_eq_append_conv2 append_eq_Cons_conv Cons_eq_append_conv)

lemma read_sign_to_string:
  "read_sign (dropWhile is_space (to_string i @ t)) = (i < 0, digits (nat \<bar>i\<bar>) @ t)"
proof -
  obtain ch w where d: "digits (nat \<bar>i\<bar>) = ch # w" by (cases "digits (nat \<bar>i\<bar>)") auto
  have "is_digit ch" using digits_are_digits[of "nat \<bar>i\<bar>"] d by simp
  from is_digit_cases[OF this] show ?thesis
    using d by (auto simp: to_string_def read_sign_def is_space_def)
qed

lemma stoi_to_string_append:
  assumes "in_i32 i" "\<forall>ch t'. t = ch # t' \<longrightarrow> \<not> is_digit ch"
  shows "stoi (to_string i @ t) = Some i"
proof -
  have "takeWhile is_digit (digits (nat \<bar>i\<bar>) @ t) = digits (nat \<bar>i\<bar>)"
    by (rule take_digits[OF digits_are_digits assms(2)])
  then show ?thesis using assms(1)
    by (cases "i < 0") (simp_all add: stoi_def read_sign_to_string Let_def)
qed

lemma stoi_to_string: "in_i32 i \<Longrightarrow> stoi (to_string i) = Some i"
  using stoi_to_string_append[of i "[]"] by simp

end
