(* ===== verification/Trade.thy ===== *)
theory Trade
  imports Inventory Game_Data Chunk_Strings "HOL-Library.Multiset"
begin

text \<open>
  Player-to-player trade: \<^verbatim>\<open>services/TradeSessionManager.cpp\<close> (the session tables) and the
  trade handlers of \<^verbatim>\<open>events/handlers/VendorEventHandler.cpp\<close> (invite, accept, decline,
  offer, confirm, cancel). Time is the steady clock in nanoseconds. Packets are values
  appended to \<open>tw_out\<close>; whether a client still has a socket is the argument \<open>online\<close>,
  and \<open>chars\<close> is the look-up of the character manager (the default character, with id 0, when
  the character is unknown).
\<close>

section \<open>Sessions\<close>

record TradeOfferItemStruct =
  to_inventoryItemId :: int
  to_itemId :: int
  to_quantity :: int

record TradeSessionStruct =
  ts_sessionId :: string
  ts_charAId :: int
  ts_charBId :: int
  ts_clientAId :: int
  ts_clientBId :: int
  ts_offerA :: "TradeOfferItemStruct list"
  ts_offerB :: "TradeOfferItemStruct list"
  ts_goldA :: int
  ts_goldB :: int
  ts_confirmedA :: bool
  ts_confirmedB :: bool
  ts_lastActivity :: int

definition TTL_SECONDS :: int where
  "TTL_SECONDS = 60"

record trade_manager =
  tm_sessions :: "(string \<times> TradeSessionStruct) list"
  tm_characterToSession :: "int \<Rightarrow> string option"

definition ns_to_ms :: "int \<Rightarrow> int" where
  "ns_to_ms t = t div 1000000"

definition ns_to_s :: "int \<Rightarrow> int" where
  "ns_to_s t = t div 1000000000"

definition trade_id :: "int \<Rightarrow> int \<Rightarrow> int \<Rightarrow> string" where
  "trade_id charA charB now =
     ''trade_'' @ to_string charA @ ''_'' @ to_string charB @ ''_'' @ to_string (ns_to_ms now)"

text \<open>\<^verbatim>\<open>for (int charId : {charAId, charBId})\<close>: drop the session the character is in.\<close>

definition close_existing :: "int \<Rightarrow> trade_manager \<Rightarrow> trade_manager" where
  "close_existing c m =
     (case tm_characterToSession m c of None \<Rightarrow> m
      | Some sid \<Rightarrow> m\<lparr>tm_sessions := omap_erase sid (tm_sessions m),
                      tm_characterToSession := (tm_characterToSession m)(c := None)\<rparr>)"

definition createSession ::
  "int \<Rightarrow> int \<Rightarrow> int \<Rightarrow> int \<Rightarrow> int \<Rightarrow> trade_manager \<Rightarrow> TradeSessionStruct \<times> trade_manager" where
  "createSession clientA charA clientB charB now m =
     (let m1 = close_existing charB (close_existing charA m);
          sid = trade_id charA charB now;
          session = \<lparr>ts_sessionId = sid, ts_charAId = charA, ts_charBId = charB,
             ts_clientAId = clientA, ts_clientBId = clientB, ts_offerA = [], ts_offerB = [],
             ts_goldA = 0, ts_goldB = 0, ts_confirmedA = False, ts_confirmedB = False,
             ts_lastActivity = now\<rparr>
      in (session, m1\<lparr>tm_sessions := umap_put sid session (tm_sessions m1),
            tm_characterToSession := (tm_characterToSession m1)(charA \<mapsto> sid, charB \<mapsto> sid)\<rparr>))"

definition getSession :: "trade_manager \<Rightarrow> string \<Rightarrow> TradeSessionStruct option" where
  "getSession m sid = map_of (tm_sessions m) sid"

definition getSessionByCharacter :: "trade_manager \<Rightarrow> int \<Rightarrow> TradeSessionStruct option" where
  "getSessionByCharacter m c =
     (case tm_characterToSession m c of None \<Rightarrow> None | Some sid \<Rightarrow> map_of (tm_sessions m) sid)"

definition unlink :: "TradeSessionStruct \<Rightarrow> (int \<Rightarrow> string option) \<Rightarrow> int \<Rightarrow> string option" where
  "unlink s f = f(ts_charAId s := None, ts_charBId s := None)"

definition closeSession :: "string \<Rightarrow> trade_manager \<Rightarrow> trade_manager" where
  "closeSession sid m =
     (case map_of (tm_sessions m) sid of None \<Rightarrow> m
      | Some s \<Rightarrow> m\<lparr>tm_sessions := omap_erase sid (tm_sessions m),
                    tm_characterToSession := unlink s (tm_characterToSession m)\<rparr>)"

definition closeSessionByCharacter :: "int \<Rightarrow> trade_manager \<Rightarrow> trade_manager" where
  "closeSessionByCharacter c m =
     (case tm_characterToSession m c of None \<Rightarrow> m
      | Some sid \<Rightarrow>
        (case map_of (tm_sessions m) sid of
           Some s \<Rightarrow> m\<lparr>tm_sessions := omap_erase sid (tm_sessions m),
                      tm_characterToSession := unlink s (tm_characterToSession m)\<rparr>
         | None \<Rightarrow> m\<lparr>tm_characterToSession := (tm_characterToSession m)(c := None)\<rparr>))"

definition expired :: "int \<Rightarrow> TradeSessionStruct \<Rightarrow> bool" where
  "expired now s \<longleftrightarrow> TTL_SECONDS < ns_to_s (now - ts_lastActivity s)"

definition cleanupExpiredSessions :: "int \<Rightarrow> trade_manager \<Rightarrow> trade_manager" where
  "cleanupExpiredSessions now m =
     m\<lparr>tm_sessions := filter (\<lambda>(sid, s). \<not> expired now s) (tm_sessions m),
       tm_characterToSession :=
         fold (\<lambda>(sid, s) f. if expired now s then unlink s f else f) (tm_sessions m) (tm_characterToSession m)\<rparr>"

text \<open>Writing through the pointer \<open>getSession\<close> returned.\<close>

definition put_session :: "string \<Rightarrow> TradeSessionStruct \<Rightarrow> trade_manager \<Rightarrow> trade_manager" where
  "put_session sid s m = m\<lparr>tm_sessions := umap_put sid s (tm_sessions m)\<rparr>"

section \<open>Session tables\<close>

text \<open>
  Every live session is filed under its own id, which names its two characters, and both of
  them are indexed to it. (The index may also hold ids of sessions that are gone: opening a
  session closes the old sessions of the two players but leaves their former partners'
  entries behind; \<open>getSessionByCharacter\<close> looks through those.)
\<close>

definition session_members :: "TradeSessionStruct \<Rightarrow> int set" where
  "session_members s = {ts_charAId s, ts_charBId s}"

definition id_names :: "string \<Rightarrow> int \<Rightarrow> int \<Rightarrow> bool" where
  "id_names k a b \<longleftrightarrow> (\<exists>t. k = trade_id a b t)"

definition wf_trade :: "trade_manager \<Rightarrow> bool" where
  "wf_trade m \<longleftrightarrow> distinct (map fst (tm_sessions m)) \<and>
     (\<forall>k s. map_of (tm_sessions m) k = Some s \<longrightarrow> ts_sessionId s = k
        \<and> id_names k (ts_charAId s) (ts_charBId s)
        \<and> tm_characterToSession m (ts_charAId s) = Some k
        \<and> tm_characterToSession m (ts_charBId s) = Some k) \<and>
     (\<forall>c k. tm_characterToSession m c = Some k \<longrightarrow> (\<exists>a b. id_names k a b \<and> (c = a \<or> c = b)))"

lemma trade_id_inject: "trade_id a b t = trade_id a' b' t' \<Longrightarrow> a = a' \<and> b = b'"
  unfolding trade_id_def
  by (auto dest!: field_inject[OF to_string_no_sep to_string_no_sep])

lemma id_names_inject: "id_names k a b \<Longrightarrow> id_names k a' b' \<Longrightarrow> a = a' \<and> b = b'"
  unfolding id_names_def using trade_id_inject by blast

lemma wf_tradeI:
  assumes "distinct (map fst (tm_sessions m))"
    and "\<And>k s. map_of (tm_sessions m) k = Some s \<Longrightarrow> ts_sessionId s = k
        \<and> id_names k (ts_charAId s) (ts_charBId s)
        \<and> tm_characterToSession m (ts_charAId s) = Some k
        \<and> tm_characterToSession m (ts_charBId s) = Some k"
    and "\<And>c k. tm_characterToSession m c = Some k \<Longrightarrow> \<exists>a b. id_names k a b \<and> (c = a \<or> c = b)"
  shows "wf_trade m"
  using assms unfolding wf_trade_def by blast

lemma wf_tradeD:
  assumes "wf_trade m"
  shows "distinct (map fst (tm_sessions m))"
    and "map_of (tm_sessions m) k = Some s \<Longrightarrow> ts_sessionId s = k"
    and "map_of (tm_sessions m) k = Some s \<Longrightarrow> id_names k (ts_charAId s) (ts_charBId s)"
    and "map_of (tm_sessions m) k = Some s \<Longrightarrow> tm_characterToSession m (ts_charAId s) = Some k"
    and "map_of (tm_sessions m) k = Some s \<Longrightarrow> tm_characterToSession m (ts_charBId s) = Some k"
    and "tm_characterToSession m c = Some k' \<Longrightarrow> \<exists>a b. id_names k' a b \<and> (c = a \<or> c = b)"
  using assms unfolding wf_trade_def by blast+

text \<open>A character is indexed to a live session only if he is one of its two players.\<close>

lemma indexed_member:
  assumes "wf_trade m" "tm_characterToSession m c = Some k" "map_of (tm_sessions m) k = Some s"
  shows "c \<in> session_members s"
proof -
  obtain a b where "id_names k a b" "c = a \<or> c = b" using wf_tradeD(6)[OF assms(1,2)] by blast
  with id_names_inject[OF wf_tradeD(3)[OF assms(1,3)]] show ?thesis by (auto simp: session_members_def)
qed

lemma close_wf:
  assumes wf: "wf_trade m" and s: "map_of (tm_sessions m) k = Some s"
  shows "wf_trade (m\<lparr>tm_sessions := omap_erase k (tm_sessions m),
                    tm_characterToSession := unlink s (tm_characterToSession m)\<rparr>)"
proof (rule wf_tradeI)
  note D = wf_tradeD[OF wf]
  fix k' s'
  assume "map_of (tm_sessions (m\<lparr>tm_sessions := omap_erase k (tm_sessions m),
                    tm_characterToSession := unlink s (tm_characterToSession m)\<rparr>)) k' = Some s'"
  then have k': "k' \<noteq> k" "map_of (tm_sessions m) k' = Some s'" by (auto split: if_splits)
  have "ts_charAId s' \<notin> session_members s" "ts_charBId s' \<notin> session_members s"
    using D(4)[OF k'(2)] D(5)[OF k'(2)] D(4)[OF s] D(5)[OF s] k'(1) by (auto simp: session_members_def)
  then show "ts_sessionId s' = k' \<and> id_names k' (ts_charAId s') (ts_charBId s') \<and>
      tm_characterToSession (m\<lparr>tm_sessions := omap_erase k (tm_sessions m),
        tm_characterToSession := unlink s (tm_characterToSession m)\<rparr>) (ts_charAId s') = Some k' \<and>
      tm_characterToSession (m\<lparr>tm_sessions := omap_erase k (tm_sessions m),
        tm_characterToSession := unlink s (tm_characterToSession m)\<rparr>) (ts_charBId s') = Some k'"
    using D(2-5)[OF k'(2)] by (simp add: unlink_def session_members_def)
qed (use wf_tradeD[OF wf] in \<open>auto simp: unlink_def split: if_splits\<close>)

lemma closeSession_wf: "wf_trade m \<Longrightarrow> wf_trade (closeSession k m)"
  by (auto simp: closeSession_def intro: close_wf split: option.split)

lemma closeSession_sessions:
  "map_of (tm_sessions (closeSession k m)) = (map_of (tm_sessions m))(k := None)"
  by (auto simp: closeSession_def fun_eq_iff split: option.split)

interpretation trades: session_table wf_trade getSession getSessionByCharacter ts_sessionId session_members closeSession
proof unfold_locales
  show "getSessionByCharacter m c = Some v" if "wf_trade m" "getSession m k = Some v" "c \<in> session_members v" for m k v c
    using that wf_tradeD(4,5)[OF that(1), of k v]
    by (auto simp: getSession_def getSessionByCharacter_def session_members_def)
  show "getSession m (ts_sessionId v) = Some v \<and> c \<in> session_members v"
    if wf: "wf_trade m" and v: "getSessionByCharacter m c = Some v" for m c v
  proof -
    obtain k where k: "tm_characterToSession m c = Some k" "map_of (tm_sessions m) k = Some v"
      using v by (auto simp: getSessionByCharacter_def split: option.splits)
    with indexed_member[OF wf k] wf_tradeD(2)[OF wf k(2)] show ?thesis by (simp add: getSession_def)
  qed
qed (auto simp: getSession_def wf_tradeD(2) closeSession_wf closeSession_sessions)

lemma close_existing_wf:
  assumes wf: "wf_trade m" shows "wf_trade (close_existing c m)"
proof (cases "tm_characterToSession m c")
  case (Some sid)
  note D = wf_tradeD[OF wf]
  show ?thesis
  proof (rule wf_tradeI)
    fix k s assume "map_of (tm_sessions (close_existing c m)) k = Some s"
    then have k: "k \<noteq> sid" "map_of (tm_sessions m) k = Some s"
      by (auto simp: close_existing_def Some split: if_splits)
    then have "ts_charAId s \<noteq> c" "ts_charBId s \<noteq> c" using D(4)[OF k(2)] D(5)[OF k(2)] Some by auto
    with D(2-5)[OF k(2)] show "ts_sessionId s = k \<and> id_names k (ts_charAId s) (ts_charBId s)
        \<and> tm_characterToSession (close_existing c m) (ts_charAId s) = Some k
        \<and> tm_characterToSession (close_existing c m) (ts_charBId s) = Some k"
      by (simp add: close_existing_def Some)
  qed (use D in \<open>auto simp: close_existing_def Some split: if_splits\<close>)
qed (simp add: wf close_existing_def)

lemma close_existing_lookup:
  assumes wf: "wf_trade m"
  shows "map_of (tm_sessions (close_existing c m)) k = Some s \<longleftrightarrow>
    map_of (tm_sessions m) k = Some s \<and> c \<notin> session_members s"
proof -
  note D = wf_tradeD[OF wf]
  have "tm_characterToSession m c = Some k" if "map_of (tm_sessions m) k = Some s" "c \<in> session_members s"
    using that D(4,5)[OF that(1)] by (auto simp: session_members_def)
  then show ?thesis
    using indexed_member[OF wf, of c k s]
    by (auto simp: close_existing_def split: option.splits)
qed

lemma createSession_lookup:
  assumes "wf_trade m" "createSession clA a clB b now m = (session, m')"
  shows "map_of (tm_sessions m') k = Some s \<longleftrightarrow>
    (if k = trade_id a b now then s = session
     else map_of (tm_sessions m) k = Some s \<and> a \<notin> session_members s \<and> b \<notin> session_members s)"
  using assms(2) close_existing_lookup[OF close_existing_wf[OF assms(1)]] close_existing_lookup[OF assms(1)]
  by (auto simp: createSession_def Let_def)

lemma createSession_wf:
  assumes wf: "wf_trade m" and out: "createSession clA a clB b now m = (session, m')"
  shows "wf_trade m'"
proof -
  define m1 where "m1 = close_existing b (close_existing a m)"
  have wf1: "wf_trade m1" by (simp add: m1_def close_existing_wf wf)
  note D = wf_tradeD[OF wf1]
  have idx: "tm_characterToSession m' = (tm_characterToSession m1)(a \<mapsto> trade_id a b now, b \<mapsto> trade_id a b now)"
    and new: "ts_sessionId session = trade_id a b now" "ts_charAId session = a" "ts_charBId session = b"
    and ks: "tm_sessions m' = umap_put (trade_id a b now) session (tm_sessions m1)"
    using out by (auto simp: createSession_def Let_def m1_def)
  have names: "id_names (trade_id a b now) a b" by (auto simp: id_names_def)
  show ?thesis
  proof (rule wf_tradeI)
    show "distinct (map fst (tm_sessions m'))" unfolding ks by (rule distinct_umap_put[OF D(1)])
  next
    fix k s assume ksome: "map_of (tm_sessions m') k = Some s"
    show "ts_sessionId s = k \<and> id_names k (ts_charAId s) (ts_charBId s)
        \<and> tm_characterToSession m' (ts_charAId s) = Some k \<and> tm_characterToSession m' (ts_charBId s) = Some k"
    proof (cases "k = trade_id a b now")
      case True
      with ksome ks have "s = session" by simp
      with True names new show ?thesis by (simp add: idx)
    next
      case False
      with ksome ks have k1: "map_of (tm_sessions m1) k = Some s" by simp
      then have "a \<notin> session_members s" "b \<notin> session_members s"
        using close_existing_lookup[OF close_existing_wf[OF wf]] close_existing_lookup[OF wf]
        by (auto simp: m1_def)
      with D(2-5)[OF k1] show ?thesis by (simp add: idx session_members_def)
    qed
  next
    fix c k assume "tm_characterToSession m' c = Some k"
    then show "\<exists>a b. id_names k a b \<and> (c = a \<or> c = b)"
      using names D(6) by (auto simp: idx split: if_splits)
  qed
qed

lemma closeSessionByCharacter_wf:
  assumes wf: "wf_trade m" shows "wf_trade (closeSessionByCharacter c m)"
proof (cases "tm_characterToSession m c")
  case (Some sid)
  show ?thesis
  proof (cases "map_of (tm_sessions m) sid")
    case None
    have "omap_erase sid (tm_sessions m) = tm_sessions m"
      using None by (auto simp: omap_erase_def filter_id_conv map_of_eq_None_iff)
    with close_existing_wf[OF wf, of c] Some None show ?thesis
      by (simp add: closeSessionByCharacter_def close_existing_def)
  next
    case (Some s)
    with close_wf[OF wf Some] \<open>tm_characterToSession m c = Some sid\<close> show ?thesis
      by (simp add: closeSessionByCharacter_def)
  qed
qed (simp add: wf closeSessionByCharacter_def)

text \<open>The clean-up is a sequence of closings.\<close>

definition expired_ids :: "int \<Rightarrow> (string \<times> TradeSessionStruct) list \<Rightarrow> string list" where
  "expired_ids now l = map fst (filter (\<lambda>(sid, s). expired now s) l)"

lemma cleanup_index:
  assumes "wf_trade m" and "set l \<subseteq> set (tm_sessions m)"
  shows "fold (\<lambda>(sid, s) f. if expired now s then unlink s f else f) l f =
    (\<lambda>c. if \<exists>(k, s) \<in> set l. expired now s \<and> c \<in> session_members s then None else f c)"
  using assms(2)
  by (induction l arbitrary: f) (auto simp: unlink_def session_members_def fun_eq_iff split: prod.splits)

lemma cleanup_wf:
  assumes wf: "wf_trade m" shows "wf_trade (cleanupExpiredSessions now m)"
proof (rule wf_tradeI)
  note D = wf_tradeD[OF wf]
  define live where "live = filter (\<lambda>(sid, s). \<not> expired now s) (tm_sessions m)"
  have m': "tm_sessions (cleanupExpiredSessions now m) = live"
    "tm_characterToSession (cleanupExpiredSessions now m) =
      (\<lambda>c. if \<exists>(k, s) \<in> set (tm_sessions m). expired now s \<and> c \<in> session_members s then None
           else tm_characterToSession m c)"
    by (simp_all add: cleanupExpiredSessions_def live_def cleanup_index[OF wf])
  show dl: "distinct (map fst (tm_sessions (cleanupExpiredSessions now m)))"
    using D(1) by (simp add: m' live_def distinct_map_filter)
  fix k s assume "map_of (tm_sessions (cleanupExpiredSessions now m)) k = Some s"
  then have "(k, s) \<in> set live" unfolding m' by (rule map_of_SomeD)
  then have k: "map_of (tm_sessions m) k = Some s" "\<not> expired now s"
    using D(1) by (auto simp: live_def)
  have keep: "tm_characterToSession (cleanupExpiredSessions now m) c = tm_characterToSession m c"
    if "c \<in> session_members s" for c
  proof -
    have "\<not> (expired now u \<and> c \<in> session_members u)" if "(k', u) \<in> set (tm_sessions m)" for k' u
    proof
      assume u: "expired now u \<and> c \<in> session_members u"
      have l: "map_of (tm_sessions m) k' = Some u" using that D(1) by simp
      have "k = k'" using u l k(1) \<open>c \<in> session_members s\<close>
        by (intro trades.one_session[OF wf, of k s k' u c]) (simp_all add: getSession_def)
      with l k u show False by simp
    qed
    then show ?thesis by (auto simp: m')
  qed
  show "ts_sessionId s = k \<and> id_names k (ts_charAId s) (ts_charBId s)
        \<and> tm_characterToSession (cleanupExpiredSessions now m) (ts_charAId s) = Some k
        \<and> tm_characterToSession (cleanupExpiredSessions now m) (ts_charBId s) = Some k"
    using D(2-5)[OF k(1)] by (simp add: keep session_members_def)
next
  fix c k assume "tm_characterToSession (cleanupExpiredSessions now m) c = Some k"
  then have "tm_characterToSession m c = Some k"
    by (simp add: cleanupExpiredSessions_def cleanup_index[OF wf] split: if_splits)
  then show "\<exists>a b. id_names k a b \<and> (c = a \<or> c = b)" by (rule wf_tradeD(6)[OF wf])
qed

lemma put_session_wf:
  assumes wf: "wf_trade m" and s: "map_of (tm_sessions m) k = Some s"
    and same: "ts_sessionId s' = ts_sessionId s" "ts_charAId s' = ts_charAId s" "ts_charBId s' = ts_charBId s"
  shows "wf_trade (put_session k s' m)"
  using wf_tradeD[OF wf] wf_tradeD(2-5)[OF wf s] same
  by (intro wf_tradeI) (auto simp: put_session_def split: if_splits)

section \<open>The handlers\<close>

definition isPlayerInRange :: "PositionStruct \<Rightarrow> PositionStruct \<Rightarrow> float32 \<Rightarrow> bool" where
  "isPlayerInRange player npc radius =
     (let dx = fl32 (positionX player - positionX npc);
          dy = fl32 (positionY player - positionY npc);
          dz = fl32 (positionZ player - positionZ npc)
      in fl32 (fl32 (fl32 (dx * dx) + fl32 (dy * dy)) + fl32 (dz * dz)) \<le> fl32 (radius * radius))"

datatype offer_view = OfferedRow PlayerInventoryItemStruct int | OfferedUnknown TradeOfferItemStruct string

record trade_view =
  tv_sessionId :: string
  tv_myGold :: int
  tv_theirGold :: int
  tv_myGoldBalance :: int
  tv_myItems :: "offer_view list"
  tv_theirItems :: "offer_view list"
  tv_myConfirmed :: bool
  tv_theirConfirmed :: bool

datatype trade_out =
    TradeError int string
  | TradeInvite int int
  | InviteSent int int
  | TradeDeclined int int
  | TradeState int trade_view
  | TradeCancelled int string string
  | TradeComplete int string
  | TransferInventoryItem int int int

record trade_world =
  tw_trade :: trade_manager
  tw_inv :: inventory_manager
  tw_out :: "trade_out list"

definition send :: "(int \<Rightarrow> bool) \<Rightarrow> int \<Rightarrow> trade_out \<Rightarrow> trade_world \<Rightarrow> trade_world" where
  "send online client p w = (if online client then w\<lparr>tw_out := tw_out w @ [p]\<rparr> else w)"

definition offer_views ::
  "item_manager \<Rightarrow> inventory_manager \<Rightarrow> int \<Rightarrow> TradeOfferItemStruct list \<Rightarrow> offer_view list" where
  "offer_views im ivm c offer =
     map (\<lambda>o'. case find (\<lambda>r. pi_id r = to_inventoryItemId o') (getPlayerInventory ivm c) of
            Some r \<Rightarrow> OfferedRow r (to_quantity o')
          | None \<Rightarrow> OfferedUnknown o' (it_slug (getItemById im (to_itemId o')))) offer"

definition sendTradeState ::
  "item_manager \<Rightarrow> (int \<Rightarrow> bool) \<Rightarrow> int \<Rightarrow> TradeSessionStruct \<Rightarrow> bool \<Rightarrow> trade_world \<Rightarrow> trade_world" where
  "sendTradeState im online client s isSideA w =
     (let ivm = tw_inv w;
          myChar = (if isSideA then ts_charAId s else ts_charBId s);
          theirChar = (if isSideA then ts_charBId s else ts_charAId s)
      in send online client (TradeState client
       \<lparr>tv_sessionId = ts_sessionId s,
        tv_myGold = (if isSideA then ts_goldA s else ts_goldB s),
        tv_theirGold = (if isSideA then ts_goldB s else ts_goldA s),
        tv_myGoldBalance = getGoldAmount im ivm myChar,
        tv_myItems = offer_views im ivm myChar (if isSideA then ts_offerA s else ts_offerB s),
        tv_theirItems = offer_views im ivm theirChar (if isSideA then ts_offerB s else ts_offerA s),
        tv_myConfirmed = (if isSideA then ts_confirmedA s else ts_confirmedB s),
        tv_theirConfirmed = (if isSideA then ts_confirmedB s else ts_confirmedA s)\<rparr>) w)"

definition notify_both ::
  "item_manager \<Rightarrow> (int \<Rightarrow> bool) \<Rightarrow> TradeSessionStruct \<Rightarrow> trade_world \<Rightarrow> trade_world" where
  "notify_both im online s w =
     sendTradeState im online (ts_clientBId s) s False (sendTradeState im online (ts_clientAId s) s True w)"

definition cancelAndNotify ::
  "(int \<Rightarrow> bool) \<Rightarrow> string \<Rightarrow> int \<Rightarrow> int \<Rightarrow> string \<Rightarrow> trade_world \<Rightarrow> trade_world" where
  "cancelAndNotify online sid clientA clientB reason w =
     (let w1 = send online clientA (TradeCancelled clientA sid reason) w;
          w2 = send online clientB (TradeCancelled clientB sid reason) w1
      in w2\<lparr>tw_trade := closeSession sid (tw_trade w2)\<rparr>)"

definition handleTradeRequestEvent ::
  "(int \<Rightarrow> CharacterDataStruct) \<Rightarrow> float32 \<Rightarrow> (int \<Rightarrow> bool) \<Rightarrow> int \<Rightarrow> int \<Rightarrow> int \<Rightarrow> PositionStruct
   \<Rightarrow> trade_world \<Rightarrow> trade_world" where
  "handleTradeRequestEvent chars tradeRange online client c target pos w =
     (let fail = (\<lambda>e. send online client (TradeError client e) w) in
      if \<not> online client then w
      else if ch_isDead (chars c) then fail ''cannot_trade_while_dead''
      else if getSessionByCharacter (tw_trade w) c \<noteq> None then fail ''already_in_trade''
      else if ch_characterId (chars target) = 0 then fail ''target_not_found''
      else if \<not> isPlayerInRange pos (ch_characterPosition (chars target)) tradeRange then fail ''out_of_range''
      else if getSessionByCharacter (tw_trade w) target \<noteq> None then fail ''target_busy''
      else if \<not> online (ch_clientId (chars target)) then fail ''target_offline''
      else send online client (InviteSent client target)
             (send online (ch_clientId (chars target)) (TradeInvite (ch_clientId (chars target)) c) w))"

text \<open>The accepting client names the initiator's character id in the session id field.\<close>

definition initiator_of :: "string \<Rightarrow> int" where
  "initiator_of sid = (case stoi sid of Some i \<Rightarrow> i | None \<Rightarrow> 0)"

definition handleTradeAcceptEvent ::
  "(int \<Rightarrow> CharacterDataStruct) \<Rightarrow> item_manager \<Rightarrow> (int \<Rightarrow> bool) \<Rightarrow> int \<Rightarrow> int \<Rightarrow> int \<Rightarrow> string
   \<Rightarrow> trade_world \<Rightarrow> trade_world" where
  "handleTradeAcceptEvent chars im online now client c sid w =
     (let initiator = initiator_of sid in
      if \<not> online client then w
      else if initiator = 0 then send online client (TradeError client ''invalid_session'') w
      else if ch_characterId (chars initiator) = 0
      then send online client (TradeError client ''initiator_not_found'') w
      else
        let (s, tm) = createSession (ch_clientId (chars initiator)) initiator client c now (tw_trade w)
        in notify_both im online s (w\<lparr>tw_trade := tm\<rparr>))"

definition handleTradeDeclineEvent ::
  "(int \<Rightarrow> CharacterDataStruct) \<Rightarrow> (int \<Rightarrow> bool) \<Rightarrow> int \<Rightarrow> string \<Rightarrow> trade_world \<Rightarrow> trade_world" where
  "handleTradeDeclineEvent chars online c sid w =
     (let initiator = initiator_of sid; client = ch_clientId (chars initiator) in
      if 0 < initiator then send online client (TradeDeclined client c) w else w)"

text \<open>An offered row must be owned, large enough, not equipped and tradable.\<close>

definition offer_ok ::
  "item_manager \<Rightarrow> inventory_manager \<Rightarrow> int \<Rightarrow> TradeOfferItemStruct \<Rightarrow> bool" where
  "offer_ok im ivm c oi \<longleftrightarrow>
     list_ex (\<lambda>r. pi_id r = to_inventoryItemId oi \<and> to_quantity oi \<le> pi_quantity r \<and> \<not> pi_isEquipped r
        \<and> it_isTradable (getItemById im (pi_itemId r))) (getPlayerInventory ivm c)"

definition handleTradeOfferUpdateEvent ::
  "item_manager \<Rightarrow> (int \<Rightarrow> bool) \<Rightarrow> int \<Rightarrow> int \<Rightarrow> int \<Rightarrow> string \<Rightarrow> TradeOfferItemStruct list \<Rightarrow> int
   \<Rightarrow> trade_world \<Rightarrow> trade_world" where
  "handleTradeOfferUpdateEvent im online now client c sid items gold w =
     (let fail = (\<lambda>e. send online client (TradeError client e) w) in
      if \<not> online client then w
      else case getSession (tw_trade w) sid of
        None \<Rightarrow> fail ''session_not_found''
      | Some s \<Rightarrow>
        if ts_charAId s \<noteq> c \<and> ts_charBId s \<noteq> c then fail ''not_in_session''
        else if \<not> list_all (offer_ok im (tw_inv w) c) items then fail ''invalid_offer_item''
        else
          let s1 = (if ts_charAId s = c
                    then s\<lparr>ts_offerA := items, ts_goldA := gold, ts_confirmedA := False\<rparr>
                    else s\<lparr>ts_offerB := items, ts_goldB := gold, ts_confirmedB := False\<rparr>);
              s2 = s1\<lparr>ts_lastActivity := now\<rparr>
          in notify_both im online s2 (w\<lparr>tw_trade := put_session sid s2 (tw_trade w)\<rparr>))"

section \<open>Executing a trade\<close>

definition validateOfferor ::
  "inventory_manager \<Rightarrow> int \<Rightarrow> int \<Rightarrow> TradeOfferItemStruct list \<Rightarrow> int \<Rightarrow> bool" where
  "validateOfferor ivm goldId c offer gold \<longleftrightarrow>
     list_all (\<lambda>oi. list_ex (\<lambda>r. pi_id r = to_inventoryItemId oi \<and> to_quantity oi \<le> pi_quantity r
        \<and> \<not> pi_isEquipped r) (getPlayerInventory ivm c)) offer
     \<and> \<not> (0 < gold \<and> getItemQuantity ivm c goldId < gold)"

definition transfer_item :: "int \<Rightarrow> int \<Rightarrow> TradeOfferItemStruct \<Rightarrow> trade_world \<Rightarrow> trade_world" where
  "transfer_item fromChar toChar oi w =
     (case find (\<lambda>r. pi_id r = to_inventoryItemId oi) (getPlayerInventory (tw_inv w) fromChar) of
        None \<Rightarrow> w
      | Some r \<Rightarrow>
        let ivm1 = evictFromMemory fromChar (to_inventoryItemId oi) (tw_inv w);
            transferred = r\<lparr>pi_characterId := toChar, pi_slotIndex := -1, pi_isEquipped := False\<rparr>
        in w\<lparr>tw_inv := addInstancedItemToInventory toChar transferred ivm1,
             tw_out := tw_out w @ [TransferInventoryItem fromChar toChar (to_inventoryItemId oi)]\<rparr>)"

definition transfer_gold ::
  "item_manager \<Rightarrow> int \<Rightarrow> int \<Rightarrow> int \<Rightarrow> int \<Rightarrow> inventory_manager \<Rightarrow> inventory_manager" where
  "transfer_gold im goldId fromChar toChar gold ivm =
     (if 0 < gold then
        snd (addItemToInventory im toChar goldId gold (snd (removeItemFromInventory fromChar goldId gold ivm)))
      else ivm)"

definition executeTransfer ::
  "item_manager \<Rightarrow> int \<Rightarrow> int \<Rightarrow> int \<Rightarrow> TradeOfferItemStruct list \<Rightarrow> int \<Rightarrow> trade_world \<Rightarrow> trade_world" where
  "executeTransfer im goldId fromChar toChar offer gold w =
     (let w1 = fold (transfer_item fromChar toChar) offer w
      in w1\<lparr>tw_inv := transfer_gold im goldId fromChar toChar gold (tw_inv w1)\<rparr>)"

definition complete_trade ::
  "item_manager \<Rightarrow> (int \<Rightarrow> bool) \<Rightarrow> string \<Rightarrow> int \<Rightarrow> TradeSessionStruct \<Rightarrow> trade_world \<Rightarrow> trade_world" where
  "complete_trade im online sid goldId s w =
     (let w1 = executeTransfer im goldId (ts_charAId s) (ts_charBId s) (ts_offerA s) (ts_goldA s) w;
          w2 = executeTransfer im goldId (ts_charBId s) (ts_charAId s) (ts_offerB s) (ts_goldB s) w1;
          w3 = send online (ts_clientAId s) (TradeComplete (ts_clientAId s) sid) w2;
          w4 = send online (ts_clientBId s) (TradeComplete (ts_clientBId s) sid) w3
      in w4\<lparr>tw_trade := closeSession sid (tw_trade w4)\<rparr>)"

definition handleTradeConfirmEvent ::
  "item_manager \<Rightarrow> (int \<Rightarrow> bool) \<Rightarrow> int \<Rightarrow> int \<Rightarrow> int \<Rightarrow> string \<Rightarrow> trade_world \<Rightarrow> trade_world" where
  "handleTradeConfirmEvent im online now client c sid w =
     (let fail = (\<lambda>e. send online client (TradeError client e) w) in
      if \<not> online client then w
      else case getSession (tw_trade w) sid of
        None \<Rightarrow> fail ''session_not_found''
      | Some s0 \<Rightarrow>
        if ts_charAId s0 \<noteq> c \<and> ts_charBId s0 \<noteq> c then fail ''not_in_session''
        else
          let s1 = (if ts_charAId s0 = c then s0\<lparr>ts_confirmedA := True\<rparr> else s0\<lparr>ts_confirmedB := True\<rparr>);
              s = s1\<lparr>ts_lastActivity := now\<rparr>;
              w0 = w\<lparr>tw_trade := put_session sid s (tw_trade w)\<rparr>
          in if ts_confirmedA s \<and> ts_confirmedB s then
               (case getItemBySlug im ''gold_coin'' of
                  None \<Rightarrow> cancelAndNotify online sid (ts_clientAId s) (ts_clientBId s) ''server_error'' w0
                | Some goldItem \<Rightarrow>
                  if \<not> validateOfferor (tw_inv w0) (it_id goldItem) (ts_charAId s) (ts_offerA s) (ts_goldA s)
                     \<or> \<not> validateOfferor (tw_inv w0) (it_id goldItem) (ts_charBId s) (ts_offerB s) (ts_goldB s)
                  then cancelAndNotify online sid (ts_clientAId s) (ts_clientBId s) ''offer_no_longer_valid'' w0
                  else complete_trade im online sid (it_id goldItem) s w0)
             else notify_both im online s w0)"

definition handleTradeCancelEvent :: "(int \<Rightarrow> bool) \<Rightarrow> string \<Rightarrow> trade_world \<Rightarrow> trade_world" where
  "handleTradeCancelEvent online sid w =
     (case getSession (tw_trade w) sid of None \<Rightarrow> w
      | Some s \<Rightarrow> cancelAndNotify online sid (ts_clientAId s) (ts_clientBId s) ''cancelled_by_player'' w)"

section \<open>What a trade moves\<close>

lemma getPlayerInventory_rows [simp]: "getPlayerInventory s c = rows s c"
  by (simp add: getPlayerInventory_def)

text \<open>The persisted rows of the two players: row id and item of every row with a database id.\<close>

definition row_keys :: "PlayerInventoryItemStruct list \<Rightarrow> (int \<times> int) multiset" where
  "row_keys v = filter_mset (\<lambda>k. fst k \<noteq> 0) (mset (map (\<lambda>r. (pi_id r, pi_itemId r)) v))"

definition pair_keys :: "inventory_manager \<Rightarrow> int \<Rightarrow> int \<Rightarrow> (int \<times> int) multiset" where
  "pair_keys s a b = row_keys (rows s a) + row_keys (rows s b)"

definition unique_ids :: "(int \<times> int) multiset \<Rightarrow> bool" where
  "unique_ids K \<longleftrightarrow> (\<forall>k. count (image_mset fst K) k \<le> 1)"

lemma row_keys_simps [simp]:
  "row_keys [] = {#}"
  "row_keys (r # v) = (if pi_id r = 0 then {#} else {#(pi_id r, pi_itemId r)#}) + row_keys v"
  "row_keys (v @ w) = row_keys v + row_keys w"
  by (simp_all add: row_keys_def)

lemma unique_ids_mono: "K \<subseteq># K' \<Longrightarrow> unique_ids K' \<Longrightarrow> unique_ids K"
  unfolding unique_ids_def by (meson image_mset_subseteq_mono le_trans mset_subset_eq_count)

lemma row_key_count: "k \<noteq> 0 \<Longrightarrow> count (image_mset fst (row_keys v)) k = length (filter (\<lambda>r. pi_id r = k) v)"
  by (induction v) auto

lemma find_unique:
  assumes "find P v = Some r" "length (filter P v) \<le> 1"
  obtains xs ys where "v = xs @ r # ys" "filter (\<lambda>x. \<not> P x) v = xs @ ys"
proof -
  have "\<exists>xs ys. v = xs @ r # ys \<and> filter (\<lambda>x. \<not> P x) v = xs @ ys"
    using assms
  proof (induction v)
    case (Cons x v)
    show ?case
    proof (cases "P x")
      case True
      with Cons.prems have "filter P v = []" by simp
      then have "filter (\<lambda>x. \<not> P x) v = v" by (simp add: filter_empty_conv filter_id_conv)
      with True Cons.prems(1) show ?thesis by (auto intro: exI[of _ "[]"])
    next
      case False
      with Cons obtain xs ys where "v = xs @ r # ys" "filter (\<lambda>x. \<not> P x) v = xs @ ys" by auto
      with False show ?thesis by (intro exI[of _ "x # xs"] exI[of _ ys]) simp
    qed
  qed simp
  with that show ?thesis by blast
qed

text \<open>Moving row \<open>r\<close> from \<open>a\<close> to \<open>b\<close>.\<close>

lemma evict_rows: "rows (evictFromMemory c rid s) c' =
    (if c' = c then filter (\<lambda>r. pi_id r \<noteq> rid) (rows s c) else rows s c')"
  by (auto simp: evictFromMemory_def inv_simps split: option.split) (simp_all add: rows_def)

lemma addInstanced_rows: "rows (addInstancedItemToInventory c r s) c' =
    (if c' = c then filter (\<lambda>x. pi_id x \<noteq> pi_id r) (rows s c) @ [r] else rows s c')"
  by (simp add: addInstancedItemToInventory_def inv_simps)

text \<open>The invariant of the transfer loops: the two inventories are well formed, what the two
  own together is \<open>T\<close>, and their persisted rows are among \<open>K\<close>.\<close>

definition pair_inv ::
  "int \<Rightarrow> int \<Rightarrow> (int \<Rightarrow> int) \<Rightarrow> (int \<times> int) multiset \<Rightarrow> inventory_manager \<Rightarrow> inventory_manager \<Rightarrow> bool" where
  "pair_inv a b T K s0 s \<longleftrightarrow> wf_inventory s \<and> (\<forall>i. qty s a i + qty s b i = T i)
     \<and> pair_keys s a b \<subseteq># K \<and> (\<forall>c. c \<noteq> a \<longrightarrow> c \<noteq> b \<longrightarrow> rows s c = rows s0 c)"

lemma pair_inv_swap: "pair_inv a b T K s0 s = pair_inv b a T K s0 s"
  by (auto simp: pair_inv_def pair_keys_def add.commute)

lemma transfer_item_keeps:
  assumes ab: "a \<noteq> b" and P: "pair_inv a b T K s0 (tw_inv w)" and T: "\<forall>i. T i < INT_LIM"
    and K: "unique_ids K" and k: "to_inventoryItemId oi \<noteq> 0"
    and nongold: "\<forall>x. x \<in># K \<longrightarrow> fst x = to_inventoryItemId oi \<longrightarrow> snd x \<noteq> g"
  shows "pair_inv a b T K s0 (tw_inv (transfer_item a b oi w))"
    and "qty (tw_inv (transfer_item a b oi w)) a g = qty (tw_inv w) a g"
    and "qty (tw_inv (transfer_item a b oi w)) b g = qty (tw_inv w) b g"
proof -
  define s where "s = tw_inv w"
  define k where "k = to_inventoryItemId oi"
  have P: "wf_inventory s" "\<And>i. qty s a i + qty s b i = T i" "pair_keys s a b \<subseteq># K"
    "\<And>c. c \<noteq> a \<Longrightarrow> c \<noteq> b \<Longrightarrow> rows s c = rows s0 c"
    using P by (auto simp: pair_inv_def s_def)
  have *: "pair_inv a b T K s0 (tw_inv (transfer_item a b oi w)) \<and>
     qty (tw_inv (transfer_item a b oi w)) a g = qty s a g \<and>
     qty (tw_inv (transfer_item a b oi w)) b g = qty s b g"
  proof (cases "find (\<lambda>r. pi_id r = k) (rows s a)")
    case None
    then show ?thesis using P by (simp add: transfer_item_def pair_inv_def s_def k_def)
  next
    case (Some r)
    have rid: "pi_id r = k" "r \<in> set (rows s a)" using find_SomeD[OF Some] by auto
    have cnt: "length (filter (\<lambda>r. pi_id r = k) (rows s a)) + length (filter (\<lambda>r. pi_id r = k) (rows s b)) \<le> 1"
      using unique_ids_mono[OF P(3) K] \<open>to_inventoryItemId oi \<noteq> 0\<close>
      by (auto simp: unique_ids_def pair_keys_def row_key_count k_def dest: spec[of _ k])
    then obtain xs ys where v: "rows s a = xs @ r # ys" "filter (\<lambda>r. pi_id r \<noteq> k) (rows s a) = xs @ ys"
      using find_unique[OF Some] by auto
    have "length (filter (\<lambda>r. pi_id r = k) (rows s b)) = 0" using cnt v rid by simp
    then have b: "filter (\<lambda>r. pi_id r \<noteq> k) (rows s b) = rows s b" by (simp add: filter_empty_conv filter_id_conv)
    define r' where "r' = r\<lparr>pi_characterId := b, pi_slotIndex := -1, pi_isEquipped := False\<rparr>"
    define s1 where "s1 = evictFromMemory a k s"
    define s2 where "s2 = addInstancedItemToInventory b r' s1"
    have r': "pi_id r' = k" "pi_itemId r' = pi_itemId r" "pi_quantity r' = pi_quantity r" "pi_characterId r' = b"
      by (simp_all add: r'_def rid)
    have w': "tw_inv (transfer_item a b oi w) = s2"
      using Some by (simp add: transfer_item_def s2_def s1_def r'_def s_def k_def Let_def)
    have rows2: "rows s2 c = (if c = a then xs @ ys else if c = b then rows s b @ [r'] else rows s c)" for c
      using ab v(2) b r'(1) by (auto simp: s2_def s1_def addInstanced_rows evict_rows)
    have qa: "qty s a i = rows_qty i (xs @ ys) + (if pi_itemId r = i then pi_quantity r else 0)" for i
      by (simp add: qty_def v(1))
    have q1: "qty s1 b i = qty s b i" for i using ab by (simp add: qty_def s1_def evict_rows)
    have nn: "0 \<le> rows_qty i (xs @ ys)" for i
      using qty_nonneg[OF evict_wf[OF P(1)], of a k a i] by (simp add: qty_def evict_rows v(2))
    have "wf_inventory s1" by (simp add: s1_def evict_wf P(1))
    moreover have "qty s b (pi_itemId r) + pi_quantity r < INT_LIM"
    proof -
      have "qty s a (pi_itemId r) = rows_qty (pi_itemId r) (xs @ ys) + pi_quantity r"
        by (simp only: qa refl if_True)
      then have "qty s b (pi_itemId r) + pi_quantity r \<le> T (pi_itemId r)"
        using P(2)[of "pi_itemId r"] nn[of "pi_itemId r"] by linarith
      then show ?thesis using T by (meson order_le_less_trans)
    qed
    moreover have "0 < pi_quantity r" using wf_rows_row(1)[OF wf_inventory_rows[OF P(1)] rid(2)] .
    ultimately have "wf_inventory s2" by (simp add: s2_def addInstanced_wf r' q1)
    moreover have "qty s2 a i + qty s2 b i = T i" for i
      using P(2)[of i] qa[of i] ab by (simp add: qty_def rows2 r' split: if_splits)
    moreover have "pair_keys s2 a b = pair_keys s a b"
      using ab k by (simp add: pair_keys_def rows2 v(1) r' rid k_def)
    moreover have "pi_itemId r \<noteq> g"
    proof -
      have "(k, pi_itemId r) \<in># pair_keys s a b" using k by (simp add: pair_keys_def v(1) rid k_def)
      with P(3) have "(k, pi_itemId r) \<in># K" by (rule mset_subset_eqD)
      with nongold show ?thesis by (auto simp: k_def)
    qed
    ultimately show ?thesis
      using P(3,4) qa[of g] by (simp add: w' pair_inv_def rows2) (simp add: qty_def rows2 r' ab)
  qed
  then show "pair_inv a b T K s0 (tw_inv (transfer_item a b oi w))"
    "qty (tw_inv (transfer_item a b oi w)) a g = qty (tw_inv w) a g"
    "qty (tw_inv (transfer_item a b oi w)) b g = qty (tw_inv w) b g" by (simp_all add: s_def)
qed

lemma row_keys_upd: "(\<And>r. pi_id (f r) = pi_id r) \<Longrightarrow> (\<And>r. pi_itemId (f r) = pi_itemId r)
   \<Longrightarrow> row_keys (upd_first P f v) = row_keys v"
  by (induction v) auto

lemma row_keys_added: "row_keys (added_rows b c i n v) = row_keys v"
proof -
  have "row_keys (upd_first P (\<lambda>_. r\<lparr>pi_quantity := q\<rparr>) v) = row_keys v" if "find P v = Some r" for P r q
    using that by (induction v) (auto split: if_splits)
  then show ?thesis by (auto simp: added_rows_def default_inv_item_def split: bool.splits option.splits)
qed

lemma row_keys_remove_loop:
  "remove_loop i n l f v = (v', l', f') \<Longrightarrow> row_keys v' \<subseteq># row_keys v"
proof (induction i n l f v arbitrary: v' l' f' rule: remove_loop.induct)
  case (2 i n l f r v)
  have weaken: "M \<subseteq># N \<Longrightarrow> M \<subseteq># {#x#} + N" for M N and x :: "int \<times> int"
    by (rule subset_mset.order_trans[OF _ mset_subset_eq_add_right])
  consider "n \<le> 0" | "0 < n" "pi_itemId r \<noteq> i" | "0 < n" "pi_itemId r = i" by linarith
  then show ?case
  proof cases
    case 1 with 2 show ?thesis by simp
  next
    case 2 with "2.prems" "2.IH"(1) show ?thesis by (auto split: prod.splits)
  next
    case 3 with "2.prems" "2.IH"(2)[OF _ _ refl refl] show ?thesis
      by (auto simp: Let_def split: prod.splits if_splits intro: weaken[simplified])
  qed
qed simp

lemma remove_keys: "row_keys (rows (snd (removeItemFromInventory c i n s)) c') \<subseteq># row_keys (rows s c')"
proof (cases "fst (removeItemFromInventory c i n s)")
  case True
  then obtain v l f where rl: "remove_loop i n 0 0 (rows s c) = (v, l, f)"
    and pl: "iv_players (snd (removeItemFromInventory c i n s)) = (iv_players s)(c \<mapsto> v)"
    by (rule remove_players)
  show ?thesis using row_keys_remove_loop[OF rl] by (simp add: rows_def[of "snd _"] pl) (simp add: rows_def)
qed (simp add: remove_refused)

lemma add_keys: "row_keys (rows (snd (addItemToInventory im c i n s)) c') = row_keys (rows s c')"
  by (cases "fst (addItemToInventory im c i n s)") (simp_all add: add_rows row_keys_added add_refused)

lemma add_frame: "c' \<noteq> c \<Longrightarrow> rows (snd (addItemToInventory im c i n s)) c' = rows s c'"
  by (cases "fst (addItemToInventory im c i n s)") (simp_all add: add_rows add_refused)

lemma remove_frame: "c' \<noteq> c \<Longrightarrow> rows (snd (removeItemFromInventory c i n s)) c' = rows s c'"
proof (cases "fst (removeItemFromInventory c i n s)")
  case True
  then obtain v where "iv_players (snd (removeItemFromInventory c i n s)) = (iv_players s)(c \<mapsto> v)"
    by (rule remove_players)
  then show "c' \<noteq> c \<Longrightarrow> ?thesis" by (simp add: rows_def)
qed (simp add: remove_refused)

lemma transfer_gold_keeps:
  assumes ab: "a \<noteq> b" and P: "pair_inv a b T K s0 s" and T: "\<forall>i. T i < INT_LIM"
    and g: "it_id (getItemById im g) \<noteq> 0" and gold: "gold \<le> qty s a g"
  defines "s' \<equiv> transfer_gold im g a b gold s"
  shows "pair_inv a b T K s0 s'" "qty s' a g = qty s a g - max 0 gold" "qty s' b g = qty s b g + max 0 gold"
proof -
  have P: "wf_inventory s" "\<And>i. qty s a i + qty s b i = T i" "pair_keys s a b \<subseteq># K"
    "\<And>c. c \<noteq> a \<Longrightarrow> c \<noteq> b \<Longrightarrow> rows s c = rows s0 c"
    using P by (auto simp: pair_inv_def)
  have *: "pair_inv a b T K s0 s' \<and> qty s' a g = qty s a g - max 0 gold \<and> qty s' b g = qty s b g + max 0 gold"
  proof (cases "0 < gold")
    case True
    define s1 where "s1 = snd (removeItemFromInventory a g gold s)"
    have s': "s' = snd (addItemToInventory im b g gold s1)" using True by (simp add: s'_def transfer_gold_def s1_def)
    have bound: "qty s b g + gold < INT_LIM" using P(2)[of g] gold T[rule_format, of g] by linarith
    note tr = bag.transfer[OF P(1) True gold, of im b, folded s1_def s', OF g ab bound]
    have "qty s' a i + qty s' b i = T i" for i
      using tr(2,3) tr(4)[of a i] tr(4)[of b i] P(2)[of i] by (cases "i = g") (auto simp: s')
    moreover have "pair_keys s' a b \<subseteq># K"
      by (rule subset_mset.order_trans[OF _ P(3)])
        (simp add: pair_keys_def s' add_keys s1_def remove_keys subset_mset.add_mono)
    moreover have "rows s' c = rows s0 c" if "c \<noteq> a" "c \<noteq> b" for c
      using that P(4) by (simp add: s' s1_def add_frame remove_frame)
    ultimately show ?thesis using tr(1-3) True by (simp add: pair_inv_def s')
  qed (use P in \<open>simp_all add: s'_def transfer_gold_def pair_inv_def\<close>)
  then show "pair_inv a b T K s0 s'" "qty s' a g = qty s a g - max 0 gold" "qty s' b g = qty s b g + max 0 gold"
    by simp_all
qed

text \<open>The rows an offer names are persisted and are not gold.\<close>

definition plain_offer :: "int \<Rightarrow> (int \<times> int) multiset \<Rightarrow> TradeOfferItemStruct list \<Rightarrow> bool" where
  "plain_offer g K offer \<longleftrightarrow> (\<forall>oi\<in>set offer. to_inventoryItemId oi \<noteq> 0 \<and>
     (\<forall>x. x \<in># K \<longrightarrow> fst x = to_inventoryItemId oi \<longrightarrow> snd x \<noteq> g))"

lemma transfer_items_keep:
  assumes "a \<noteq> b" "pair_inv a b T K s0 (tw_inv w)" "\<forall>i. T i < INT_LIM" "unique_ids K" "plain_offer g K offer"
  shows "pair_inv a b T K s0 (tw_inv (fold (transfer_item a b) offer w))
    \<and> qty (tw_inv (fold (transfer_item a b) offer w)) a g = qty (tw_inv w) a g
    \<and> qty (tw_inv (fold (transfer_item a b) offer w)) b g = qty (tw_inv w) b g"
  using assms(2,5)
proof (induction offer arbitrary: w)
  case (Cons oi offer)
  have oi: "to_inventoryItemId oi \<noteq> 0"
    "\<forall>x. x \<in># K \<longrightarrow> fst x = to_inventoryItemId oi \<longrightarrow> snd x \<noteq> g" "plain_offer g K offer"
    using Cons.prems(2) by (simp_all add: plain_offer_def)
  note step = transfer_item_keeps[OF assms(1) Cons.prems(1) assms(3,4) oi(1,2)]
  show ?case using Cons.IH[OF step(1) oi(3)] step(2,3) by simp
qed simp

lemma executeTransfer_keeps:
  assumes "a \<noteq> b" "pair_inv a b T K s0 (tw_inv w)" "\<forall>i. T i < INT_LIM" "unique_ids K" "plain_offer g K offer"
    "it_id (getItemById im g) \<noteq> 0" "gold \<le> qty (tw_inv w) a g"
  defines "w' \<equiv> executeTransfer im g a b offer gold w"
  shows "pair_inv a b T K s0 (tw_inv w')"
    "qty (tw_inv w') a g = qty (tw_inv w) a g - max 0 gold"
    "qty (tw_inv w') b g = qty (tw_inv w) b g + max 0 gold"
proof -
  note it = transfer_items_keep[OF assms(1-5)]
  have "gold \<le> qty (tw_inv (fold (transfer_item a b) offer w)) a g" using it assms(7) by simp
  note gt = transfer_gold_keeps[OF assms(1) conjunct1[OF it] assms(3,6) this]
  show "pair_inv a b T K s0 (tw_inv w')" using gt(1) by (simp add: w'_def executeTransfer_def Let_def)
  show "qty (tw_inv w') a g = qty (tw_inv w) a g - max 0 gold" "qty (tw_inv w') b g = qty (tw_inv w) b g + max 0 gold"
    using gt(2,3) it by (simp_all add: w'_def executeTransfer_def Let_def)
qed

lemma send_keeps [simp]:
  "tw_inv (send online c p w) = tw_inv w" "tw_trade (send online c p w) = tw_trade w"
  by (simp_all add: send_def)

lemma notify_keeps [simp]:
  "tw_inv (notify_both im online s w) = tw_inv w" "tw_trade (notify_both im online s w) = tw_trade w"
  by (simp_all add: notify_both_def sendTradeState_def Let_def)

lemma cancel_keeps [simp]:
  "tw_inv (cancelAndNotify online sid a b r w) = tw_inv w"
  "tw_trade (cancelAndNotify online sid a b r w) = closeSession sid (tw_trade w)"
  by (simp_all add: cancelAndNotify_def Let_def)

lemma transfer_items_trade [simp]: "tw_trade (fold (transfer_item a b) offer w) = tw_trade w"
  by (induction offer arbitrary: w) (auto simp: transfer_item_def Let_def split: option.split)

lemma complete_keeps [simp]:
  "tw_trade (complete_trade im online sid g s w) = closeSession sid (tw_trade w)"
  by (simp add: complete_trade_def executeTransfer_def Let_def)

lemma complete_inv:
  "tw_inv (complete_trade im online sid g s w) =
     tw_inv (executeTransfer im g (ts_charBId s) (ts_charAId s) (ts_offerB s) (ts_goldB s)
       (executeTransfer im g (ts_charAId s) (ts_charBId s) (ts_offerA s) (ts_goldA s) w))"
  by (simp add: complete_trade_def Let_def)

text \<open>The session once player \<open>c\<close> has confirmed it.\<close>

definition confirmed_by :: "int \<Rightarrow> int \<Rightarrow> TradeSessionStruct \<Rightarrow> TradeSessionStruct" where
  "confirmed_by c now s =
     (if ts_charAId s = c then s\<lparr>ts_confirmedA := True\<rparr> else s\<lparr>ts_confirmedB := True\<rparr>)\<lparr>ts_lastActivity := now\<rparr>"

lemma confirmed_by_simps [simp]:
  "ts_sessionId (confirmed_by c now s) = ts_sessionId s" "ts_charAId (confirmed_by c now s) = ts_charAId s"
  "ts_charBId (confirmed_by c now s) = ts_charBId s" "ts_offerA (confirmed_by c now s) = ts_offerA s"
  "ts_offerB (confirmed_by c now s) = ts_offerB s" "ts_goldA (confirmed_by c now s) = ts_goldA s"
  "ts_goldB (confirmed_by c now s) = ts_goldB s"
  by (simp_all add: confirmed_by_def)

text \<open>The trade goes through: both have confirmed and both offers are still valid.\<close>

definition goes_through :: "item_manager \<Rightarrow> inventory_manager \<Rightarrow> TradeSessionStruct \<Rightarrow> int \<Rightarrow> bool" where
  "goes_through im ivm s g \<longleftrightarrow> ts_confirmedA s \<and> ts_confirmedB s \<and>
     (\<exists>gi. getItemBySlug im ''gold_coin'' = Some gi \<and> it_id gi = g) \<and>
     validateOfferor ivm g (ts_charAId s) (ts_offerA s) (ts_goldA s) \<and>
     validateOfferor ivm g (ts_charBId s) (ts_offerB s) (ts_goldB s)"

lemma confirm_eq:
  assumes "getSession (tw_trade w) sid = Some s" "online client" "c \<in> session_members s"
    and "s' = confirmed_by c now s" and "w0 = w\<lparr>tw_trade := put_session sid s' (tw_trade w)\<rparr>"
  shows "handleTradeConfirmEvent im online now client c sid w =
    (if ts_confirmedA s' \<and> ts_confirmedB s' then
       (case getItemBySlug im ''gold_coin'' of
          None \<Rightarrow> cancelAndNotify online sid (ts_clientAId s') (ts_clientBId s') ''server_error'' w0
        | Some goldItem \<Rightarrow>
          if \<not> validateOfferor (tw_inv w) (it_id goldItem) (ts_charAId s) (ts_offerA s) (ts_goldA s)
             \<or> \<not> validateOfferor (tw_inv w) (it_id goldItem) (ts_charBId s) (ts_offerB s) (ts_goldB s)
          then cancelAndNotify online sid (ts_clientAId s') (ts_clientBId s') ''offer_no_longer_valid'' w0
          else complete_trade im online sid (it_id goldItem) s' w0)
     else notify_both im online s' w0)"
proof -
  have mem: "(ts_charAId s \<noteq> c \<and> ts_charBId s \<noteq> c) = False" using assms(3) by (auto simp: session_members_def)
  show ?thesis
    unfolding handleTradeConfirmEvent_def Let_def confirmed_by_def[symmetric] assms(1) option.case(2) mem if_False
    using assms(2) by (simp add: assms(4,5) split: option.split)
qed

lemma confirm_outside:
  assumes "getSession (tw_trade w) sid = Some s" "\<not> (online client \<and> c \<in> session_members s)"
  shows "tw_inv (handleTradeConfirmEvent im online now client c sid w) = tw_inv w"
  using assms by (auto simp: handleTradeConfirmEvent_def session_members_def Let_def)

lemma confirm_cases:
  fixes c now client :: int and online :: "int \<Rightarrow> bool" and im :: item_manager
  assumes "getSession (tw_trade w) sid = Some s"
  defines "s' \<equiv> confirmed_by c now s"
  defines "w0 \<equiv> w\<lparr>tw_trade := put_session sid s' (tw_trade w)\<rparr>"
  defines "out \<equiv> handleTradeConfirmEvent im online now client c sid w"
  obtains (through) g where "goes_through im (tw_inv w) s' g" "online client" "c \<in> session_members s"
      "out = complete_trade im online sid g s' w0"
  | (not_through) "\<nexists>g. goes_through im (tw_inv w) s' g \<and> online client \<and> c \<in> session_members s" "tw_inv out = tw_inv w"
proof (cases "\<exists>g. goes_through im (tw_inv w) s' g \<and> online client \<and> c \<in> session_members s")
  case True
  then obtain g gi where g: "goes_through im (tw_inv w) s' g" "online client" "c \<in> session_members s"
    "getItemBySlug im ''gold_coin'' = Some gi" "it_id gi = g" by (auto simp: goes_through_def)
  note eq = confirm_eq[where im = im and online = online and client = client, OF assms(1) g(2,3) meta_eq_to_obj_eq[OF s'_def] meta_eq_to_obj_eq[OF w0_def], folded out_def]
  have "out = complete_trade im online sid g s' w0"
    using g(1,4,5) unfolding eq by (simp add: goes_through_def s'_def)
  with g show thesis by (intro through)
next
  case False
  have "tw_inv out = tw_inv w"
  proof (cases "online client \<and> c \<in> session_members s")
    case True
    then have mem: "online client" "c \<in> session_members s" by simp_all
    note eq = confirm_eq[where im = im and online = online and client = client, OF assms(1) mem meta_eq_to_obj_eq[OF s'_def] meta_eq_to_obj_eq[OF w0_def], folded out_def]
    have w0: "tw_inv w0 = tw_inv w" by (simp add: w0_def)
    show ?thesis using False mem unfolding eq
      by (auto simp: goes_through_def s'_def w0 split: option.split)
  qed (simp add: out_def confirm_outside[OF assms(1)])
  with False show thesis by (intro not_through) auto
qed

text \<open>A trade of persisted, non-gold rows between two different players.\<close>

definition fair_trade :: "int \<Rightarrow> inventory_manager \<Rightarrow> TradeSessionStruct \<Rightarrow> bool" where
  "fair_trade g ivm s \<longleftrightarrow> (let a = ts_charAId s; b = ts_charBId s; K = pair_keys ivm a b in
     a \<noteq> b \<and> unique_ids K \<and> plain_offer g K (ts_offerA s) \<and> plain_offer g K (ts_offerB s)
     \<and> (\<forall>i. qty ivm a i + qty ivm b i < INT_LIM))"

lemma complete_trade_keeps:
  fixes online :: "int \<Rightarrow> bool" and sid :: string
  assumes im: "wf_items im" and wf: "wf_inventory (tw_inv w)"
    and go: "goes_through im (tw_inv w) s g" and fair: "fair_trade g (tw_inv w) s"
  defines "w' \<equiv> complete_trade im online sid g s w"
  defines "a \<equiv> ts_charAId s" and "b \<equiv> ts_charBId s"
  shows "pair_inv a b (\<lambda>i. qty (tw_inv w) a i + qty (tw_inv w) b i) (pair_keys (tw_inv w) a b) (tw_inv w) (tw_inv w')"
    and "qty (tw_inv w') a g = qty (tw_inv w) a g - max 0 (ts_goldA s) + max 0 (ts_goldB s)"
    and "qty (tw_inv w') b g = qty (tw_inv w) b g - max 0 (ts_goldB s) + max 0 (ts_goldA s)"
proof -
  define T where "T = (\<lambda>i. qty (tw_inv w) a i + qty (tw_inv w) b i)"
  define K where "K = pair_keys (tw_inv w) a b"
  have f: "a \<noteq> b" "unique_ids K" "plain_offer g K (ts_offerA s)" "plain_offer g K (ts_offerB s)" "\<forall>i. T i < INT_LIM"
    using fair by (simp_all add: fair_trade_def Let_def a_def b_def K_def T_def)
  obtain gi where "getItemBySlug im ''gold_coin'' = Some gi" "it_id gi = g"
    using go by (auto simp: goes_through_def)
  moreover from this have "gi \<in> set (map snd (im_items im))"
    unfolding getItemBySlug_def by (blast dest: find_SomeD)
  ultimately have "getItemById im g = gi" "(it_id gi, gi) \<in> set (im_items im)"
    using getItemBySlug_catalogued[OF im] im by (auto simp: wf_items_def list_all_iff)
  then have g: "it_id (getItemById im g) \<noteq> 0" using im by (auto simp: wf_items_def list_all_iff)
  have goldA: "ts_goldA s \<le> qty (tw_inv w) a g" and goldB: "ts_goldB s \<le> qty (tw_inv w) b g"
    using go qty_nonneg[OF wf, of a g] qty_nonneg[OF wf, of b g]
    by (auto simp: goes_through_def validateOfferor_def a_def b_def getItemQuantity_exact[OF wf])
  have P0: "pair_inv a b T K (tw_inv w) (tw_inv w)" using wf by (simp add: pair_inv_def T_def K_def)
  note one = executeTransfer_keeps[OF f(1) P0 f(5,2,3) g goldA]
  define w1 where "w1 = executeTransfer im g a b (ts_offerA s) (ts_goldA s) w"
  have P1: "pair_inv b a T K (tw_inv w) (tw_inv w1)" using one(1) pair_inv_swap by (simp add: w1_def)
  have "ts_goldB s \<le> qty (tw_inv w1) b g" using goldB one(3) by (simp add: w1_def)
  note two = executeTransfer_keeps[OF f(1)[symmetric] P1 f(5,2,4) g this]
  have w': "tw_inv w' = tw_inv (executeTransfer im g b a (ts_offerB s) (ts_goldB s) w1)"
    by (simp add: w'_def complete_inv w1_def a_def b_def)
  show "pair_inv a b (\<lambda>i. qty (tw_inv w) a i + qty (tw_inv w) b i) (pair_keys (tw_inv w) a b) (tw_inv w) (tw_inv w')"
    using two(1) pair_inv_swap by (simp add: w' T_def K_def)
  show "qty (tw_inv w') a g = qty (tw_inv w) a g - max 0 (ts_goldA s) + max 0 (ts_goldB s)"
    "qty (tw_inv w') b g = qty (tw_inv w) b g - max 0 (ts_goldB s) + max 0 (ts_goldA s)"
    using two(2,3) one(2,3) by (simp_all add: w' w1_def)
qed

section \<open>Runs\<close>

inductive trade_step :: "trade_world \<Rightarrow> trade_world \<Rightarrow> bool" where
  Request: "trade_step w (handleTradeRequestEvent chars tradeRange online client c target pos w)"
| Accept: "trade_step w (handleTradeAcceptEvent chars im online now client c sid w)"
| Decline: "trade_step w (handleTradeDeclineEvent chars online c sid w)"
| Offer: "trade_step w (handleTradeOfferUpdateEvent im online now client c sid items gold w)"
| Confirm: "trade_step w (handleTradeConfirmEvent im online now client c sid w)"
| Cancel: "trade_step w (handleTradeCancelEvent online sid w)"
| Disconnect: "trade_step w (w\<lparr>tw_trade := closeSessionByCharacter c (tw_trade w)\<rparr>)"
| Expire: "trade_step w (w\<lparr>tw_trade := cleanupExpiredSessions now (tw_trade w)\<rparr>)"

inductive trade_reachable :: "trade_world \<Rightarrow> bool" where
  start: "trade_reachable \<lparr>tw_trade = \<lparr>tm_sessions = [], tm_characterToSession = Map.empty\<rparr>,
     tw_inv = ivm, tw_out = []\<rparr>"
| step: "trade_reachable w \<Longrightarrow> trade_step w w' \<Longrightarrow> trade_reachable w'"

lemma accept_trade:
  "wf_trade (tw_trade w) \<Longrightarrow> wf_trade (tw_trade (handleTradeAcceptEvent chars im online now client c sid w))"
  by (auto simp: handleTradeAcceptEvent_def Let_def createSession_wf split: prod.splits)

lemma offer_trade:
  "wf_trade (tw_trade w) \<Longrightarrow> wf_trade (tw_trade (handleTradeOfferUpdateEvent im online now client c sid items gold w))"
  by (auto simp: handleTradeOfferUpdateEvent_def Let_def getSession_def split: option.splits
      intro!: put_session_wf)

lemma confirm_trade:
  assumes wf: "wf_trade (tw_trade w)"
  shows "wf_trade (tw_trade (handleTradeConfirmEvent im online now client c sid w))"
proof (cases "\<exists>s. getSession (tw_trade w) sid = Some s \<and> online client \<and> c \<in> session_members s")
  case True
  then obtain s where s: "getSession (tw_trade w) sid = Some s" "online client" "c \<in> session_members s" by blast
  have "wf_trade (put_session sid (confirmed_by c now s) (tw_trade w))"
    using s(1) by (intro put_session_wf[OF wf]) (simp_all add: getSession_def)
  then show ?thesis unfolding confirm_eq[where im = im and online = online and client = client, OF s refl refl]
    by (auto simp: closeSession_wf split: option.split)
next
  case False
  then show ?thesis using wf
    by (auto simp: handleTradeConfirmEvent_def Let_def session_members_def split: option.split)
qed

lemma trade_step_wf: "trade_step w w' \<Longrightarrow> wf_trade (tw_trade w) \<Longrightarrow> wf_trade (tw_trade w')"
proof (induction rule: trade_step.induct)
  case (Request w chars tradeRange online client c target pos)
  then show ?case by (simp add: handleTradeRequestEvent_def Let_def)
next
  case (Decline w chars online c sid)
  then show ?case by (simp add: handleTradeDeclineEvent_def Let_def)
next
  case (Cancel w online sid)
  then show ?case by (simp add: handleTradeCancelEvent_def closeSession_wf split: option.split)
qed (simp_all add: accept_trade offer_trade confirm_trade closeSessionByCharacter_wf cleanup_wf)

section \<open>Properties\<close>

definition sample_chars :: "int \<Rightarrow> CharacterDataStruct" where
  "sample_chars c = default_character\<lparr>ch_characterId := (if c \<in> {7, 8} then c else 0), ch_clientId := c + 100\<rparr>"

definition trade_start :: trade_world where
  "trade_start = \<lparr>tw_trade = \<lparr>tm_sessions = [], tm_characterToSession = Map.empty\<rparr>,
     tw_inv = sample_inv, tw_out = []\<rparr>"

text \<open>Player 8 accepts the invitation of player 7; 7 offers sword 12 and 8 offers 15 gold.\<close>

definition trade_opened :: trade_world where
  "trade_opened = handleTradeAcceptEvent sample_chars sample_items (\<lambda>_. True) 0 108 8 ''7'' trade_start"

definition sample_sid :: string where
  "sample_sid = trade_id 7 8 0"

definition sword_offer :: TradeOfferItemStruct where
  "sword_offer = \<lparr>to_inventoryItemId = 12, to_itemId = 2, to_quantity = 1\<rparr>"

definition trade_agreed :: trade_world where
  "trade_agreed =
     handleTradeConfirmEvent sample_items (\<lambda>_. True) 3 107 7 sample_sid
      (handleTradeOfferUpdateEvent sample_items (\<lambda>_. True) 2 108 8 sample_sid [] 15
        (handleTradeOfferUpdateEvent sample_items (\<lambda>_. True) 1 107 7 sample_sid [sword_offer] 0 trade_opened))"

text \<open>C9: In every reachable state a character is in at most one live trade, and looking a player
  up by character finds exactly the session he is in: both players of a live session are
  indexed to it, and an index entry that finds a session names one of its players.\<close>

theorem trade_sessions_invariant:
  assumes "trade_reachable w"
  shows "(getSession (tw_trade w) k = Some s \<longrightarrow> getSession (tw_trade w) k' = Some s' \<longrightarrow>
      session_members s \<inter> session_members s' \<noteq> {} \<longrightarrow> k = k') \<and>
    (getSession (tw_trade w) k = Some s \<longrightarrow> c \<in> session_members s \<longrightarrow> getSessionByCharacter (tw_trade w) c = Some s) \<and>
    (getSessionByCharacter (tw_trade w) c = Some s \<longrightarrow> c \<in> session_members s)"
proof -
  have wf: "wf_trade (tw_trade w)"
    using assms
  proof induction
    case (start ivm) show ?case by (simp add: wf_trade_def)
  qed (rule trade_step_wf)
  show ?thesis
    using trades.one_session[OF wf, of k s k' s'] trades.live_member[OF wf, of k s c]
      trades.by_character_live[OF wf, of c s] by blast
qed

theorem trade_sessions_invariant_witness:
  "trade_reachable trade_agreed \<and> getSessionByCharacter (tw_trade trade_agreed) 8 = getSession (tw_trade trade_agreed) sample_sid"
proof -
  have r: "trade_reachable trade_agreed"
    unfolding trade_agreed_def trade_opened_def trade_start_def
    by (intro trade_reachable.step[OF _ Confirm] trade_reachable.step[OF _ Offer]
        trade_reachable.step[OF _ Accept] trade_reachable.start)
  have "map_option ts_charBId (getSession (tw_trade trade_agreed) sample_sid) = Some 8" by code_simp
  then obtain s where s: "getSession (tw_trade trade_agreed) sample_sid = Some s" "8 \<in> session_members s"
    by (auto simp: session_members_def)
  from trade_sessions_invariant[OF r, of sample_sid s _ _ 8] s r show ?thesis by simp
qed

text \<open>C10: Whatever a confirmation does, a fair trade creates and destroys nothing: for every item the
  two players together own as much as before, their inventories stay well formed and nobody
  else's rows change; and unless the trade goes through, no inventory changes at all.\<close>

theorem trade_conserves:
  assumes "wf_items im" "wf_inventory (tw_inv w)"
    and "getSession (tw_trade w) sid = Some s"
    and "\<And>g. fair_trade g (tw_inv w) s \<or> \<not> goes_through im (tw_inv w) (confirmed_by c now s) g"
  shows "let w' = handleTradeConfirmEvent im online now client c sid w; a = ts_charAId s; b = ts_charBId s in
    wf_inventory (tw_inv w') \<and>
    (\<forall>i. getItemQuantity (tw_inv w') a i + getItemQuantity (tw_inv w') b i
       = getItemQuantity (tw_inv w) a i + getItemQuantity (tw_inv w) b i) \<and>
    (\<forall>c'. c' \<notin> {a, b} \<longrightarrow> rows (tw_inv w') c' = rows (tw_inv w) c') \<and>
    ((\<nexists>g. goes_through im (tw_inv w) (confirmed_by c now s) g) \<longrightarrow> tw_inv w' = tw_inv w)"
proof (cases rule: confirm_cases[OF assms(3), of im c now online client])
  case (1 g)
  define w0 where "w0 = w\<lparr>tw_trade := put_session sid (confirmed_by c now s) (tw_trade w)\<rparr>"
  have fair: "fair_trade g (tw_inv w0) (confirmed_by c now s)"
    using assms(4)[of g] 1(1) by (auto simp: fair_trade_def w0_def Let_def)
  have "wf_inventory (tw_inv w0)" "goes_through im (tw_inv w0) (confirmed_by c now s) g"
    using assms(2) 1(1) by (simp_all add: w0_def)
  note kept = complete_trade_keeps(1)[OF assms(1) this fair, of online sid, folded w0_def 1(4)]
  then show ?thesis
    using 1(1,4) assms(2) by (auto simp: pair_inv_def Let_def getItemQuantity_exact w0_def)
next
  case 2
  then show ?thesis using assms(2) by (simp add: Let_def)
qed

definition agreed_session :: TradeSessionStruct where
  "agreed_session = \<lparr>ts_sessionId = sample_sid, ts_charAId = 7, ts_charBId = 8, ts_clientAId = 107,
     ts_clientBId = 108, ts_offerA = [sword_offer], ts_offerB = [], ts_goldA = 0, ts_goldB = 15,
     ts_confirmedA = True, ts_confirmedB = False, ts_lastActivity = 3\<rparr>"

lemma agreed_get: "getSession (tw_trade trade_agreed) sample_sid = Some agreed_session"
  by code_simp

lemma accept_inv [simp]: "tw_inv (handleTradeAcceptEvent chars im online now client c sid w) = tw_inv w"
  by (simp add: handleTradeAcceptEvent_def Let_def split: prod.split)

lemma offer_inv [simp]: "tw_inv (handleTradeOfferUpdateEvent im online now client c sid items gold w) = tw_inv w"
  by (simp add: handleTradeOfferUpdateEvent_def Let_def split: option.split)

lemma agreed_inv: "tw_inv trade_agreed = sample_inv"
proof -
  define w where "w = handleTradeOfferUpdateEvent sample_items (\<lambda>_. True) 2 108 8 sample_sid [] 15
        (handleTradeOfferUpdateEvent sample_items (\<lambda>_. True) 1 107 7 sample_sid [sword_offer] 0 trade_opened)"
  have "map_option ts_confirmedB (getSession (tw_trade w) sample_sid) = Some False"
    "map_option ts_charAId (getSession (tw_trade w) sample_sid) = Some 7" unfolding w_def by code_simp+
  then obtain s where s: "getSession (tw_trade w) sample_sid = Some s" "\<not> ts_confirmedB s" "ts_charAId s = 7" by auto
  have inv: "tw_inv w = sample_inv" by (simp add: w_def trade_opened_def trade_start_def)
  have "tw_inv (handleTradeConfirmEvent sample_items (\<lambda>_. True) 3 107 7 sample_sid w) = tw_inv w"
    by (rule confirm_cases[OF s(1), where im = sample_items and c = 7 and now = 3 and online = "\<lambda>_. True" and client = 107])
      (use s in \<open>auto simp: goes_through_def confirmed_by_def\<close>)
  then show ?thesis by (simp add: trade_agreed_def w_def[symmetric] inv)
qed

lemma pair_keys_sample: "pair_keys sample_inv 7 8 = {#(11, 1), (12, 2), (13, 2), (14, 3), (21, 1)#}"
  by (simp add: pair_keys_def)

lemma sample_qty_zero: "i \<notin> {1, 2, 3} \<Longrightarrow> qty sample_inv 7 i = 0" "i \<noteq> 1 \<Longrightarrow> qty sample_inv 8 i = 0"
  by (simp_all add: qty_def)

lemma sample_fair: "fair_trade 1 sample_inv (confirmed_by 8 4 agreed_session)"
proof -
  have "qty sample_inv 7 i + qty sample_inv 8 i < INT_LIM" for i
    using sample_qty_zero[of i] by (cases "i \<in> {1, 2, 3}") auto
  moreover have "unique_ids {#(11::int, 1::int), (12, 2), (13, 2), (14, 3), (21, 1)#}"
    by (auto simp: unique_ids_def)
  ultimately show ?thesis
    by (simp add: fair_trade_def agreed_session_def pair_keys_sample plain_offer_def sword_offer_def Let_def)
qed

lemma sample_goes_through:
  "goes_through sample_items sample_inv (confirmed_by 8 4 agreed_session) g \<longleftrightarrow> g = 1"
proof -
  have "getItemBySlug sample_items ''gold_coin'' = Some gold_coin" by code_simp
  moreover have "validateOfferor sample_inv 1 7 [sword_offer] 0" "validateOfferor sample_inv 1 8 [] 15"
    by code_simp+
  moreover have "it_id gold_coin = 1" by (simp add: gold_coin_def)
  ultimately show ?thesis by (auto simp: goes_through_def confirmed_by_def agreed_session_def)
qed

lemma wf_sample_items [simp]: "wf_items sample_items"
  by (simp add: wf_items_def sample_items_def omap_sorted_def sample_item_defs)

theorem trade_conserves_witness:
  "let w' = handleTradeConfirmEvent sample_items (\<lambda>_. True) 4 108 8 sample_sid trade_agreed in
   wf_inventory (tw_inv w') \<and> getItemQuantity (tw_inv w') 7 1 + getItemQuantity (tw_inv w') 8 1 = 140"
proof -
  have fair: "fair_trade 1 sample_inv agreed_session" using sample_fair by (simp add: fair_trade_def Let_def)
  have h: "fair_trade g (tw_inv trade_agreed) agreed_session
      \<or> \<not> goes_through sample_items (tw_inv trade_agreed) (confirmed_by 8 4 agreed_session) g" for g
    using fair sample_goes_through[of g] by (auto simp: agreed_inv)
  have wf: "wf_inventory (tw_inv trade_agreed)" by (simp add: agreed_inv)
  note c = trade_conserves[OF wf_sample_items wf agreed_get h, of "\<lambda>_. True" 108, unfolded Let_def]
  show ?thesis
    using c[THEN conjunct1] c[THEN conjunct2, THEN conjunct1, THEN spec, of 1]
    by (simp add: agreed_inv agreed_session_def Let_def getItemQuantity_exact)
qed

text \<open>When a fair trade goes through, each player ends with exactly his gold less what he
  offered plus what he was offered, the session is closed, and both players are free to trade
  again.\<close>

lemma trade_settles:
  assumes "wf_items im" "wf_inventory (tw_inv w)" "wf_trade (tw_trade w)"
    and "getSession (tw_trade w) sid = Some s" "online client" "c \<in> session_members s"
    and "goes_through im (tw_inv w) (confirmed_by c now s) g" "fair_trade g (tw_inv w) s"
  shows "let w' = handleTradeConfirmEvent im online now client c sid w; a = ts_charAId s; b = ts_charBId s in
    getItemQuantity (tw_inv w') a g = getItemQuantity (tw_inv w) a g - max 0 (ts_goldA s) + max 0 (ts_goldB s) \<and>
    getItemQuantity (tw_inv w') b g = getItemQuantity (tw_inv w) b g - max 0 (ts_goldB s) + max 0 (ts_goldA s) \<and>
    getSession (tw_trade w') sid = None \<and>
    getSessionByCharacter (tw_trade w') a = None \<and> getSessionByCharacter (tw_trade w') b = None"
proof -
  define s' where "s' = confirmed_by c now s"
  define w0 where "w0 = w\<lparr>tw_trade := put_session sid s' (tw_trade w)\<rparr>"
  obtain gi where gi: "getItemBySlug im ''gold_coin'' = Some gi" "it_id gi = g"
    using assms(7) by (auto simp: goes_through_def)
  have out: "handleTradeConfirmEvent im online now client c sid w = complete_trade im online sid g s' w0"
    unfolding confirm_eq[where im = im and online = online and client = client, OF assms(4-6) s'_def w0_def]
    using assms(7) gi by (simp add: goes_through_def s'_def[symmetric]) (simp add: s'_def)
  have fair: "fair_trade g (tw_inv w0) s'" and wf: "wf_inventory (tw_inv w0)"
    and go: "goes_through im (tw_inv w0) s' g"
    using assms(2,7,8) by (simp_all add: fair_trade_def w0_def s'_def Let_def)
  note kept = complete_trade_keeps[OF assms(1) wf go fair, of online sid]
  have wf': "wf_inventory (tw_inv (complete_trade im online sid g s' w0))" using kept(1) by (simp add: pair_inv_def)
  have tr: "wf_trade (tw_trade w0)"
    using assms(3,4) by (auto simp: w0_def s'_def getSession_def intro!: put_session_wf)
  have live: "getSession (tw_trade w0) sid = Some s'"
    by (simp add: w0_def getSession_def put_session_def)
  have "ts_charAId s \<noteq> ts_charBId s" using assms(8) by (simp add: fair_trade_def Let_def)
  then show ?thesis
    using kept(2,3) trades.close_frees[OF tr live] trades.close_live[OF tr, of sid]
    by (simp add: out Let_def getItemQuantity_exact[OF assms(2)] getItemQuantity_exact[OF wf'] session_members_def)
      (simp add: w0_def s'_def)
qed

section \<open>What an unfair trade does\<close>

text \<open>Changing one's own offer leaves the other side's confirmation standing: after player 8 has
  agreed to pay 15 gold for the sword, player 7 withdraws the sword, confirms, and is paid.\<close>

lemma offer_change_keeps_other_confirmation:
  "let w1 = handleTradeOfferUpdateEvent sample_items (\<lambda>_. True) 2 108 8 sample_sid [] 15
        (handleTradeOfferUpdateEvent sample_items (\<lambda>_. True) 1 107 7 sample_sid [sword_offer] 0 trade_opened);
       w2 = handleTradeConfirmEvent sample_items (\<lambda>_. True) 3 108 8 sample_sid w1;
       w3 = handleTradeOfferUpdateEvent sample_items (\<lambda>_. True) 4 107 7 sample_sid [] 0 w2;
       w4 = handleTradeConfirmEvent sample_items (\<lambda>_. True) 5 107 7 sample_sid w3
   in (getItemQuantity (tw_inv w4) 7 1, getItemQuantity (tw_inv w4) 8 1, getItemQuantity (tw_inv w4) 8 2)
      = (115, 25, 0)"
  by code_simp

text \<open>An offer of the gold row as an item together with gold is paid twice: the row leaves, the
  removal of the gold then fails, and the receiver is credited all the same.\<close>

lemma offering_gold_row_duplicates_gold:
  "let gold_row = \<lparr>to_inventoryItemId = 11, to_itemId = 1, to_quantity = 1\<rparr>;
       w1 = handleTradeOfferUpdateEvent sample_items (\<lambda>_. True) 1 107 7 sample_sid [gold_row] 100 trade_opened;
       w2 = handleTradeConfirmEvent sample_items (\<lambda>_. True) 2 107 7 sample_sid w1;
       w3 = handleTradeConfirmEvent sample_items (\<lambda>_. True) 3 108 8 sample_sid w2
   in (getItemQuantity (tw_inv w3) 7 1, getItemQuantity (tw_inv w3) 8 1) = (0, 240)"
  by code_simp

text \<open>The offered quantity is shown to the other side but the whole row moves.\<close>

lemma partial_offer_moves_whole_stack:
  "let one_potion = \<lparr>to_inventoryItemId = 14, to_itemId = 3, to_quantity = 1\<rparr>;
       w1 = handleTradeOfferUpdateEvent sample_items (\<lambda>_. True) 1 107 7 sample_sid [one_potion] 0 trade_opened;
       w2 = handleTradeConfirmEvent sample_items (\<lambda>_. True) 2 107 7 sample_sid w1;
       w3 = handleTradeConfirmEvent sample_items (\<lambda>_. True) 3 108 8 sample_sid w2
   in (getItemQuantity (tw_inv w3) 7 3, getItemQuantity (tw_inv w3) 8 3) = (0, 3)"
  by code_simp

text \<open>Anyone can be put into a trade: accepting needs no invitation, and it closes the trade the
  other player is in.\<close>

lemma accept_without_invitation:
  "let w = handleTradeAcceptEvent sample_chars sample_items (\<lambda>_. True) 9 109 9 ''7'' trade_opened
   in (map_option ts_sessionId (getSessionByCharacter (tw_trade w) 7),
       getSessionByCharacter (tw_trade w) 8 = None) = (Some (trade_id 7 9 9), True)"
  by code_simp

end
