(* ===== verification/Characters.thy ===== *)
theory Characters
  imports Game_Data Chunk_Prelude
begin

text \<open>
  \<^verbatim>\<open>services/CharacterManager.cpp\<close>: the in-memory characters. The \<^verbatim>\<open>unordered_map\<close> is
  an association list; every method runs under the manager's mutex and is one function on it.
  \<open>now\<close> is the steady clock (nanoseconds), \<open>nowSec\<close> the Unix time (seconds) and
  \<open>gameTime\<close> the result of \<^verbatim>\<open>getCurrentGameTime()\<close> at the call.
\<close>

type_synonym character_manager = "(int \<times> CharacterDataStruct) list"

record HealthUpdateResult =
  hr_newHealth :: int
  hr_currentMana :: int
  hr_died :: bool

section \<open>Loading and look-up\<close>

definition loadCharactersList :: "CharacterDataStruct list \<Rightarrow> character_manager \<Rightarrow> character_manager" where
  "loadCharactersList rows m =
     fold (\<lambda>row m. umap_put (ch_characterId row)
             ((case map_of m (ch_characterId row) of Some ch \<Rightarrow> ch | None \<Rightarrow> default_character)
                \<lparr>ch_characterId := ch_characterId row\<rparr>) m) rows m"

definition loadCharacterAttributes ::
  "CharacterAttributeStruct list \<Rightarrow> character_manager \<Rightarrow> character_manager" where
  "loadCharacterAttributes rows m =
     fold (\<lambda>row. umap_modify (at_character_id row) (\<lambda>ch. ch\<lparr>ch_attributes := ch_attributes ch @ [row]\<rparr>)) rows m"

definition loadCharacterSkills :: "(int \<times> SkillStruct) list \<Rightarrow> character_manager \<Rightarrow> character_manager" where
  "loadCharacterSkills rows m =
     (if rows = [] then m
      else fold (\<lambda>(c, skill). umap_modify c (\<lambda>ch. ch\<lparr>ch_skills := ch_skills ch @ [skill]\<rparr>)) rows
             (map (\<lambda>(k, ch). (k, ch\<lparr>ch_skills := []\<rparr>)) m))"

definition stamp_join :: "int \<Rightarrow> CharacterDataStruct \<Rightarrow> CharacterDataStruct" where
  "stamp_join now ch = (if ch_joinTimestamp ch = 0 then ch\<lparr>ch_joinTimestamp := now\<rparr> else ch)"

definition loadCharacterData :: "int \<Rightarrow> CharacterDataStruct \<Rightarrow> character_manager \<Rightarrow> character_manager" where
  "loadCharacterData now ch m =
     (case map_of m (ch_characterId ch) of
        Some old \<Rightarrow> umap_put (ch_characterId ch)
          (ch\<lparr>ch_lastValidatedPosition := ch_lastValidatedPosition old,
              ch_lastMoveSrvMs := ch_lastMoveSrvMs old\<rparr>) m
      | None \<Rightarrow> umap_put (ch_characterId ch) (stamp_join now ch) m)"

definition addCharacter :: "int \<Rightarrow> CharacterDataStruct \<Rightarrow> character_manager \<Rightarrow> character_manager" where
  "addCharacter now ch m = umap_put (ch_characterId ch) (stamp_join now ch) m"

definition removeCharacter :: "int \<Rightarrow> character_manager \<Rightarrow> character_manager" where
  "removeCharacter c m = omap_erase c m"

definition getCharactersList :: "character_manager \<Rightarrow> CharacterDataStruct list" where
  "getCharactersList m = map snd m"

definition getCharacterData :: "character_manager \<Rightarrow> int \<Rightarrow> CharacterDataStruct" where
  "getCharacterData m c = (case map_of m c of Some ch \<Rightarrow> ch | None \<Rightarrow> default_character)"

definition getCharacterById :: "character_manager \<Rightarrow> int \<Rightarrow> CharacterDataStruct" where
  "getCharacterById m c = (case map_of m c of Some ch \<Rightarrow> ch | None \<Rightarrow> default_character)"

definition getCharacterAttributes :: "character_manager \<Rightarrow> int \<Rightarrow> CharacterAttributeStruct list" where
  "getCharacterAttributes m c = (case map_of m c of Some ch \<Rightarrow> ch_attributes ch | None \<Rightarrow> [])"

definition getCharacterSkills :: "character_manager \<Rightarrow> int \<Rightarrow> SkillStruct list" where
  "getCharacterSkills m c = (case map_of m c of Some ch \<Rightarrow> ch_skills ch | None \<Rightarrow> [])"

definition getCharacterPosition :: "character_manager \<Rightarrow> int \<Rightarrow> PositionStruct" where
  "getCharacterPosition m c = (case map_of m c of Some ch \<Rightarrow> ch_characterPosition ch | None \<Rightarrow> default_position)"

definition calculateDistance :: "PositionStruct \<Rightarrow> PositionStruct \<Rightarrow> float32" where
  "calculateDistance p q =
     (let dx = fl32 (positionX p - positionX q); dy = fl32 (positionY p - positionY q)
      in sqrt32 (fl32 (fl32 (dx * dx) + fl32 (dy * dy))))"

definition getCharactersInZone ::
  "float32 \<Rightarrow> float32 \<Rightarrow> float32 \<Rightarrow> character_manager \<Rightarrow> CharacterDataStruct list" where
  "getCharactersInZone centerX centerY radius m =
     filter (\<lambda>ch. calculateDistance \<lparr>positionX = centerX, positionY = centerY, positionZ = 0, rotationZ = 0\<rparr>
                    (ch_characterPosition ch) \<le> radius \<and> \<not> ch_isDead ch) (map snd m)"

section \<open>Movement\<close>

definition setCharacterPosition :: "int \<Rightarrow> PositionStruct \<Rightarrow> character_manager \<Rightarrow> character_manager" where
  "setCharacterPosition c pos = umap_modify c (\<lambda>ch. ch\<lparr>ch_characterPosition := pos\<rparr>)"

text \<open>The ring buffer of the last validated movements.\<close>

definition push_movement :: "PositionStruct \<Rightarrow> int \<Rightarrow> CharacterDataStruct \<Rightarrow> CharacterDataStruct" where
  "push_movement pos srvMs ch =
     (let ch = ch\<lparr>ch_lastValidatedPosition := pos, ch_lastMoveSrvMs := srvMs\<rparr> in
      if srvMs = 0 then ch\<lparr>ch_movementWindowHead := 0, ch_movementWindowCount := 0\<rparr>
      else ch\<lparr>ch_movementWindow := (ch_movementWindow ch)
                  [nat (ch_movementWindowHead ch) := \<lparr>mv_position = pos, mv_srvMs = srvMs\<rparr>],
              ch_movementWindowHead := (ch_movementWindowHead ch + 1) mod int MOVEMENT_WINDOW_SIZE,
              ch_movementWindowCount := (if ch_movementWindowCount ch < int MOVEMENT_WINDOW_SIZE
                 then ch_movementWindowCount ch + 1 else ch_movementWindowCount ch)\<rparr>)"

definition setLastValidatedMovement ::
  "int \<Rightarrow> PositionStruct \<Rightarrow> int \<Rightarrow> character_manager \<Rightarrow> character_manager" where
  "setLastValidatedMovement c pos srvMs = umap_modify c (push_movement pos srvMs)"

section \<open>Health and mana\<close>

definition set_health :: "int \<Rightarrow> CharacterDataStruct \<Rightarrow> CharacterDataStruct" where
  "set_health hp ch = ch\<lparr>ch_characterCurrentHealth := hp, ch_isDead := (if 0 < hp then False else ch_isDead ch)\<rparr>"

definition updateCharacterHealth :: "int \<Rightarrow> int \<Rightarrow> character_manager \<Rightarrow> character_manager" where
  "updateCharacterHealth c hp = umap_modify c (set_health hp)"

definition invulnerable :: "float32 \<Rightarrow> CharacterDataStruct \<Rightarrow> bool" where
  "invulnerable gameTime ch \<longleftrightarrow> 0 < ch_respawnInvulUntil ch \<and> gameTime < ch_respawnInvulUntil ch"

definition damage :: "int \<Rightarrow> int \<Rightarrow> CharacterDataStruct \<Rightarrow> CharacterDataStruct" where
  "damage now amount ch =
     (let newHp = max 0 (wrap32 (ch_characterCurrentHealth ch - amount));
          ch' = ch\<lparr>ch_characterCurrentHealth := newHp\<rparr>
      in if 0 < ch_characterCurrentHealth ch \<and> newHp \<le> 0
         then ch'\<lparr>ch_isDead := True, ch_deathTimestamp := now\<rparr> else ch')"

definition applyDamageToCharacter ::
  "float32 \<Rightarrow> int \<Rightarrow> int \<Rightarrow> int \<Rightarrow> character_manager \<Rightarrow> HealthUpdateResult \<times> character_manager" where
  "applyDamageToCharacter gameTime now c amount m =
     (case map_of m c of
        None \<Rightarrow> (\<lparr>hr_newHealth = 0, hr_currentMana = 0, hr_died = False\<rparr>, m)
      | Some ch \<Rightarrow>
        if invulnerable gameTime ch
        then (\<lparr>hr_newHealth = ch_characterCurrentHealth ch, hr_currentMana = ch_characterCurrentMana ch,
               hr_died = False\<rparr>, m)
        else
          let ch' = damage now amount ch in
          (\<lparr>hr_newHealth = ch_characterCurrentHealth ch', hr_currentMana = ch_characterCurrentMana ch,
            hr_died = (0 < ch_characterCurrentHealth ch \<and> ch_characterCurrentHealth ch' \<le> 0)\<rparr>,
           umap_put c ch' m))"

definition applyHealToCharacter ::
  "int \<Rightarrow> int \<Rightarrow> character_manager \<Rightarrow> HealthUpdateResult \<times> character_manager" where
  "applyHealToCharacter c amount m =
     (case map_of m c of
        None \<Rightarrow> (\<lparr>hr_newHealth = 0, hr_currentMana = 0, hr_died = False\<rparr>, m)
      | Some ch \<Rightarrow>
        if ch_isDead ch
        then (\<lparr>hr_newHealth = ch_characterCurrentHealth ch, hr_currentMana = ch_characterCurrentMana ch,
               hr_died = False\<rparr>, m)
        else
          let newHp = min (ch_characterMaxHealth ch) (wrap32 (ch_characterCurrentHealth ch + amount)) in
          (\<lparr>hr_newHealth = newHp, hr_currentMana = ch_characterCurrentMana ch, hr_died = False\<rparr>,
           umap_put c (ch\<lparr>ch_characterCurrentHealth := newHp\<rparr>) m))"

definition applyManaCostToCharacter :: "int \<Rightarrow> int \<Rightarrow> character_manager \<Rightarrow> int \<times> character_manager" where
  "applyManaCostToCharacter c cost m =
     (case map_of m c of None \<Rightarrow> (0, m)
      | Some ch \<Rightarrow> let newMana = max 0 (wrap32 (ch_characterCurrentMana ch - cost))
                   in (newMana, umap_put c (ch\<lparr>ch_characterCurrentMana := newMana\<rparr>) m))"

definition trySpendMana :: "int \<Rightarrow> int \<Rightarrow> character_manager \<Rightarrow> bool \<times> character_manager" where
  "trySpendMana c amount m =
     (case map_of m c of None \<Rightarrow> (False, m)
      | Some ch \<Rightarrow> if ch_characterCurrentMana ch < amount then (False, m)
          else (True, umap_put c (ch\<lparr>ch_characterCurrentMana := wrap32 (ch_characterCurrentMana ch - amount)\<rparr>) m))"

definition updateCharacterMana :: "int \<Rightarrow> int \<Rightarrow> character_manager \<Rightarrow> character_manager" where
  "updateCharacterMana c mana = umap_modify c (\<lambda>ch. ch\<lparr>ch_characterCurrentMana := mana\<rparr>)"

definition setRespawnInvulUntil :: "int \<Rightarrow> float32 \<Rightarrow> character_manager \<Rightarrow> character_manager" where
  "setRespawnInvulUntil c t = umap_modify c (\<lambda>ch. ch\<lparr>ch_respawnInvulUntil := t\<rparr>)"

definition clearDeathState :: "int \<Rightarrow> character_manager \<Rightarrow> character_manager" where
  "clearDeathState c = umap_modify c (\<lambda>ch. ch\<lparr>ch_isDead := False, ch_deathTimestamp := 0\<rparr>)"

definition addExperienceDebt :: "int \<Rightarrow> int \<Rightarrow> character_manager \<Rightarrow> character_manager" where
  "addExperienceDebt c debt = umap_modify c (\<lambda>ch. ch\<lparr>ch_experienceDebt := wrap32 (ch_experienceDebt ch + debt)\<rparr>)"

section \<open>Active effects\<close>

definition effect_expired :: "int \<Rightarrow> ActiveEffectStruct \<Rightarrow> bool" where
  "effect_expired nowSec eff \<longleftrightarrow> ae_expiresAt eff \<noteq> 0 \<and> ae_expiresAt eff \<le> nowSec"

definition ticking :: "ActiveEffectStruct \<Rightarrow> bool" where
  "ticking eff \<longleftrightarrow> ae_effectTypeSlug eff = ''dot'' \<or> ae_effectTypeSlug eff = ''hot''"

definition setCharacterActiveEffects :: "int \<Rightarrow> ActiveEffectStruct list \<Rightarrow> character_manager \<Rightarrow> character_manager" where
  "setCharacterActiveEffects c effects = umap_modify c (\<lambda>ch. ch\<lparr>ch_activeEffects := effects\<rparr>)"

definition add_effect :: "ActiveEffectStruct \<Rightarrow> ActiveEffectStruct list \<Rightarrow> ActiveEffectStruct list" where
  "add_effect effect effects =
     (let same = (\<lambda>e. ae_effectSlug e = ae_effectSlug effect) in
      if list_ex same effects
      then upd_first same (\<lambda>e. e\<lparr>ae_expiresAt := ae_expiresAt effect, ae_value := ae_value effect,
             ae_nextTickAt := ae_nextTickAt effect\<rparr>) effects
      else effects @ [effect])"

definition addActiveEffect :: "int \<Rightarrow> ActiveEffectStruct \<Rightarrow> character_manager \<Rightarrow> character_manager" where
  "addActiveEffect c effect = umap_modify c (\<lambda>ch. ch\<lparr>ch_activeEffects := add_effect effect (ch_activeEffects ch)\<rparr>)"

definition removeActiveEffectBySlug :: "int \<Rightarrow> string \<Rightarrow> character_manager \<Rightarrow> character_manager" where
  "removeActiveEffectBySlug c slug =
     umap_modify c (\<lambda>ch. ch\<lparr>ch_activeEffects := filter (\<lambda>e. ae_effectSlug e \<noteq> slug) (ch_activeEffects ch)\<rparr>)"

definition removeExpiredActiveEffects :: "int \<Rightarrow> int \<Rightarrow> character_manager \<Rightarrow> character_manager" where
  "removeExpiredActiveEffects nowSec c =
     umap_modify c (\<lambda>ch. ch\<lparr>ch_activeEffects := filter (\<lambda>e. \<not> effect_expired nowSec e) (ch_activeEffects ch)\<rparr>)"

definition effective_max_mana :: "int \<Rightarrow> CharacterDataStruct \<Rightarrow> int" where
  "effective_max_mana nowSec ch =
     sum_i32 (ch_characterMaxMana ch)
       (map (\<lambda>e. round_away (ae_value e))
         (filter (\<lambda>e. ae_attributeSlug e = ''max_mana'' \<and> \<not> 0 < ae_tickMs e \<and> \<not> effect_expired nowSec e)
           (ch_activeEffects ch)))"

definition restoreManaToCharacter :: "int \<Rightarrow> int \<Rightarrow> int \<Rightarrow> character_manager \<Rightarrow> int \<times> character_manager" where
  "restoreManaToCharacter nowSec c amount m =
     (case map_of m c of None \<Rightarrow> (0, m)
      | Some ch \<Rightarrow>
        let newMana = min (effective_max_mana nowSec ch) (wrap32 (ch_characterCurrentMana ch + amount))
        in (newMana, umap_put c (ch\<lparr>ch_characterCurrentMana := newMana\<rparr>) m))"

definition markCharacterInCombat :: "int \<Rightarrow> int \<Rightarrow> character_manager \<Rightarrow> character_manager" where
  "markCharacterInCombat now c = umap_modify c (\<lambda>ch. ch\<lparr>ch_lastInCombatAt := now\<rparr>)"

definition setCharacterFlags :: "int \<Rightarrow> PlayerFlagStruct list \<Rightarrow> character_manager \<Rightarrow> character_manager" where
  "setCharacterFlags c flags = umap_modify c (\<lambda>ch. ch\<lparr>ch_flags := flags\<rparr>)"

definition replaceCharacterAttributes ::
  "int \<Rightarrow> CharacterAttributeStruct list \<Rightarrow> character_manager \<Rightarrow> character_manager" where
  "replaceCharacterAttributes c attrs = umap_modify c (\<lambda>ch. ch\<lparr>ch_attributes := attrs\<rparr>)"

section \<open>Damage and healing over time\<close>

record PendingTick =
  pt_characterId :: int
  pt_effectSlug :: string
  pt_effectTypeSlug :: string
  pt_value :: float32

definition effective_max_health :: "int \<Rightarrow> CharacterDataStruct \<Rightarrow> int" where
  "effective_max_health nowSec ch =
     max 1 (sum_i32 (ch_characterMaxHealth ch)
       (map (\<lambda>e. round_away (ae_value e))
         (filter (\<lambda>e. \<not> effect_expired nowSec e \<and> \<not> ticking e \<and> ae_attributeSlug e = ''max_health'')
           (ch_activeEffects ch))))"

definition ms_to_ns :: "int \<Rightarrow> int" where
  "ms_to_ns t = t * 1000000"

text \<open>\<^verbatim>\<open>characterCurrentHealth <= static_cast<int>(effectiveMaxHealth * 0.10f)\<close>: damage over
  time stops at a tenth of the maximum.\<close>

definition near_death :: "int \<Rightarrow> CharacterDataStruct \<Rightarrow> bool" where
  "near_death nowSec ch \<longleftrightarrow>
     ch_characterCurrentHealth ch \<le> trunc_int (fl32 (fl32 (of_int (effective_max_health nowSec ch)) * fl32 (1 / 10)))"

definition tick_effect ::
  "int \<Rightarrow> int \<Rightarrow> CharacterDataStruct \<Rightarrow> ActiveEffectStruct \<Rightarrow> ActiveEffectStruct \<times> PendingTick list" where
  "tick_effect now nowSec ch eff =
     (let interval = ms_to_ns (ae_tickMs eff) in
      if ae_tickMs eff \<le> 0 \<or> \<not> ticking eff \<or> ch_isDead ch then (eff, [])
      else if ae_effectTypeSlug eff = ''dot'' \<and> near_death nowSec ch
      then (eff\<lparr>ae_nextTickAt := now + interval\<rparr>, [])
      else if now < ae_nextTickAt eff then (eff, [])
      else
        let next_at = ae_nextTickAt eff + interval in
        (eff\<lparr>ae_nextTickAt := (if next_at < now then now + interval else next_at)\<rparr>,
         [\<lparr>pt_characterId = ch_characterId ch, pt_effectSlug = ae_effectSlug eff,
           pt_effectTypeSlug = ae_effectTypeSlug eff, pt_value = \<bar>ae_value eff\<bar>\<rparr>]))"

definition tick_character ::
  "int \<Rightarrow> int \<Rightarrow> CharacterDataStruct \<Rightarrow> CharacterDataStruct \<times> PendingTick list \<times> bool" where
  "tick_character now nowSec ch =
     (let ticked = map (tick_effect now nowSec ch) (ch_activeEffects ch);
          effects = filter (\<lambda>e. \<not> effect_expired nowSec e) (map fst ticked)
      in (ch\<lparr>ch_activeEffects := effects\<rparr>, concat (map snd ticked),
          length effects < length (ch_activeEffects ch)))"

definition apply_tick ::
  "float32 \<Rightarrow> int \<Rightarrow> PendingTick \<Rightarrow> EffectTickResult list \<times> character_manager
   \<Rightarrow> EffectTickResult list \<times> character_manager" where
  "apply_tick gameTime now pt acc =
     (let (hr, m) = (if pt_effectTypeSlug pt = ''dot''
            then applyDamageToCharacter gameTime now (pt_characterId pt) (trunc_int (pt_value pt)) (snd acc)
            else applyHealToCharacter (pt_characterId pt) (trunc_int (pt_value pt)) (snd acc))
      in (fst acc @ [\<lparr>et_characterId = pt_characterId pt, et_effectSlug = pt_effectSlug pt,
            et_effectTypeSlug = pt_effectTypeSlug pt, et_value = pt_value pt,
            et_newHealth = hr_newHealth hr, et_newMana = hr_currentMana hr,
            et_targetDied = (pt_effectTypeSlug pt = ''dot'' \<and> hr_died hr)\<rparr>], m))"

definition processEffectTicks ::
  "float32 \<Rightarrow> int \<Rightarrow> int \<Rightarrow> character_manager
   \<Rightarrow> (EffectTickResult list \<times> int list) \<times> character_manager" where
  "processEffectTicks gameTime now nowSec m =
     (let ticked = map (\<lambda>(k, ch). (k, tick_character now nowSec ch)) m;
          m1 = map (\<lambda>(k, ch, pend, expired). (k, ch)) ticked;
          pending = concat (map (\<lambda>(k, ch, pend, expired). pend) ticked);
          expiredCharacters = concat (map (\<lambda>(k, ch, pend, expired). if expired then [ch_characterId ch] else []) ticked);
          (results, m2) = fold (apply_tick gameTime now) pending ([], m1)
      in ((results, expiredCharacters), m2))"

section \<open>Skills\<close>

definition put_skill :: "SkillStruct \<Rightarrow> SkillStruct list \<Rightarrow> SkillStruct list" where
  "put_skill skill skills =
     (let same = (\<lambda>s. sk_skillSlug s = sk_skillSlug skill) in
      if list_ex same skills then upd_first same (\<lambda>_. skill) skills else skills @ [skill])"

definition addCharacterSkill :: "int \<Rightarrow> SkillStruct \<Rightarrow> character_manager \<Rightarrow> character_manager" where
  "addCharacterSkill c skill = umap_modify c (\<lambda>ch. ch\<lparr>ch_skills := put_skill skill (ch_skills ch)\<rparr>)"

definition modifyFreeSkillPoints :: "int \<Rightarrow> int \<Rightarrow> character_manager \<Rightarrow> character_manager" where
  "modifyFreeSkillPoints c delta =
     umap_modify c (\<lambda>ch. ch\<lparr>ch_freeSkillPoints :=
       (let updated = wrap32 (ch_freeSkillPoints ch + delta) in if updated < 0 then 0 else updated)\<rparr>)"

definition getCharacterFreeSkillPoints :: "character_manager \<Rightarrow> int \<Rightarrow> int" where
  "getCharacterFreeSkillPoints m c = (case map_of m c of None \<Rightarrow> 0 | Some ch \<Rightarrow> ch_freeSkillPoints ch)"

definition put_bar_slot :: "int \<Rightarrow> string \<Rightarrow> SkillBarSlotStruct list \<Rightarrow> SkillBarSlotStruct list" where
  "put_bar_slot slotIndex skillSlug slots =
     (let same = (\<lambda>s. sb_slotIndex s = slotIndex) in
      if skillSlug = [] then filter (\<lambda>s. \<not> same s) slots
      else if list_ex same slots then upd_first same (\<lambda>s. s\<lparr>sb_skillSlug := skillSlug\<rparr>) slots
      else slots @ [\<lparr>sb_slotIndex = slotIndex, sb_skillSlug = skillSlug\<rparr>])"

definition updateSkillBarSlot :: "int \<Rightarrow> int \<Rightarrow> string \<Rightarrow> character_manager \<Rightarrow> character_manager" where
  "updateSkillBarSlot c slotIndex skillSlug =
     umap_modify c (\<lambda>ch. ch\<lparr>ch_skillBarSlots := put_bar_slot slotIndex skillSlug (ch_skillBarSlots ch)\<rparr>)"

definition updateLastPlayTimeSaveAt :: "int \<Rightarrow> int \<Rightarrow> character_manager \<Rightarrow> character_manager" where
  "updateLastPlayTimeSaveAt c t = umap_modify c (\<lambda>ch. ch\<lparr>ch_lastPlayTimeSaveAt := t\<rparr>)"

section \<open>The movement window\<close>

text \<open>The samples in the ring buffer, oldest first.\<close>

definition window_ok :: "CharacterDataStruct \<Rightarrow> bool" where
  "window_ok ch \<longleftrightarrow> length (ch_movementWindow ch) = MOVEMENT_WINDOW_SIZE
     \<and> 0 \<le> ch_movementWindowHead ch \<and> ch_movementWindowHead ch < int MOVEMENT_WINDOW_SIZE
     \<and> 0 \<le> ch_movementWindowCount ch \<and> ch_movementWindowCount ch \<le> int MOVEMENT_WINDOW_SIZE"

definition window_samples :: "CharacterDataStruct \<Rightarrow> MovementSample list" where
  "window_samples ch =
     (let n = nat (ch_movementWindowCount ch); h = nat (ch_movementWindowHead ch) in
      map (\<lambda>i. ch_movementWindow ch ! ((h + MOVEMENT_WINDOW_SIZE - n + i) mod MOVEMENT_WINDOW_SIZE)) [0..<n])"

definition last_n :: "nat \<Rightarrow> 'a list \<Rightarrow> 'a list" where
  "last_n n xs = drop (length xs - n) xs"

lemma window_ok_push: "window_ok ch \<Longrightarrow> window_ok (push_movement pos srvMs ch)"
  by (auto simp: window_ok_def push_movement_def Let_def MOVEMENT_WINDOW_SIZE_def)

lemma ring_push:
  assumes "length w = 5" "h < 5" "n \<le> (5::nat)"
  shows "map (\<lambda>i. w[h := x] ! (((h + 1) mod 5 + 5 - min (n + 1) 5 + i) mod 5)) [0..<min (n + 1) 5]
    = last_n 5 (map (\<lambda>i. w ! ((h + 5 - n + i) mod 5)) [0..<n] @ [x])"
proof -
  obtain a b c d e where w: "w = [a, b, c, d, e]"
    using assms(1) by (auto simp: length_Suc_conv eval_nat_numeral)
  have h: "h = 0 \<or> h = 1 \<or> h = 2 \<or> h = 3 \<or> h = 4" and n: "n = 0 \<or> n = 1 \<or> n = 2 \<or> n = 3 \<or> n = 4 \<or> n = 5"
    using assms(2,3) by presburger+
  show ?thesis
    using h n by (elim disjE) (simp_all add: w last_n_def upt_conv_Cons)
qed

section \<open>Well-formed characters\<close>

text \<open>Half the \<open>int\<close> range: no addition of two such amounts wraps.\<close>

abbreviation HP_LIM :: int where
  "HP_LIM \<equiv> 1073741823"

definition effect_ok :: "ActiveEffectStruct \<Rightarrow> bool" where
  "effect_ok e \<longleftrightarrow> \<bar>ae_value e\<bar> \<le> of_int HP_LIM"

definition character_ok :: "int \<Rightarrow> CharacterDataStruct \<Rightarrow> bool" where
  "character_ok k ch \<longleftrightarrow> ch_characterId ch = k
     \<and> 0 \<le> ch_characterCurrentHealth ch \<and> ch_characterCurrentHealth ch \<le> HP_LIM
     \<and> 0 \<le> ch_characterMaxHealth ch \<and> ch_characterMaxHealth ch \<le> HP_LIM
     \<and> (ch_isDead ch \<longrightarrow> ch_characterCurrentHealth ch = 0)
     \<and> 0 \<le> ch_freeSkillPoints ch \<and> window_ok ch
     \<and> distinct (map sb_slotIndex (ch_skillBarSlots ch))
     \<and> list_all effect_ok (ch_activeEffects ch)"

definition characters_ok :: "character_manager \<Rightarrow> bool" where
  "characters_ok m \<longleftrightarrow> distinct (map fst m) \<and> list_all (\<lambda>(k, ch). character_ok k ch) m"

lemma characters_ok_get: "characters_ok m \<Longrightarrow> map_of m c = Some ch \<Longrightarrow> character_ok c ch"
  by (auto simp: characters_ok_def dest: list_all_map_of)

lemma characters_ok_put: "characters_ok m \<Longrightarrow> character_ok c ch \<Longrightarrow> characters_ok (umap_put c ch m)"
  by (simp add: characters_ok_def list_all_umap_put)

lemma characters_ok_modify:
  "characters_ok m \<Longrightarrow> (\<And>ch. character_ok c ch \<Longrightarrow> character_ok c (f ch)) \<Longrightarrow> characters_ok (umap_modify c f m)"
  by (simp add: characters_ok_def list_all_umap_modify)

lemma hp_wrap: "0 \<le> hp \<Longrightarrow> hp \<le> HP_LIM \<Longrightarrow> 0 \<le> n \<Longrightarrow> n \<le> HP_LIM \<Longrightarrow> wrap32 (hp + n) = hp + n \<and> wrap32 (hp - n) = hp - n"
  by (simp add: in_i32_def)

lemma damage_ok:
  assumes "character_ok k ch" "0 \<le> amount" "amount \<le> HP_LIM"
  shows "character_ok k (damage now amount ch)"
    and "ch_characterCurrentHealth (damage now amount ch) = max 0 (ch_characterCurrentHealth ch - amount)"
  using assms hp_wrap[of "ch_characterCurrentHealth ch" amount]
  by (auto simp: character_ok_def damage_def Let_def window_ok_def)

lemma applyDamage_ok:
  assumes "characters_ok m" "0 \<le> amount" "amount \<le> HP_LIM"
  shows "characters_ok (snd (applyDamageToCharacter gameTime now c amount m))"
proof (cases "map_of m c")
  case (Some ch)
  have "characters_ok (umap_put c (damage now amount ch) m)"
    by (rule characters_ok_put[OF assms(1) damage_ok(1)[OF characters_ok_get[OF assms(1) Some] assms(2,3)]])
  then show ?thesis using assms(1) Some by (simp add: applyDamageToCharacter_def Let_def)
qed (simp add: applyDamageToCharacter_def assms(1))

lemma applyHeal_ok:
  assumes "characters_ok m" "0 \<le> amount" "amount \<le> HP_LIM"
  shows "characters_ok (snd (applyHealToCharacter c amount m))"
proof (cases "map_of m c")
  case (Some ch)
  have ch: "character_ok c ch" by (rule characters_ok_get[OF assms(1) Some])
  have "characters_ok (umap_put c (ch\<lparr>ch_characterCurrentHealth :=
      min (ch_characterMaxHealth ch) (wrap32 (ch_characterCurrentHealth ch + amount))\<rparr>) m)" if "\<not> ch_isDead ch"
    using ch that hp_wrap[of "ch_characterCurrentHealth ch" amount] assms(2,3)
    by (intro characters_ok_put[OF assms(1)]) (auto simp: character_ok_def window_ok_def)
  then show ?thesis using assms(1) Some by (simp add: applyHealToCharacter_def Let_def)
qed (simp add: applyHealToCharacter_def assms(1))

lemma trunc_abs_bounds: "\<bar>x\<bar> \<le> of_int HP_LIM \<Longrightarrow> 0 \<le> trunc_int \<bar>x\<bar> \<and> trunc_int \<bar>x\<bar> \<le> HP_LIM"
  by (simp add: trunc_int_def floor_le_iff)

section \<open>A pass over the effects\<close>

definition pending_ok :: "PendingTick \<Rightarrow> bool" where
  "pending_ok pt \<longleftrightarrow> 0 \<le> trunc_int (pt_value pt) \<and> trunc_int (pt_value pt) \<le> HP_LIM"

lemma tick_effect_ok:
  assumes "effect_ok eff"
  shows "effect_ok (fst (tick_effect now nowSec ch eff))"
    and "list_all (\<lambda>pt. pending_ok pt \<and> pt_characterId pt = ch_characterId ch) (snd (tick_effect now nowSec ch eff))"
  using assms trunc_abs_bounds[of "ae_value eff"]
  by (auto simp: tick_effect_def Let_def effect_ok_def pending_ok_def)

lemma list_all_concat_map: "list_all (\<lambda>x. list_all P (f x)) xs \<Longrightarrow> list_all P (concat (map f xs))"
  by (induction xs) auto

lemma tick_character_ok:
  assumes "character_ok k ch"
  shows "character_ok k (fst (tick_character now nowSec ch))"
    and "list_all pending_ok (fst (snd (tick_character now nowSec ch)))"
proof -
  have e: "list_all effect_ok (ch_activeEffects ch)" using assms by (simp add: character_ok_def)
  then have "list_all (\<lambda>e. effect_ok (fst (tick_effect now nowSec ch e))) (ch_activeEffects ch)"
    "list_all (\<lambda>e. list_all pending_ok (snd (tick_effect now nowSec ch e))) (ch_activeEffects ch)"
    using tick_effect_ok by (fastforce simp: list_all_iff)+
  with assms show "character_ok k (fst (tick_character now nowSec ch))"
    and "list_all pending_ok (fst (snd (tick_character now nowSec ch)))"
    by (auto simp: tick_character_def Let_def character_ok_def window_ok_def list_all_iff)
qed

text \<open>Deaths of character \<open>c\<close> among the results, and the character being dead.\<close>

definition deaths :: "int \<Rightarrow> EffectTickResult list \<Rightarrow> nat" where
  "deaths c results = length (filter (\<lambda>r. et_characterId r = c \<and> et_targetDied r) results)"

definition dead_in :: "character_manager \<Rightarrow> int \<Rightarrow> bool" where
  "dead_in m c \<longleftrightarrow> (case map_of m c of None \<Rightarrow> False | Some ch \<Rightarrow> ch_isDead ch)"

definition pass_inv :: "int \<Rightarrow> EffectTickResult list \<times> character_manager \<Rightarrow> bool" where
  "pass_inv c acc \<longleftrightarrow> characters_ok (snd acc) \<and> deaths c (fst acc) \<le> 1 \<and> (deaths c (fst acc) = 1 \<longrightarrow> dead_in (snd acc) c)"

lemma damage_died:
  assumes ok: "characters_ok m" and amount: "0 \<le> amount" "amount \<le> HP_LIM"
    and out: "applyDamageToCharacter gameTime now c amount m = (hr, m')"
  shows "hr_died hr \<Longrightarrow> \<not> dead_in m c \<and> dead_in m' c"
    and "dead_in m c' \<Longrightarrow> dead_in m' c'"
proof -
  show "hr_died hr \<Longrightarrow> \<not> dead_in m c \<and> dead_in m' c"
  proof -
    assume died: "hr_died hr"
    obtain ch where ch: "map_of m c = Some ch" "\<not> invulnerable gameTime ch"
      using out died by (auto simp: applyDamageToCharacter_def Let_def split: option.splits if_splits)
    have hp: "0 < ch_characterCurrentHealth ch" "ch_characterCurrentHealth (damage now amount ch) \<le> 0"
      and m': "m' = umap_put c (damage now amount ch) m"
      using out died ch by (auto simp: applyDamageToCharacter_def Let_def)
    have "ch_isDead (damage now amount ch)" using hp by (simp add: damage_def Let_def split: if_splits)
    moreover have "\<not> ch_isDead ch" using characters_ok_get[OF ok ch(1)] hp(1) by (auto simp: character_ok_def)
    ultimately show "\<not> dead_in m c \<and> dead_in m' c" using ch(1) by (simp add: dead_in_def m')
  qed
  have "ch_isDead ch \<Longrightarrow> ch_isDead (damage now amount ch)" for ch by (simp add: damage_def Let_def)
  then show "dead_in m c' \<Longrightarrow> dead_in m' c'"
    using out by (auto simp: applyDamageToCharacter_def dead_in_def Let_def split: option.splits if_splits)
qed

lemma deaths_snoc [simp]:
  "deaths c (xs @ [r]) = deaths c xs + (if et_characterId r = c \<and> et_targetDied r then 1 else 0)"
  "deaths c [] = 0"
  by (simp_all add: deaths_def)

lemma heal_dead: "applyHealToCharacter c amount m = (hr, m') \<Longrightarrow> dead_in m c' \<Longrightarrow> dead_in m' c'"
  by (auto simp: applyHealToCharacter_def dead_in_def Let_def split: option.splits if_splits)

lemma apply_tick_inv:
  assumes "pending_ok pt" "pass_inv c acc" shows "pass_inv c (apply_tick gameTime now pt acc)"
proof -
  have ok: "characters_ok (snd acc)" using assms(2) by (simp add: pass_inv_def)
  have amt: "0 \<le> trunc_int (pt_value pt)" "trunc_int (pt_value pt) \<le> HP_LIM" using assms(1) by (simp_all add: pending_ok_def)
  show ?thesis
  proof (cases "pt_effectTypeSlug pt = ''dot''")
    case True
    obtain hr m' where out: "applyDamageToCharacter gameTime now (pt_characterId pt) (trunc_int (pt_value pt)) (snd acc) = (hr, m')"
      by (metis prod.collapse)
    have "characters_ok m'" using applyDamage_ok[OF ok amt, of gameTime now "pt_characterId pt"] by (simp add: out)
    then show ?thesis
      using assms(2) damage_died[OF ok amt out] True
      by (auto simp: pass_inv_def apply_tick_def out)
  next
    case False
    obtain hr m' where out: "applyHealToCharacter (pt_characterId pt) (trunc_int (pt_value pt)) (snd acc) = (hr, m')"
      by (metis prod.collapse)
    have "characters_ok m'" using applyHeal_ok[OF ok amt, of "pt_characterId pt"] by (simp add: out)
    then show ?thesis
      using assms(2) heal_dead[OF out, of c] False
      by (auto simp: pass_inv_def apply_tick_def out)
  qed
qed

lemma ticks_inv: "list_all pending_ok pts \<Longrightarrow> pass_inv c acc \<Longrightarrow> pass_inv c (fold (apply_tick gameTime now) pts acc)"
  by (induction pts arbitrary: acc) (simp_all add: apply_tick_inv)

lemma process_inv:
  assumes "characters_ok m" "processEffectTicks gameTime now nowSec m = ((results, expd), m')"
  shows "pass_inv c (results, m')"
proof -
  define m1 where "m1 = map (\<lambda>x. (fst x, fst (tick_character now nowSec (snd x)))) m"
  define pend where "pend = concat (map (\<lambda>x. fst (snd (tick_character now nowSec (snd x)))) m)"
  have eq: "fold (apply_tick gameTime now) pend ([], m1) = (results, m')"
    using assms(2) by (auto simp: processEffectTicks_def Let_def m1_def pend_def comp_def split_beta intro: prod_eqI)
  have all: "list_all (\<lambda>(k, ch). character_ok k ch) m" "distinct (map fst m)"
    using assms(1) by (simp_all add: characters_ok_def)
  then have "characters_ok m1"
    by (auto simp: characters_ok_def m1_def list_all_iff comp_def split_beta intro!: tick_character_ok(1))
  moreover have "list_all pending_ok pend"
    unfolding pend_def using all(1) tick_character_ok(2)
    by (intro list_all_concat_map) (fastforce simp: list_all_iff)
  ultimately have "pass_inv c (fold (apply_tick gameTime now) pend ([], m1))"
    by (intro ticks_inv) (simp_all add: pass_inv_def)
  then show ?thesis by (simp add: eq)
qed

section \<open>Runs\<close>

text \<open>The operations on the characters, as steps. What is handed over from outside (a character
  loaded from the game server or written back by another manager, an amount, an effect) carries
  the range it has there.\<close>

inductive char_step :: "character_manager \<Rightarrow> character_manager \<Rightarrow> bool" where
  Load: "character_ok (ch_characterId ch) ch \<Longrightarrow> char_step m (loadCharacterData now ch m)"
| Add: "character_ok (ch_characterId ch) ch \<Longrightarrow> char_step m (addCharacter now ch m)"
| Remove: "char_step m (removeCharacter c m)"
| Attributes: "char_step m (replaceCharacterAttributes c attrs m)"
| Position: "char_step m (setCharacterPosition c pos m)"
| Movement: "char_step m (setLastValidatedMovement c pos srvMs m)"
| Health: "0 \<le> hp \<Longrightarrow> hp \<le> HP_LIM \<Longrightarrow> char_step m (updateCharacterHealth c hp m)"
| Damage: "0 \<le> amount \<Longrightarrow> amount \<le> HP_LIM \<Longrightarrow> char_step m (snd (applyDamageToCharacter gameTime now c amount m))"
| Heal: "0 \<le> amount \<Longrightarrow> amount \<le> HP_LIM \<Longrightarrow> char_step m (snd (applyHealToCharacter c amount m))"
| ManaCost: "char_step m (snd (applyManaCostToCharacter c amount m))"
| SpendMana: "char_step m (snd (trySpendMana c amount m))"
| RestoreMana: "char_step m (snd (restoreManaToCharacter nowSec c amount m))"
| Mana: "char_step m (updateCharacterMana c amount m)"
| Invul: "char_step m (setRespawnInvulUntil c t m)"
| Revive: "char_step m (clearDeathState c m)"
| Debt: "char_step m (addExperienceDebt c amount m)"
| SetEffects: "list_all effect_ok effects \<Longrightarrow> char_step m (setCharacterActiveEffects c effects m)"
| AddEffect: "effect_ok effect \<Longrightarrow> char_step m (addActiveEffect c effect m)"
| RemoveEffect: "char_step m (removeActiveEffectBySlug c slug m)"
| ExpireEffects: "char_step m (removeExpiredActiveEffects nowSec c m)"
| Ticks: "char_step m (snd (processEffectTicks gameTime now nowSec m))"
| InCombat: "char_step m (markCharacterInCombat now c m)"
| Flags: "char_step m (setCharacterFlags c flags m)"
| AddSkill: "char_step m (addCharacterSkill c skill m)"
| SkillPoints: "char_step m (modifyFreeSkillPoints c delta m)"
| BarSlot: "char_step m (updateSkillBarSlot c slotIndex slug m)"
| PlayTime: "char_step m (updateLastPlayTimeSaveAt c t m)"

inductive char_reachable :: "character_manager \<Rightarrow> bool" where
  start: "char_reachable []"
| step: "char_reachable m \<Longrightarrow> char_step m m' \<Longrightarrow> char_reachable m'"

lemma add_effect_ok: "effect_ok e \<Longrightarrow> list_all effect_ok es \<Longrightarrow> list_all effect_ok (add_effect e es)"
  by (auto simp: add_effect_def Let_def effect_ok_def intro!: list_all_upd_first)

lemma put_bar_slot_distinct:
  "distinct (map sb_slotIndex slots) \<Longrightarrow> distinct (map sb_slotIndex (put_bar_slot i s slots))"
  by (auto simp: put_bar_slot_def Let_def distinct_map_filter map_upd_first_inv list_ex_iff)

lemma stamp_join_ok: "character_ok k ch \<Longrightarrow> character_ok k (stamp_join now ch)"
  by (simp add: stamp_join_def character_ok_def window_ok_def)

lemma loadCharacterData_ok:
  "characters_ok m \<Longrightarrow> character_ok (ch_characterId ch) ch \<Longrightarrow> characters_ok (loadCharacterData now ch m)"
  by (auto simp: loadCharacterData_def stamp_join_ok intro!: characters_ok_put split: option.split)
    (simp add: character_ok_def window_ok_def)

lemma mana_ok: "characters_ok m \<Longrightarrow> map_of m c = Some ch \<Longrightarrow>
   characters_ok (umap_put c (ch\<lparr>ch_characterCurrentMana := n\<rparr>) m)"
  using characters_ok_get[of m c ch]
  by (intro characters_ok_put) (simp_all add: character_ok_def window_ok_def)

lemma char_step_ok: "char_step m m' \<Longrightarrow> characters_ok m \<Longrightarrow> characters_ok m'"
proof (induction rule: char_step.induct)
  case (Load ch m now) then show ?case by (simp add: loadCharacterData_ok)
next
  case (Add ch m now) then show ?case by (simp add: addCharacter_def characters_ok_put stamp_join_ok)
next
  case (Remove m c) then show ?case by (simp add: removeCharacter_def characters_ok_def list_all_omap_erase)
next
  case (Movement m c pos srvMs)
  have "character_ok c (push_movement pos srvMs ch)" if "character_ok c ch" for ch
    using that window_ok_push[of ch pos srvMs] by (auto simp: character_ok_def push_movement_def Let_def)
  with Movement show ?case unfolding setLastValidatedMovement_def by (intro characters_ok_modify)
next
  case (Damage amount m gameTime now c) then show ?case by (simp add: applyDamage_ok)
next
  case (Heal amount m c) then show ?case by (simp add: applyHeal_ok)
next
  case (Ticks m gameTime now nowSec)
  obtain results expd m' where out: "processEffectTicks gameTime now nowSec m = ((results, expd), m')"
    by (metis prod.collapse)
  show ?case using process_inv[OF Ticks out] by (simp add: out pass_inv_def)
next
  case (BarSlot m c slotIndex slug)
  then show ?case unfolding updateSkillBarSlot_def
    by (intro characters_ok_modify) (simp_all add: character_ok_def window_ok_def put_bar_slot_distinct)
next
  case (AddEffect effect m c)
  then show ?case unfolding addActiveEffect_def
    by (intro characters_ok_modify) (simp_all add: character_ok_def window_ok_def add_effect_ok)
next
  case (ManaCost m c amount)
  then show ?case by (auto simp: applyManaCostToCharacter_def Let_def mana_ok split: option.split)
next
  case (SpendMana m c amount)
  then show ?case by (auto simp: trySpendMana_def mana_ok split: option.split)
next
  case (RestoreMana m nowSec c amount)
  then show ?case by (auto simp: restoreManaToCharacter_def Let_def mana_ok split: option.split)
qed (unfold replaceCharacterAttributes_def setCharacterPosition_def updateCharacterHealth_def
      updateCharacterMana_def setRespawnInvulUntil_def clearDeathState_def addExperienceDebt_def
      setCharacterActiveEffects_def removeActiveEffectBySlug_def removeExpiredActiveEffects_def
      markCharacterInCombat_def setCharacterFlags_def addCharacterSkill_def modifyFreeSkillPoints_def
      updateLastPlayTimeSaveAt_def,
    auto simp: Let_def character_ok_def window_ok_def set_health_def list_all_iff
      intro!: characters_ok_modify)

section \<open>Properties\<close>

definition sample_char :: CharacterDataStruct where
  "sample_char = default_character\<lparr>ch_characterId := 7, ch_characterLevel := 3,
     ch_characterCurrentHealth := 50, ch_characterMaxHealth := 100,
     ch_activeEffects :=
       [\<lparr>ae_id = 1, ae_effectId = 1, ae_effectSlug = ''poison'', ae_effectTypeSlug = ''dot'', ae_attributeId = 0,
         ae_attributeSlug = ''hp'', ae_value = 40, ae_sourceType = ''skill'', ae_expiresAt = 900, ae_tickMs = 1000,
         ae_nextTickAt = 5\<rparr>,
        \<lparr>ae_id = 2, ae_effectId = 2, ae_effectSlug = ''bleed'', ae_effectTypeSlug = ''dot'', ae_attributeId = 0,
         ae_attributeSlug = ''hp'', ae_value = 30, ae_sourceType = ''skill'', ae_expiresAt = 900, ae_tickMs = 1000,
         ae_nextTickAt = 5\<rparr>]\<rparr>"

lemma sample_char_ok [simp]: "character_ok 7 sample_char"
  by (simp add: character_ok_def sample_char_def default_character_def window_ok_def effect_ok_def
      MOVEMENT_WINDOW_SIZE_def)

lemma sample_chars_ok [simp]: "characters_ok [(7, sample_char)]"
  by (simp add: characters_ok_def)



text \<open>C12: \<open>applyDamageToCharacter\<close> takes exactly the amount, stopping at zero; it reports a death
  exactly when the blow takes the health from positive to zero, and then the character is
  marked dead at that time; a protected or unknown character and everyone else are untouched.\<close>

theorem damage_effect:
  assumes "characters_ok m" "0 \<le> amount" "amount \<le> HP_LIM"
  shows "case applyDamageToCharacter gameTime now c amount m of (hr, m') \<Rightarrow>
    (\<forall>c'. c' \<noteq> c \<longrightarrow> map_of m' c' = map_of m c') \<and>
    (case map_of m c of
       None \<Rightarrow> m' = m \<and> \<not> hr_died hr
     | Some ch \<Rightarrow>
       if invulnerable gameTime ch then m' = m \<and> \<not> hr_died hr
       else let hp = ch_characterCurrentHealth ch in
         hr_newHealth hr = max 0 (hp - amount) \<and> (hr_died hr \<longleftrightarrow> 0 < hp \<and> hp \<le> amount) \<and>
         (\<exists>ch'. map_of m' c = Some ch' \<and> ch_characterCurrentHealth ch' = max 0 (hp - amount) \<and>
            (hr_died hr \<longrightarrow> ch_isDead ch' \<and> ch_deathTimestamp ch' = now) \<and>
            (\<not> hr_died hr \<longrightarrow> ch_isDead ch' = ch_isDead ch \<and> ch_deathTimestamp ch' = ch_deathTimestamp ch)))"
proof (cases "map_of m c")
  case (Some ch)
  have ch: "character_ok c ch" by (rule characters_ok_get[OF assms(1) Some])
  have "ch_isDead (damage now amount ch) = (ch_isDead ch \<or> 0 < ch_characterCurrentHealth ch \<and> ch_characterCurrentHealth (damage now amount ch) \<le> 0)"
    "ch_deathTimestamp (damage now amount ch) = (if 0 < ch_characterCurrentHealth ch \<and> ch_characterCurrentHealth (damage now amount ch) \<le> 0
       then now else ch_deathTimestamp ch)"
    by (auto simp: damage_def Let_def)
  then have "\<exists>ch'. map_of (umap_put c (damage now amount ch) m) c = Some ch' \<and> ch_characterCurrentHealth ch' = max 0 (hp - amount) \<and>
            (0 < hp \<and> hp \<le> amount \<longrightarrow> ch_isDead ch' \<and> ch_deathTimestamp ch' = now) \<and>
            (\<not> (0 < hp \<and> hp \<le> amount) \<longrightarrow> ch_isDead ch' = ch_isDead ch \<and> ch_deathTimestamp ch' = ch_deathTimestamp ch)"
    if "hp = ch_characterCurrentHealth ch" for hp
    using damage_ok(2)[OF ch assms(2,3), of now] that by (simp, blast)
  with Some damage_ok(2)[OF ch assms(2,3), of now] show ?thesis
    by (simp add: applyDamageToCharacter_def Let_def)
qed (simp add: applyDamageToCharacter_def)

theorem damage_effect_witness:
  "hr_died (fst (applyDamageToCharacter 0 9 7 60 [(7, sample_char)]))"
  using damage_effect[OF sample_chars_ok, where amount = 60 and gameTime = 0 and now = 9 and c = 7]
  by (simp add: invulnerable_def sample_char_def default_character_def Let_def split: prod.splits)

text \<open>C13: One pass over the damage and healing effects kills a character at most once, however many
  effects tick on him; a character reported killed is dead when the pass ends (a later heal of
  the same pass does not raise him), and the pass keeps all characters well formed.\<close>

theorem ticks_kill_once:
  assumes "characters_ok m"
  shows "case processEffectTicks gameTime now nowSec m of ((results, expd), m') \<Rightarrow>
    length (filter (\<lambda>r. et_characterId r = c \<and> et_targetDied r) results) \<le> 1 \<and>
    ((\<exists>r\<in>set results. et_characterId r = c \<and> et_targetDied r) \<longrightarrow>
       (\<exists>ch. map_of m' c = Some ch \<and> ch_isDead ch \<and> ch_characterCurrentHealth ch = 0)) \<and>
    characters_ok m'"
proof -
  obtain results expd m' where out: "processEffectTicks gameTime now nowSec m = ((results, expd), m')"
    by (metis prod.collapse)
  have inv: "pass_inv c (results, m')" by (rule process_inv[OF assms out])
  have "deaths c results = 1" if "r \<in> set results" "et_characterId r = c" "et_targetDied r" for r
  proof -
    have "r \<in> set (filter (\<lambda>r. et_characterId r = c \<and> et_targetDied r) results)" using that by simp
    then have "deaths c results \<noteq> 0" by (auto simp: deaths_def filter_empty_conv)
    with inv show ?thesis by (simp add: pass_inv_def)
  qed
  then show ?thesis
    using inv by (auto simp: out pass_inv_def deaths_def dead_in_def split: option.splits
        dest: characters_ok_get simp: character_ok_def)
qed

theorem ticks_kill_once_witness:
  "case processEffectTicks 0 100 100 [(7, sample_char)] of ((results, expd), m') \<Rightarrow>
     length (filter (\<lambda>r. et_characterId r = 7 \<and> et_targetDied r) results) \<le> 1 \<and> length results = 2"
proof -
  have "length (fst (fst (processEffectTicks 0 100 100 [(7, sample_char)]))) = 2" by code_simp
  with ticks_kill_once[OF sample_chars_ok, where gameTime = 0 and now = 100 and nowSec = 100 and c = 7] show ?thesis
    by (auto split: prod.splits)
qed

text \<open>C14: The ring buffer of movement samples is the sliding window it stands for: after a validated
  move its samples, oldest first, are the last five of the previous ones followed by the new
  one; a teleport (time 0) empties it.\<close>

theorem movement_window_refines:
  assumes "window_ok ch"
  shows "window_samples (push_movement pos srvMs ch) =
    (if srvMs = 0 then [] else last_n 5 (window_samples ch @ [\<lparr>mv_position = pos, mv_srvMs = srvMs\<rparr>]))"
proof -
  define h where "h = nat (ch_movementWindowHead ch)"
  define n where "n = nat (ch_movementWindowCount ch)"
  have b: "length (ch_movementWindow ch) = 5" "h < 5" "n \<le> 5"
    "ch_movementWindowHead ch = int h" "ch_movementWindowCount ch = int n"
    using assms by (auto simp: window_ok_def MOVEMENT_WINDOW_SIZE_def h_def n_def)
  define x where "x = \<lparr>mv_position = pos, mv_srvMs = srvMs\<rparr>"
  show ?thesis
  proof (cases "srvMs = 0")
    case True
    then show ?thesis by (simp add: window_samples_def push_movement_def Let_def)
  next
    case False
    have head: "nat (ch_movementWindowHead (push_movement pos srvMs ch)) = (h + 1) mod 5"
      using False by (simp add: push_movement_def Let_def MOVEMENT_WINDOW_SIZE_def b(4) nat_mod_distrib nat_add_distrib)
    have cnt: "nat (ch_movementWindowCount (push_movement pos srvMs ch)) = min (n + 1) 5"
      using False b(3) by (auto simp: push_movement_def Let_def MOVEMENT_WINDOW_SIZE_def b(5))
    have win: "ch_movementWindow (push_movement pos srvMs ch) = (ch_movementWindow ch)[h := x]"
      using False by (simp add: push_movement_def Let_def h_def x_def)
    have "window_samples (push_movement pos srvMs ch) = map (\<lambda>i. (ch_movementWindow ch)[h := x] !
        (((h + 1) mod 5 + 5 - min (n + 1) 5 + i) mod 5)) [0..<min (n + 1) 5]"
      by (simp only: window_samples_def Let_def head cnt win MOVEMENT_WINDOW_SIZE_def)
    also have "\<dots> = last_n 5 (window_samples ch @ [x])"
      unfolding ring_push[OF b(1-3), of x]
      by (simp only: window_samples_def Let_def MOVEMENT_WINDOW_SIZE_def h_def n_def)
    finally show ?thesis using False by (simp add: x_def)
  qed
qed

theorem movement_window_refines_witness:
  "length (window_samples (push_movement default_position 40 (push_movement default_position 20 sample_char))) = 2"
proof -
  have ok: "window_ok sample_char" using sample_char_ok by (simp add: character_ok_def)
  have "window_samples sample_char = []" by (simp add: window_samples_def sample_char_def default_character_def)
  with movement_window_refines[OF window_ok_push[OF ok], of default_position 40 default_position 20]
    movement_window_refines[OF ok, of default_position 20] show ?thesis by (simp add: last_n_def)
qed

text \<open>Healing is capped at the base maximum, not at the effective one, so healing a character whose
  effects have lifted him above the base lowers his health.\<close>

lemma heal_can_lower_health:
  "hr_newHealth (fst (applyHealToCharacter 7 10 [(7, sample_char\<lparr>ch_characterCurrentHealth := 120\<rparr>)])) = 100"
  by code_simp

end
