(* ===== verification/Experience.thy ===== *)
theory Experience
  imports Characters Chunk_Strings
begin

text \<open>
  \<^verbatim>\<open>services/ExperienceManager.cpp\<close> and \<^verbatim>\<open>services/ExperienceCacheManager.cpp\<close>:
  levels, experience, debt and the death penalty. \<open>pw n\<close> is \<^verbatim>\<open>std::pow(1.2, n)\<close>, whose
  last bit the C++ library does not fix: it is a parameter, and what the theorems need of it is
  a hypothesis. Packets, saves and the calls of the title and notification managers are values.
\<close>

section \<open>The experience table\<close>

record ExperienceLevelTable =
  el_levels :: "(int \<times> int) list"
  el_isLoaded :: bool

definition table_getExperienceForLevel :: "ExperienceLevelTable \<Rightarrow> int \<Rightarrow> int" where
  "table_getExperienceForLevel t level = (case map_of (el_levels t) level of Some e \<Rightarrow> e | None \<Rightarrow> 0)"

definition table_getMaxLevel :: "ExperienceLevelTable \<Rightarrow> int" where
  "table_getMaxLevel t = foldl (\<lambda>mx entry. if fst entry > mx then fst entry else mx) 0 (el_levels t)"

definition initialize :: "ExperienceLevelTable" where
  "initialize = \<lparr>el_levels = [], el_isLoaded = False\<rparr>"

definition setExperienceTable :: "(int \<times> int) list \<Rightarrow> ExperienceLevelTable \<Rightarrow> ExperienceLevelTable" where
  "setExperienceTable entries t = t\<lparr>el_levels := entries, el_isLoaded := True\<rparr>"

definition clearCache :: "ExperienceLevelTable \<Rightarrow> ExperienceLevelTable" where
  "clearCache t = t\<lparr>el_levels := [], el_isLoaded := False\<rparr>"

definition cached_experience :: "ExperienceLevelTable \<Rightarrow> int \<Rightarrow> int" where
  "cached_experience t level = (if \<not> el_isLoaded t then 0 else table_getExperienceForLevel t level)"

definition cached_maxLevel :: "ExperienceLevelTable \<Rightarrow> int" where
  "cached_maxLevel t = (if \<not> el_isLoaded t then 0 else table_getMaxLevel t)"

section \<open>Levels\<close>

definition BASE_EXP_PER_LEVEL :: int where "BASE_EXP_PER_LEVEL = 100"
definition MAX_LEVEL :: int where "MAX_LEVEL = 100"

definition getExperienceForLevel :: "(nat \<Rightarrow> float64) \<Rightarrow> int \<Rightarrow> int" where
  "getExperienceForLevel pw level =
     (if level \<le> 1 then 0
      else sum_i32 0 (map (\<lambda>i. cast_i32 (fl64 (of_int BASE_EXP_PER_LEVEL * pw (nat (i - 2))))) [2..level]))"

definition getExperienceForLevelFromGameServer :: "(nat \<Rightarrow> float64) \<Rightarrow> ExperienceLevelTable \<Rightarrow> int \<Rightarrow> int" where
  "getExperienceForLevelFromGameServer pw t level =
     (if el_isLoaded t then cached_experience t level else getExperienceForLevel pw level)"

text \<open>The search loop: go up while the experience suffices.\<close>

fun climb :: "(int \<Rightarrow> int) \<Rightarrow> int \<Rightarrow> int \<Rightarrow> int list \<Rightarrow> int" where
  "climb req experience level [] = level"
| "climb req experience level (i # is) =
     (if experience < req i then level else climb req experience i is)"

definition getLevelFromExperience :: "(nat \<Rightarrow> float64) \<Rightarrow> ExperienceLevelTable \<Rightarrow> int \<Rightarrow> int" where
  "getLevelFromExperience pw t experience =
     (if experience \<le> 0 then 1
      else if el_isLoaded t then climb (cached_experience t) experience 1 [1..cached_maxLevel t]
      else climb (getExperienceForLevel pw) experience 1 [2..MAX_LEVEL])"

definition getExperienceForNextLevel :: "(nat \<Rightarrow> float64) \<Rightarrow> ExperienceLevelTable \<Rightarrow> int \<Rightarrow> int" where
  "getExperienceForNextLevel pw t currentLevel =
     (if MAX_LEVEL \<le> currentLevel then getExperienceForLevelFromGameServer pw t MAX_LEVEL
      else getExperienceForLevelFromGameServer pw t (currentLevel + 1))"

section \<open>Gains and losses\<close>

definition calculateMobExperience :: "int \<Rightarrow> int \<Rightarrow> int \<Rightarrow> int" where
  "calculateMobExperience mobLevel characterLevel baseExperience =
     (let baseExp = (if 0 < baseExperience then baseExperience else wrap32 (mobLevel * 10));
          levelDifference = wrap32 (mobLevel - characterLevel);
          modifier = (if levelDifference < -5 then fl64 (1 / 10)
                      else if levelDifference < -2 then 1 / 2
                      else if levelDifference \<le> 2 then 1
                      else if levelDifference \<le> 5 then 3 / 2
                      else 2)
      in cast_i32 (fl64 (of_int baseExp * modifier)))"

definition DEATH_PENALTY_PERCENT :: float64 where
  "DEATH_PENALTY_PERCENT = fl64 (1 / 10)"

definition calculateDeathPenalty :: "(nat \<Rightarrow> float64) \<Rightarrow> ExperienceLevelTable \<Rightarrow> int \<Rightarrow> int \<Rightarrow> int" where
  "calculateDeathPenalty pw t characterLevel currentExperience =
     (let penalty = cast_i32 (fl64 (of_int currentExperience * DEATH_PENALTY_PERCENT));
          expForCurrentLevel = (if 1 < characterLevel
            then getExperienceForLevelFromGameServer pw t (characterLevel - 1) else 0);
          maxPenalty = wrap32 (currentExperience - expForCurrentLevel)
      in min penalty maxPenalty)"

record ExperienceEventStruct =
  ee_characterId :: int
  ee_experienceChange :: int
  ee_oldExperience :: int
  ee_newExperience :: int
  ee_oldLevel :: int
  ee_newLevel :: int
  ee_expForCurrentLevel :: int
  ee_expForNextLevel :: int
  ee_reason :: string
  ee_sourceId :: int

datatype exp_out =
    TitleCheck int int
  | SaveCharacterProgress int int int
  | SaveExperienceDebt int int
  | ExperienceUpdate ExperienceEventStruct
  | StatsUpdate int

record ExperienceGrantResult =
  gr_success :: bool
  gr_experienceEvent :: ExperienceEventStruct
  gr_levelUp :: bool
  gr_newAbilities :: "string list"

text \<open>\<open>handleLevelUp\<close>: one title check per level reached, an ability every fifth level.\<close>

definition handleLevelUp :: "int \<Rightarrow> int \<Rightarrow> int \<Rightarrow> exp_out list \<times> int list" where
  "handleLevelUp c oldLevel newLevel =
     (map (TitleCheck c) [oldLevel + 1..newLevel], filter (\<lambda>level. level mod 5 = 0) [oldLevel + 1..newLevel])"

definition attribute_or :: "string \<Rightarrow> int \<Rightarrow> CharacterAttributeStruct list \<Rightarrow> int" where
  "attribute_or slug d attrs = (case find (\<lambda>a. at_slug a = slug) attrs of Some a \<Rightarrow> at_value a | None \<Rightarrow> d)"

text \<open>Maximum plus the active, non-expired modifiers of an attribute.\<close>

definition with_modifiers :: "int \<Rightarrow> string \<Rightarrow> int \<Rightarrow> ActiveEffectStruct list \<Rightarrow> int" where
  "with_modifiers nowSec slug base effects =
     sum_i32 base (map (\<lambda>e. round_away (ae_value e))
       (filter (\<lambda>e. \<not> effect_expired nowSec e \<and> \<not> ticking e \<and> ae_attributeSlug e = slug) effects))"

definition level_up_stats :: "int \<Rightarrow> int \<Rightarrow> int \<Rightarrow> CharacterDataStruct \<Rightarrow> CharacterDataStruct" where
  "level_up_stats nowSec oldLevel newLevel ch =
     (let baseHp = (if ch_characterMaxHealth ch \<le> 0
            then attribute_or ''max_health'' (ch_characterMaxHealth ch) (ch_attributes ch) else ch_characterMaxHealth ch);
          baseMp = (if ch_characterMaxMana ch \<le> 0
            then attribute_or ''max_mana'' (ch_characterMaxMana ch) (ch_attributes ch) else ch_characterMaxMana ch);
          maxHp = wrap32 (baseHp + (newLevel - oldLevel) * 10);
          maxMp = wrap32 (baseMp + (newLevel - oldLevel) * 5)
      in ch\<lparr>ch_characterMaxHealth := maxHp, ch_characterMaxMana := maxMp,
            ch_characterCurrentHealth := max 1 (with_modifiers nowSec ''max_health'' maxHp (ch_activeEffects ch)),
            ch_characterCurrentMana := max 0 (with_modifiers nowSec ''max_mana'' maxMp (ch_activeEffects ch))\<rparr>)"

definition grantExperience ::
  "(nat \<Rightarrow> float64) \<Rightarrow> ExperienceLevelTable \<Rightarrow> bool \<Rightarrow> bool \<Rightarrow> int \<Rightarrow> int \<Rightarrow> int \<Rightarrow> int \<Rightarrow> string \<Rightarrow> int
   \<Rightarrow> character_manager \<Rightarrow> ExperienceGrantResult \<times> character_manager \<times> exp_out list" where
  "grantExperience pw t hasSave hasPacket now nowSec characterId experienceAmount reason sourceId m =
     (let ch = getCharacterData m characterId;
          oldExperience = ch_characterExperiencePoints ch;
          oldLevel = ch_characterLevel ch;
          oldDebt = ch_experienceDebt ch;
          toDebt = (if 0 < experienceAmount \<and> 0 < oldDebt then min experienceAmount oldDebt else 0);
          amount = experienceAmount - toDebt;
          exp0 = max 0 (wrap32 (oldExperience + amount));
          level0 = getLevelFromExperience pw t exp0;
          newLevel = (if MAX_LEVEL < level0 then MAX_LEVEL else level0);
          newExperience = (if MAX_LEVEL < level0 then getExperienceForLevel pw MAX_LEVEL else exp0);
          expForNext = getExperienceForLevelFromGameServer pw t (newLevel + 1);
          event = \<lparr>ee_characterId = characterId, ee_experienceChange = wrap32 (newExperience - oldExperience),
             ee_oldExperience = oldExperience, ee_newExperience = newExperience, ee_oldLevel = oldLevel,
             ee_newLevel = newLevel,
             ee_expForCurrentLevel = getExperienceForLevelFromGameServer pw t newLevel,
             ee_expForNextLevel = expForNext, ee_reason = reason, ee_sourceId = sourceId\<rparr>;
          levelUp = (oldLevel < newLevel);
          (titles, abilities) = (if levelUp then handleLevelUp characterId oldLevel newLevel else ([], []));
          ch1 = ch\<lparr>ch_experienceDebt := oldDebt - toDebt, ch_characterExperiencePoints := newExperience,
                   ch_characterLevel := newLevel, ch_expForNextLevel := expForNext\<rparr>;
          ch2 = (if levelUp then level_up_stats nowSec oldLevel newLevel ch1 else ch1);
          out = titles
            @ (if hasSave then [SaveCharacterProgress characterId newExperience newLevel] else [])
            @ (if toDebt \<noteq> 0 \<and> hasSave then [SaveExperienceDebt characterId (oldDebt - toDebt)] else [])
            @ (if hasPacket then [ExperienceUpdate event] else [])
            @ (if levelUp then [StatsUpdate characterId] else [])
      in (\<lparr>gr_success = True, gr_experienceEvent = event, gr_levelUp = levelUp,
            gr_newAbilities = map (\<lambda>level. ''ability_level_'' @ to_string level) abilities\<rparr>,
          loadCharacterData now ch2 m, out))"

definition removeExperience ::
  "(nat \<Rightarrow> float64) \<Rightarrow> ExperienceLevelTable \<Rightarrow> bool \<Rightarrow> bool \<Rightarrow> int \<Rightarrow> int \<Rightarrow> int \<Rightarrow> int \<Rightarrow> string
   \<Rightarrow> character_manager \<Rightarrow> ExperienceGrantResult \<times> character_manager \<times> exp_out list" where
  "removeExperience pw t hasSave hasPacket now nowSec characterId experienceAmount reason m =
     grantExperience pw t hasSave hasPacket now nowSec characterId (wrap32 (- experienceAmount)) reason 0 m"

section \<open>Facts\<close>

lemma climb_spec:
  assumes "l \<le> b"
  shows "l \<le> climb req e l [l + 1..b] \<and> climb req e l [l + 1..b] \<le> b
    \<and> (\<forall>i. l < i \<longrightarrow> i \<le> climb req e l [l + 1..b] \<longrightarrow> req i \<le> e)
    \<and> (climb req e l [l + 1..b] < b \<longrightarrow> e < req (climb req e l [l + 1..b] + 1))"
  using assms
proof (induction "nat (b - l)" arbitrary: l)
  case 0
  then show ?case by simp
next
  case (Suc n)
  then have lb: "l < b" and n: "n = nat (b - (l + 1))" by auto
  have split: "[l + 1..b] = (l + 1) # [l + 1 + 1..b]" using lb by (simp add: upto_rec1)
  show ?case
  proof (cases "e < req (l + 1)")
    case True
    then show ?thesis using lb by (simp add: split)
  next
    case False
    define r where "r = climb req e (l + 1) [l + 1 + 1..b]"
    have eq: "climb req e l [l + 1..b] = r" using False by (simp only: split climb.simps if_False r_def)
    have "l + 1 \<le> r \<and> r \<le> b \<and> (\<forall>i. l + 1 < i \<longrightarrow> i \<le> r \<longrightarrow> req i \<le> e) \<and> (r < b \<longrightarrow> e < req (r + 1))"
      unfolding r_def by (rule Suc.hyps(1)[OF n]) (use lb in simp)
    then show ?thesis unfolding eq using False by (smt (verit))
  qed
qed

text \<open>A loaded table that starts at level 1 with no experience and increases strictly.\<close>

definition table_ok :: "ExperienceLevelTable \<Rightarrow> bool" where
  "table_ok t \<longleftrightarrow> el_isLoaded t \<and> 1 \<le> cached_maxLevel t \<and> cached_experience t 1 = 0 \<and>
     (\<forall>i j. 1 \<le> i \<longrightarrow> i < j \<longrightarrow> j \<le> cached_maxLevel t \<longrightarrow> cached_experience t i < cached_experience t j)"

lemma level_bounds:
  assumes "table_ok t"
  shows "1 \<le> getLevelFromExperience pw t e" "getLevelFromExperience pw t e \<le> cached_maxLevel t"
    and "1 \<le> L \<Longrightarrow> L \<le> cached_maxLevel t \<Longrightarrow> 0 \<le> e \<Longrightarrow> L \<le> getLevelFromExperience pw t e \<longleftrightarrow> cached_experience t L \<le> e"
proof -
  let ?req = "cached_experience t" and ?b = "cached_maxLevel t"
  define r where "r = getLevelFromExperience pw t e"
  have t: "el_isLoaded t" "1 \<le> ?b" "?req 1 = 0"
    and mono: "\<And>i j. 1 \<le> i \<Longrightarrow> i < j \<Longrightarrow> j \<le> ?b \<Longrightarrow> ?req i < ?req j"
    using assms by (simp_all add: table_ok_def)
  have climb: "1 \<le> r \<and> r \<le> ?b \<and> (\<forall>i. 1 < i \<longrightarrow> i \<le> r \<longrightarrow> ?req i \<le> e) \<and> (r < ?b \<longrightarrow> e < ?req (r + 1))" if "0 < e"
  proof -
    have "[1..?b] = 1 # [1 + 1..?b]" using t(2) by (simp add: upto_rec1)
    then have "r = climb ?req e 1 [1 + 1..?b]" using that t by (simp add: r_def getLevelFromExperience_def)
    with climb_spec[OF t(2), of ?req e] show ?thesis by simp
  qed
  have low: "r = 1" if "e \<le> 0" using that by (simp add: r_def getLevelFromExperience_def)
  show "1 \<le> getLevelFromExperience pw t e" "getLevelFromExperience pw t e \<le> ?b"
    using climb low t(2) unfolding r_def[symmetric] by (cases "0 < e"; simp)+
  show "L \<le> getLevelFromExperience pw t e \<longleftrightarrow> ?req L \<le> e" if L: "1 \<le> L" "L \<le> ?b" "0 \<le> e"
  proof (cases "0 < e")
    case False
    then have "e = 0" "r = 1" using L(3) low by auto
    moreover have "L = 1 \<or> ?req 1 < ?req L" using mono[of 1 L] L by (cases "L = 1") auto
    ultimately show ?thesis using L t(3) by (auto simp: r_def)
  next
    case True
    note c = climb[OF True]
    have "?req L \<le> e" if "L \<le> r" using that c L t(3) True by (cases "L = 1") auto
    moreover have "e < ?req L" if "r < L"
    proof -
      have "e < ?req (r + 1)" using c that L by simp
      also have "\<dots> \<le> ?req L" using mono[of "r + 1" L] that L c by (cases "r + 1 = L") auto
      finally show ?thesis .
    qed
    ultimately show ?thesis unfolding r_def[symmetric] by linarith
  qed
qed

section \<open>Properties\<close>

definition sample_table :: ExperienceLevelTable where
  "sample_table = setExperienceTable [(1, 0), (2, 100), (3, 300), (4, 700)] initialize"

lemma sample_table_get:
  "cached_experience sample_table i = (if i = 2 then 100 else if i = 3 then 300 else if i = 4 then 700 else 0)"
  "cached_maxLevel sample_table = 4"
  by (simp_all add: sample_table_def setExperienceTable_def initialize_def cached_experience_def
      table_getExperienceForLevel_def cached_maxLevel_def table_getMaxLevel_def)

lemma sample_table_ok [simp]: "table_ok sample_table"
  by (auto simp: table_ok_def sample_table_get) (simp add: sample_table_def setExperienceTable_def)

text \<open>The level of an amount of experience is the highest level whose requirement it meets: with
  a strictly increasing table, level \<open>L\<close> is reached exactly when its requirement is covered,
  and the search stays within the table.\<close>

lemma level_is_highest_met:
  assumes "table_ok t" "0 \<le> experience" "1 \<le> L" "L \<le> cached_maxLevel t"
  shows "(L \<le> getLevelFromExperience pw t experience \<longleftrightarrow> cached_experience t L \<le> experience)
    \<and> 1 \<le> getLevelFromExperience pw t experience \<and> getLevelFromExperience pw t experience \<le> cached_maxLevel t"
  using level_bounds[OF assms(1)] assms(2-4) by simp


definition indebted :: CharacterDataStruct where
  "indebted = sample_char\<lparr>ch_characterExperiencePoints := 290, ch_experienceDebt := 20\<rparr>"


text \<open>The experience for a kill never decreases when the mob's level rises, and lies between
  nothing and twice the base value.\<close>

lemma mob_experience_monotone:
  assumes "0 < base" "base \<le> HP_LIM" "mobLevel \<le> mobLevel'"
    and "0 \<le> mobLevel" "mobLevel' \<le> HP_LIM" "0 \<le> level" "level \<le> HP_LIM"
  shows "0 \<le> calculateMobExperience mobLevel level base
    \<and> calculateMobExperience mobLevel level base \<le> calculateMobExperience mobLevel' level base
    \<and> calculateMobExperience mobLevel' level base \<le> 2 * base"
proof -
  define md where "md d = (if d < -5 then fl64 (1 / 10) else if d < -2 then 1 / 2 else if d \<le> 2 then 1
      else if d \<le> 5 then 3 / 2 else (2 :: rat))" for d :: int
  have tenth: "fl64 (1 / 10) \<le> 1 / 2" "0 \<le> fl64 (1 / 10)" by code_simp+
  have md: "0 \<le> md d" "md d \<le> 2" "d \<le> d' \<Longrightarrow> md d \<le> md d'" for d d'
    using tenth by (auto simp: md_def)
  have eq: "calculateMobExperience l level base = cast_i32 (fl64 (of_int base * md (l - level)))"
    if "0 \<le> l" "l \<le> HP_LIM" for l
  proof -
    have "in_i32 (l - level)" using that assms(6,7) by (simp add: in_i32_def)
    then show ?thesis using assms(1) by (simp add: calculateMobExperience_def Let_def md_def)
  qed
  have bounds: "0 \<le> trunc_int (fl64 (of_int base * md d))" "trunc_int (fl64 (of_int base * md d)) \<le> 2 * base" for d
  proof -
    have "of_int base * md d \<le> of_int (2 * base)" using md(2)[of d] assms(1) by (simp add: mult.commute)
    then have "fl64 (of_int base * md d) \<le> fl64 (of_int (2 * base))" by (rule fl64_mono)
    also have "\<dots> = of_int (2 * base)" by (rule fl64_int) (use assms(1,2) in simp)
    finally show "trunc_int (fl64 (of_int base * md d)) \<le> 2 * base"
      using trunc_int_mono trunc_int_int by metis
    show "0 \<le> trunc_int (fl64 (of_int base * md d))"
      using md(1)[of d] assms(1) by (intro trunc_int_nonneg fl64_nonneg) simp
  qed
  have cast: "cast_i32 (fl64 (of_int base * md d)) = trunc_int (fl64 (of_int base * md d))" for d
    using bounds[of d] assms(2) by (intro cast_i32_in) (simp add: in_i32_def)
  have "trunc_int (fl64 (of_int base * md (mobLevel - level))) \<le> trunc_int (fl64 (of_int base * md (mobLevel' - level)))"
    using assms(1,3) by (intro trunc_int_mono fl64_mono mult_left_mono md(3)) auto
  then show ?thesis
    using bounds assms(3-5) by (simp add: eq cast)
qed

text \<open>The death penalty is a tenth of the experience (up to one point of rounding) unless that
  would reach below the floor, the requirement of the level before the current one; it is never
  negative and never takes the character below that floor.\<close>

lemma death_penalty_bounds:
  assumes "0 \<le> experience" "experience < INT_LIM"
    and "floor_exp = (if 1 < level then getExperienceForLevelFromGameServer pw t (level - 1) else 0)"
    and "0 \<le> floor_exp" "floor_exp \<le> experience"
  shows "let p = calculateDeathPenalty pw t level experience in
    0 \<le> p \<and> p \<le> experience div 10 + 1 \<and> floor_exp \<le> experience - p
    \<and> (p < experience - floor_exp \<longrightarrow> experience div 10 \<le> p)"
proof -
  define q where "q = experience div 10"
  define x where "x = fl64 (of_int experience * DEATH_PENALTY_PERCENT)"
  have pct: "1 / 10 \<le> DEATH_PENALTY_PERCENT" "DEATH_PENALTY_PERCENT \<le> 1 / 10 + 1 / 2 ^ 55"
    unfolding DEATH_PENALTY_PERCENT_def by code_simp+
  have q: "q * 10 \<le> experience" "experience \<le> q * 10 + 9" unfolding q_def by presburger+
  have "of_int q * (10 :: rat) \<le> of_int experience" using q(1) of_int_le_iff[of "q * 10" experience, where ?'a = rat] by simp
  then have lo: "(of_int q :: rat) \<le> of_int experience * DEATH_PENALTY_PERCENT"
    using mult_left_mono[OF pct(1), of "of_int experience"] assms(1) by simp
  have "of_int experience \<le> of_int q * (10 :: rat) + 9" using q(2) of_int_le_iff[of experience "q * 10 + 9", where ?'a = rat] by simp
  moreover have "of_int experience * DEATH_PENALTY_PERCENT \<le> of_int experience * (1 / 10 + 1 / 2 ^ 55)"
    using pct(2) assms(1) by (intro mult_left_mono) auto
  moreover have "of_int experience \<le> (2 ^ 31 :: rat)"
    using assms(2) of_int_le_iff[of experience "2 ^ 31", where ?'a = rat] by simp
  ultimately have hi: "of_int experience * DEATH_PENALTY_PERCENT \<le> (of_int (q + 1) :: rat)" by (simp add: field_simps)
  have small: "\<bar>q\<bar> < 2 ^ 53" "\<bar>q + 1\<bar> < 2 ^ 53" using q assms(1,2) by auto
  have x: "of_int q \<le> x" "x \<le> of_int (q + 1)"
    using fl64_mono[OF lo] fl64_mono[OF hi] fl64_int[OF small(1)] fl64_int[OF small(2)] by (simp_all add: x_def)
  have tr: "q \<le> trunc_int x" "trunc_int x \<le> q + 1"
    using trunc_int_mono[OF x(1)] trunc_int_mono[OF x(2)] by (simp_all only: trunc_int_int)
  have "in_i32 (trunc_int x)" using tr q assms(1,2) by (simp add: in_i32_def)
  then have pen: "cast_i32 x = trunc_int x" by (rule cast_i32_in)
  have mp: "wrap32 (experience - floor_exp) = experience - floor_exp" using assms by (simp add: in_i32_def)
  have "calculateDeathPenalty pw t level experience = min (trunc_int x) (experience - floor_exp)"
    unfolding calculateDeathPenalty_def Let_def assms(3)[symmetric] x_def[symmetric] pen mp by simp
  then show ?thesis
    using tr q assms(1,4,5) by (auto simp: Let_def q_def[symmetric])
qed

text \<open>The comment promises not to fall below the start of the current level, but the floor is the
  start of the level before: from 310 points at level 3 the penalty leads to 279, level 2.\<close>

lemma penalty_reaches_below_level:
  "let p = calculateDeathPenalty (\<lambda>_. 1) sample_table 3 310
   in (p, getLevelFromExperience (\<lambda>_. 1) sample_table (310 - p)) = (31, 2)"
  by code_simp

text \<open>A gain for an unknown character stores a default character under id 0.\<close>

lemma grant_unknown_inserts_ghost:
  "map fst (fst (snd (grantExperience (\<lambda>_. 1) sample_table True True 5 6 7 50 ''quest'' 0 []))) = [0]"
  by code_simp

end
