(* ===== verification/Mastery.thy ===== *)
theory Mastery
  imports Characters
begin

text \<open>
  \<^verbatim>\<open>services/MasteryManager.cpp\<close>: weapon masteries in [0, 100] that grow with every hit and
  grant a permanent effect at each of four thresholds. The configured values (\<open>t1..t4\<close>,
  \<open>base\<close>, \<open>flushEvery\<close>) are arguments; the effects go to the character manager.
\<close>

section \<open>State and operations\<close>

record mastery_manager =
  mm_data :: "int \<Rightarrow> (string \<times> float32) list option"
  mm_hitCounters :: "int \<Rightarrow> string \<Rightarrow> int"
  mm_definitions :: "(string \<times> string) list"

definition loadCharacterMasteries :: "int \<Rightarrow> (string \<times> float32) list \<Rightarrow> mastery_manager \<Rightarrow> mastery_manager" where
  "loadCharacterMasteries c masteries mm = mm\<lparr>mm_data := (mm_data mm)(c \<mapsto> masteries)\<rparr>"

definition unloadCharacterMasteries :: "int \<Rightarrow> mastery_manager \<Rightarrow> mastery_manager" where
  "unloadCharacterMasteries c mm =
     mm\<lparr>mm_data := (mm_data mm)(c := None), mm_hitCounters := (mm_hitCounters mm)(c := (\<lambda>_. 0))\<rparr>"

text \<open>A definition is its slug and its target attribute.\<close>

definition loadMasteryDefinitions :: "(string \<times> string) list \<Rightarrow> mastery_manager \<Rightarrow> mastery_manager" where
  "loadMasteryDefinitions defs mm =
     mm\<lparr>mm_definitions := fold (\<lambda>(slug, attr). umap_put slug attr) defs (mm_definitions mm)\<rparr>"

definition getTargetAttribute :: "mastery_manager \<Rightarrow> string \<Rightarrow> string" where
  "getTargetAttribute mm slug =
     (case map_of (mm_definitions mm) slug of Some a \<Rightarrow> a | None \<Rightarrow> ''physical_attack'')"

definition getAllMasteries :: "mastery_manager \<Rightarrow> int \<Rightarrow> (string \<times> float32) list" where
  "getAllMasteries mm c = (case mm_data mm c of None \<Rightarrow> [] | Some d \<Rightarrow> d)"

definition getMasteryValue :: "mastery_manager \<Rightarrow> int \<Rightarrow> string \<Rightarrow> float32" where
  "getMasteryValue mm c slug = (case map_of (getAllMasteries mm c) slug of None \<Rightarrow> 0 | Some v \<Rightarrow> v)"

definition fillMasteryContext :: "mastery_manager \<Rightarrow> int \<Rightarrow> (string \<times> float32) list \<Rightarrow> (string \<times> float32) list" where
  "fillMasteryContext mm c ctx = (case mm_data mm c of None \<Rightarrow> ctx | Some d \<Rightarrow> d)"

definition calculateDelta :: "float32 \<Rightarrow> float32 \<Rightarrow> int \<Rightarrow> int \<Rightarrow> float32" where
  "calculateDelta base currentValue charLevel targetLevel =
     (let diff = wrap32 (targetLevel - charLevel);
          levelFactor = (if 3 \<le> diff then 2 else if 1 \<le> diff then 3 / 2 else if diff = 0 then 1
                         else if -5 \<le> diff then 1 / 2 else fl32 (1 / 10));
          levelFactor' = (if 80 < currentValue then fl32 (levelFactor * fl32 (3 / 10)) else levelFactor)
      in fl32 (base * levelFactor'))"

text \<open>One milestone: the threshold, the suffix of the effect slug, the attribute (\<open>None\<close>: the
  mastery's own target attribute) and the bonus.\<close>

type_synonym milestone = "float32 \<times> string \<times> string option \<times> float32 \<times> int"

definition milestones :: "float32 \<Rightarrow> float32 \<Rightarrow> float32 \<Rightarrow> float32 \<Rightarrow> milestone list" where
  "milestones t1 t2 t3 t4 =
     [(t1, ''_t1_damage'', None, 1, 1), (t2, ''_t2_damage'', None, 4, 2),
      (t3, ''_t3_crit'', Some ''crit_chance'', 3, 3), (t4, ''_t4_parry'', Some ''parry_chance'', 2, 4)]"

definition milestone_effect :: "mastery_manager \<Rightarrow> string \<Rightarrow> milestone \<Rightarrow> ActiveEffectStruct" where
  "milestone_effect mm slug ms =
     (case ms of (threshold, suffix, attr, v, tier) \<Rightarrow>
       \<lparr>ae_id = 0, ae_effectId = 0, ae_effectSlug = slug @ suffix, ae_effectTypeSlug = ''buff'', ae_attributeId = 0,
        ae_attributeSlug = (case attr of None \<Rightarrow> getTargetAttribute mm slug | Some a \<Rightarrow> a),
        ae_value = v, ae_sourceType = ''mastery'', ae_expiresAt = 0, ae_tickMs = 0, ae_nextTickAt = 0\<rparr>)"

definition reached :: "milestone list \<Rightarrow> float32 \<Rightarrow> milestone list" where
  "reached mss v = filter (\<lambda>ms. fst ms \<le> v) mss"

definition crossed :: "milestone list \<Rightarrow> float32 \<Rightarrow> float32 \<Rightarrow> milestone list" where
  "crossed mss old new = filter (\<lambda>ms. old < fst ms \<and> fst ms \<le> new) mss"

definition reapplyMilestoneEffects ::
  "milestone list \<Rightarrow> mastery_manager \<Rightarrow> int \<Rightarrow> character_manager \<Rightarrow> character_manager" where
  "reapplyMilestoneEffects mss mm c m =
     (case mm_data mm c of None \<Rightarrow> m
      | Some d \<Rightarrow> fold (\<lambda>(slug, v). fold (\<lambda>ms. addActiveEffect c (milestone_effect mm slug ms)) (reached mss v)) d m)"

datatype mastery_out =
    StatsUpdate int
  | TierUp int string string
  | TitleCheck int string int
  | SaveMastery int string float32
  | NotifyMastery int string float32

definition checkAndApplyMilestone ::
  "milestone list \<Rightarrow> mastery_manager \<Rightarrow> int \<Rightarrow> string \<Rightarrow> float32 \<Rightarrow> float32 \<Rightarrow> character_manager
   \<Rightarrow> character_manager \<times> mastery_out list" where
  "checkAndApplyMilestone mss mm c slug old new m =
     (fold (\<lambda>ms. addActiveEffect c (milestone_effect mm slug ms)) (crossed mss old new) m,
      concat (map (\<lambda>(threshold, suffix, attr, v, tier).
        [StatsUpdate c, TierUp c slug (slug @ suffix), TitleCheck c slug tier]) (crossed mss old new)))"

definition onPlayerAttack ::
  "float32 \<Rightarrow> int \<Rightarrow> milestone list \<Rightarrow> bool \<Rightarrow> bool \<Rightarrow> int \<Rightarrow> string \<Rightarrow> int \<Rightarrow> int
   \<Rightarrow> mastery_manager \<times> character_manager \<Rightarrow> (mastery_manager \<times> character_manager) \<times> mastery_out list" where
  "onPlayerAttack base flushEvery mss hasSave hasNotify c slug charLevel targetLevel st =
     (case st of (mm, m) \<Rightarrow>
      if slug = [] then ((mm, m), [])
      else
        let old = getMasteryValue mm c slug;
            new = min (fl32 (old + calculateDelta base old charLevel targetLevel)) 100;
            counter = wrap32 (mm_hitCounters mm c slug + 1);
            mm' = mm\<lparr>mm_data := (mm_data mm)(c \<mapsto> umap_put slug new (getAllMasteries mm c)),
                     mm_hitCounters := (mm_hitCounters mm)(c := (mm_hitCounters mm c)(slug := counter))\<rparr>;
            shouldFlush = (counter mod flushEvery = 0 \<or> crossed mss old new \<noteq> []);
            (m', out) = checkAndApplyMilestone mss mm' c slug old new m
        in ((mm', m'), out
            @ (if shouldFlush \<and> hasSave then [SaveMastery c slug new] else [])
            @ (if shouldFlush \<and> hasNotify then [NotifyMastery c slug new] else [])))"

section \<open>Facts\<close>

lemma delta_nonneg: "0 \<le> base \<Longrightarrow> 0 \<le> calculateDelta base v lvl tlvl"
proof -
  assume b: "0 \<le> base"
  have tenth: "0 \<le> fl32 (1 / 10)" "0 \<le> fl32 (3 / 10)" by simp_all
  define f where "f = (let diff = wrap32 (tlvl - lvl) in if 3 \<le> diff then 2 else if 1 \<le> diff then 3 / 2 else if diff = 0 then 1
                         else if -5 \<le> diff then 1 / 2 else fl32 (1 / 10))"
  have f: "0 \<le> f" by (simp add: f_def Let_def)
  have "calculateDelta base v lvl tlvl = fl32 (base * (if 80 < v then fl32 (f * fl32 (3 / 10)) else f))"
    by (simp add: calculateDelta_def Let_def f_def)
  then show ?thesis using b f tenth by (simp add: mult_nonneg_nonneg)
qed

lemma crossed_reached: "old \<le> new \<Longrightarrow> set (reached mss new) = set (reached mss old) \<union> set (crossed mss old new)"
  by (auto simp: reached_def crossed_def)

text \<open>Adding effects: the slugs afterwards are the slugs before and the new ones.\<close>

definition effect_slugs :: "character_manager \<Rightarrow> int \<Rightarrow> string set" where
  "effect_slugs m c = (case map_of m c of None \<Rightarrow> {} | Some ch \<Rightarrow> ae_effectSlug ` set (ch_activeEffects ch))"

lemma add_effect_slugs: "ae_effectSlug ` set (add_effect e es) = insert (ae_effectSlug e) (ae_effectSlug ` set es)"
proof (cases "list_ex (\<lambda>x. ae_effectSlug x = ae_effectSlug e) es")
  case True
  have "map ae_effectSlug (upd_first P (\<lambda>x. x\<lparr>ae_expiresAt := a, ae_value := b, ae_nextTickAt := d\<rparr>) es) = map ae_effectSlug es" for P a b d
    by (rule map_upd_first_inv) simp
  then have "ae_effectSlug ` set (add_effect e es) = ae_effectSlug ` set es"
    using True by (simp add: add_effect_def Let_def) (metis list.set_map)
  moreover have "ae_effectSlug e \<in> ae_effectSlug ` set es" using True by (simp add: list_ex_iff) (metis image_eqI)
  ultimately show ?thesis by auto
next
  case False
  then have "add_effect e es = es @ [e]" by (simp add: add_effect_def Let_def)
  then show ?thesis by simp
qed

lemma effect_slugs_add:
  "map_of m c = Some ch \<Longrightarrow> effect_slugs (addActiveEffect c e m) c = insert (ae_effectSlug e) (effect_slugs m c)
     \<and> (\<exists>ch'. map_of (addActiveEffect c e m) c = Some ch')"
  by (simp add: effect_slugs_def addActiveEffect_def add_effect_slugs)

lemma effect_slugs_fold:
  "map_of m c = Some ch \<Longrightarrow> effect_slugs (fold (\<lambda>ms. addActiveEffect c (f ms)) mss m) c
     = (\<lambda>ms. ae_effectSlug (f ms)) ` set mss \<union> effect_slugs m c"
proof (induction mss arbitrary: m ch)
  case (Cons ms mss)
  obtain ch' where "map_of (addActiveEffect c (f ms) m) c = Some ch'" using effect_slugs_add[OF Cons.prems] by blast
  from Cons.IH[OF this] effect_slugs_add[OF Cons.prems, of "f ms"] show ?case by auto
qed simp

definition milestone_slugs :: "milestone list \<Rightarrow> string \<Rightarrow> float32 \<Rightarrow> string set" where
  "milestone_slugs mss slug v = (\<lambda>ms. slug @ fst (snd ms)) ` set (reached mss v)"

lemma milestone_effect_slug [simp]: "ae_effectSlug (milestone_effect mm slug ms) = slug @ fst (snd ms)"
  by (simp add: milestone_effect_def split: prod.split)

section \<open>Properties\<close>

text \<open>A hit never lowers a mastery and never lifts it above 100, and it touches no other mastery
  of any character.\<close>

lemma mastery_grows_to_cap:
  assumes "0 \<le> base" "0 \<le> getMasteryValue mm c slug" "getMasteryValue mm c slug \<le> 100" "slug \<noteq> []"
    and "fl32 (getMasteryValue mm c slug) = getMasteryValue mm c slug"
  shows "case onPlayerAttack base flushEvery mss hasSave hasNotify c slug lvl tlvl (mm, m) of ((mm', m'), out) \<Rightarrow>
    getMasteryValue mm c slug \<le> getMasteryValue mm' c slug \<and> getMasteryValue mm' c slug \<le> 100 \<and>
    (\<forall>c' slug'. (c', slug') \<noteq> (c, slug) \<longrightarrow> getMasteryValue mm' c' slug' = getMasteryValue mm c' slug')"
proof -
  have "getMasteryValue mm c slug \<le> fl32 (getMasteryValue mm c slug + calculateDelta base (getMasteryValue mm c slug) lvl tlvl)"
    using fl32_mono[of "getMasteryValue mm c slug" "getMasteryValue mm c slug + calculateDelta base (getMasteryValue mm c slug) lvl tlvl"]
      delta_nonneg[OF assms(1), of "getMasteryValue mm c slug" lvl tlvl] assms(5) by simp
  then show ?thesis
    using assms(3,4)
    by (auto simp: onPlayerAttack_def Let_def getMasteryValue_def getAllMasteries_def split: prod.split)
qed

definition sample_mm :: mastery_manager where
  "sample_mm = \<lparr>mm_data = [7 \<mapsto> [(''sword'', 39 / 2)]], mm_hitCounters = (\<lambda>_ _. 0), mm_definitions = []\<rparr>"

lemma sample_mm_value: "getMasteryValue sample_mm 7 ''sword'' = 39 / 2" "fl32 (39 / 2) = 39 / 2"
  by (simp add: getMasteryValue_def getAllMasteries_def sample_mm_def) code_simp



end
