(* ===== verification/Pity.thy ===== *)
theory Pity
  imports Chunk_Floats "HOL-Library.Word"
begin

text \<open>
  \<^verbatim>\<open>services/PityManager.cpp\<close>: how often a player has killed without a given item
  dropping. The counters live in one map under a packed 64-bit key. What is persisted
  (\<open>savePityCounter\<close>) and whether the hint fires are returned.
\<close>

unbundle bit_operations_syntax

section \<open>State and operations\<close>

definition makeKey :: "int \<Rightarrow> int \<Rightarrow> 64 word" where
  "makeKey characterId itemId = push_bit 32 (word_of_int characterId) OR ucast (word_of_int itemId :: 32 word)"

type_synonym pity_manager = "64 word \<Rightarrow> int option"

definition loadPityData :: "int \<Rightarrow> (int \<times> int) list \<Rightarrow> pity_manager \<Rightarrow> pity_manager" where
  "loadPityData c entries pm = fold (\<lambda>(itemId, killCount) m. m(makeKey c itemId \<mapsto> killCount)) entries pm"

definition getKillCount :: "pity_manager \<Rightarrow> int \<Rightarrow> int \<Rightarrow> int" where
  "getKillCount pm c i = (case pm (makeKey c i) of Some n \<Rightarrow> n | None \<Rightarrow> 0)"

definition getExtraDropChance :: "pity_manager \<Rightarrow> int \<Rightarrow> int \<Rightarrow> int \<Rightarrow> float32 \<Rightarrow> float32" where
  "getExtraDropChance pm c i softPityKills softBonusPerKill =
     (case pm (makeKey c i) of None \<Rightarrow> 0
      | Some cnt \<Rightarrow> if cnt \<le> softPityKills then 0
          else fl32 (fl32 (of_int (wrap32 (cnt - softPityKills))) * softBonusPerKill))"

definition isHardPity :: "pity_manager \<Rightarrow> int \<Rightarrow> int \<Rightarrow> int \<Rightarrow> bool" where
  "isHardPity pm c i hardPityKills = (case pm (makeKey c i) of None \<Rightarrow> False | Some cnt \<Rightarrow> hardPityKills \<le> cnt)"

datatype pity_out = SavePityCounter int int int | PityHint

definition incrementCounter ::
  "bool \<Rightarrow> int \<Rightarrow> int \<Rightarrow> int \<Rightarrow> pity_manager \<Rightarrow> pity_manager \<times> pity_out list" where
  "incrementCounter hasSave c i hintThreshold pm =
     (let newCount = wrap32 (getKillCount pm c i + 1) in
      (pm(makeKey c i \<mapsto> newCount),
       (if 0 < hintThreshold \<and> newCount = hintThreshold then [PityHint] else [])
       @ (if newCount mod 10 = 0 \<and> hasSave then [SavePityCounter c i newCount] else [])))"

definition resetCounter :: "bool \<Rightarrow> int \<Rightarrow> int \<Rightarrow> pity_manager \<Rightarrow> pity_manager \<times> pity_out list" where
  "resetCounter hasSave c i pm =
     (pm(makeKey c i \<mapsto> 0), if hasSave then [SavePityCounter c i 0] else [])"

section \<open>The packed key\<close>

lemma makeKey_low: "(ucast (makeKey c i) :: 32 word) = word_of_int i"
  by (rule bit_word_eqI) (auto simp: makeKey_def bit_simps)

lemma makeKey_high: "(ucast (drop_bit 32 (makeKey c i)) :: 32 word) = word_of_int c"
  by (rule bit_word_eqI) (auto simp: makeKey_def bit_simps)

lemma word32_inject: "in_i32 a \<Longrightarrow> in_i32 b \<Longrightarrow> (word_of_int a :: 32 word) = word_of_int b \<Longrightarrow> a = b"
proof -
  assume a: "in_i32 a" and b: "in_i32 b" and w: "(word_of_int a :: 32 word) = word_of_int b"
  from w have "a mod 2 ^ 32 = b mod 2 ^ 32" by (simp add: word_of_int_eq_iff take_bit_eq_mod)
  then have "wrap32 a = wrap32 b" unfolding wrap32_def by (metis mod_add_cong)
  with a b show "a = b" by simp
qed

lemma makeKey_inject:
  assumes "in_i32 c" "in_i32 i" "in_i32 c'" "in_i32 i'"
  shows "makeKey c i = makeKey c' i' \<longleftrightarrow> c = c' \<and> i = i'"
proof
  assume eq: "makeKey c i = makeKey c' i'"
  have "(word_of_int i :: 32 word) = word_of_int i'" using makeKey_low[of c i] makeKey_low[of c' i'] eq by simp
  moreover have "(word_of_int c :: 32 word) = word_of_int c'" using makeKey_high[of c i] makeKey_high[of c' i'] eq by simp
  ultimately show "c = c' \<and> i = i'" using assms word32_inject by blast
qed simp

lemma increment_get:
  assumes "in_i32 c" "in_i32 i" "in_i32 c'" "in_i32 i'" "incrementCounter hasSave c i hint pm = (pm', out)"
  shows "getKillCount pm' c' i' = (if c' = c \<and> i' = i then wrap32 (getKillCount pm c i + 1) else getKillCount pm c' i')"
  using assms makeKey_inject[OF assms(3,4,1,2)]
  by (auto simp: incrementCounter_def getKillCount_def Let_def)

section \<open>Runs of misses\<close>

fun misses :: "bool \<Rightarrow> int \<Rightarrow> int \<Rightarrow> int \<Rightarrow> nat \<Rightarrow> pity_manager \<Rightarrow> pity_manager \<times> pity_out list" where
  "misses hasSave c i hint 0 pm = (pm, [])"
| "misses hasSave c i hint (Suc n) pm =
     (let (pm1, out1) = misses hasSave c i hint n pm; (pm2, out2) = incrementCounter hasSave c i hint pm1
      in (pm2, out1 @ out2))"

text \<open>The last value the game server was told (\<open>d\<close> if it was not told any).\<close>

definition last_saved :: "int \<Rightarrow> pity_out list \<Rightarrow> int" where
  "last_saved d out = foldl (\<lambda>v e. case e of SavePityCounter c i n \<Rightarrow> n | PityHint \<Rightarrow> v) d out"

lemma last_saved_append [simp]: "last_saved d (xs @ ys) = last_saved (last_saved d xs) ys"
  by (simp add: last_saved_def)

lemma last_saved_simps [simp]:
  "last_saved d [] = d" "last_saved d (PityHint # xs) = last_saved d xs"
  "last_saved d (SavePityCounter c i n # xs) = last_saved n xs"
  by (simp_all add: last_saved_def)

lemma misses_count:
  assumes "0 \<le> getKillCount pm c i" "getKillCount pm c i + int n < INT_LIM"
  shows "getKillCount (fst (misses hasSave c i hint n pm)) c i = getKillCount pm c i + int n"
  using assms(2)
proof (induction n)
  case (Suc n)
  then have "getKillCount (fst (misses hasSave c i hint n pm)) c i = getKillCount pm c i + int n" by simp
  moreover have "wrap32 (getKillCount pm c i + int n + 1) = getKillCount pm c i + int n + 1"
    using Suc.prems assms(1) by (simp add: in_i32_def)
  ultimately show ?case
    by (simp add: split_beta incrementCounter_def Let_def) (simp add: getKillCount_def)
qed simp

lemma misses_hints:
  assumes "0 \<le> getKillCount pm c i" "getKillCount pm c i + int n < INT_LIM"
  shows "length (filter (\<lambda>e. e = PityHint) (snd (misses hasSave c i hint n pm)))
    = (if 0 < hint \<and> getKillCount pm c i < hint \<and> hint \<le> getKillCount pm c i + int n then 1 else 0)"
  using assms(2)
proof (induction n)
  case (Suc n)
  have cnt: "getKillCount (fst (misses hasSave c i hint n pm)) c i = getKillCount pm c i + int n"
    using Suc.prems by (intro misses_count assms(1)) simp
  moreover have "wrap32 (getKillCount pm c i + int n + 1) = getKillCount pm c i + int n + 1"
    using Suc.prems assms(1) by (simp add: in_i32_def)
  ultimately show ?case using Suc by (auto simp: split_beta incrementCounter_def Let_def)
qed simp

lemma misses_saved:
  assumes "0 \<le> getKillCount pm c i" "getKillCount pm c i + int n < INT_LIM"
    and "d \<le> getKillCount pm c i" "getKillCount pm c i - d < 10" "d mod 10 = 0"
  shows "let s = last_saved d (snd (misses True c i hint n pm)); k = getKillCount pm c i + int n
    in s \<le> k \<and> k - s < 10 \<and> s mod 10 = 0"
  using assms(2)
proof (induction n)
  case 0 then show ?case using assms by simp
next
  case (Suc n)
  have cnt: "getKillCount (fst (misses True c i hint n pm)) c i = getKillCount pm c i + int n"
    using Suc.prems by (intro misses_count assms(1)) simp
  have w: "wrap32 (getKillCount pm c i + int n + 1) = getKillCount pm c i + int n + 1"
    using Suc.prems assms(1) by (simp add: in_i32_def)
  define s k where "s = last_saved d (snd (misses True c i hint n pm))" and "k = getKillCount pm c i + int n"
  have IH: "s \<le> k \<and> k - s < 10 \<and> s mod 10 = 0" using Suc by (simp add: s_def k_def Let_def)
  have L: "last_saved d (snd (misses True c i hint (Suc n) pm)) = (if (k + 1) mod 10 = 0 then k + 1 else s)"
    by (simp add: split_beta incrementCounter_def Let_def cnt w s_def k_def)
  have k1: "getKillCount pm c i + int (Suc n) = k + 1" by (simp add: k_def)
  have "(k + 1) mod 10 = 0 \<or> k + 1 - s < 10" using IH by presburger
  then show ?case unfolding Let_def L k1 using IH by auto
qed

section \<open>Properties\<close>

text \<open>C16: Packing loses nothing: two (character, item) pairs of 32-bit ids share a key only if they
  are equal, so a counter is never another player's or another item's.\<close>

theorem pity_key_injective:
  assumes "in_i32 c" "in_i32 i" "in_i32 c'" "in_i32 i'"
  shows "makeKey c i = makeKey c' i' \<longleftrightarrow> c = c' \<and> i = i'"
  by (rule makeKey_inject[OF assms])

theorem pity_key_injective_witness: "makeKey 1 (-1) \<noteq> makeKey 2 (-1)"
  using pity_key_injective[of 1 "-1" 2 "-1"] by (simp add: in_i32_def)

text \<open>After a run of misses the counter has grown by exactly their number, the hint has fired
  exactly once if the run crossed its threshold and not otherwise, and the value last saved is
  at most nine kills behind.\<close>

lemma misses_counted:
  assumes "0 \<le> getKillCount pm c i" "getKillCount pm c i + int n < INT_LIM"
    and "d \<le> getKillCount pm c i" "getKillCount pm c i - d < 10" "d mod 10 = 0"
  shows "case misses True c i hint n pm of (pm', out) \<Rightarrow>
    getKillCount pm' c i = getKillCount pm c i + int n \<and>
    length (filter (\<lambda>e. e = PityHint) out)
      = (if 0 < hint \<and> getKillCount pm c i < hint \<and> hint \<le> getKillCount pm' c i then 1 else 0) \<and>
    last_saved d out \<le> getKillCount pm' c i \<and> getKillCount pm' c i - last_saved d out < 10"
  using misses_count[OF assms(1,2), of True hint] misses_hints[OF assms(1,2), of True hint] misses_saved[OF assms, of hint]
  by (auto simp: Let_def split: prod.splits)

end
