(* ===== verification/Reputation.thy ===== *)
theory Reputation
  imports Chunk_Prelude
begin

text \<open>
  \<^verbatim>\<open>services/ReputationManager.cpp\<close>: the standing of each character with each faction.
  The abstract view is the ordered type of tiers; the code's strings and ordinals refine it.
\<close>

section \<open>State and operations\<close>

type_synonym reputation_manager = "int \<Rightarrow> (string \<rightharpoonup> int) option"

definition loadCharacterReputations :: "int \<Rightarrow> (string \<rightharpoonup> int) \<Rightarrow> reputation_manager \<Rightarrow> reputation_manager" where
  "loadCharacterReputations c reps rm = rm(c \<mapsto> reps)"

definition unloadCharacterReputations :: "int \<Rightarrow> reputation_manager \<Rightarrow> reputation_manager" where
  "unloadCharacterReputations c rm = rm(c := None)"

definition getReputation :: "reputation_manager \<Rightarrow> int \<Rightarrow> string \<Rightarrow> int" where
  "getReputation rm c faction =
     (case rm c of None \<Rightarrow> 0 | Some reps \<Rightarrow> (case reps faction of Some v \<Rightarrow> v | None \<Rightarrow> 0))"

definition getAllReputations :: "reputation_manager \<Rightarrow> int \<Rightarrow> (string \<rightharpoonup> int)" where
  "getAllReputations rm c = (case rm c of None \<Rightarrow> Map.empty | Some reps \<Rightarrow> reps)"

text \<open>Fills the \<open>reputations\<close> of a dialogue context; a missing character leaves it as it is.\<close>

definition fillReputationContext :: "reputation_manager \<Rightarrow> int \<Rightarrow> (string \<rightharpoonup> int) \<Rightarrow> (string \<rightharpoonup> int)" where
  "fillReputationContext rm c ctx = (case rm c of None \<Rightarrow> ctx | Some reps \<Rightarrow> reps)"

definition getTier :: "int \<Rightarrow> string" where
  "getTier v =
     (if v < -500 then ''enemy'' else if v < 0 then ''stranger'' else if v < 200 then ''neutral''
      else if v < 500 then ''friendly'' else ''ally'')"

definition getTierOrdinal :: "string \<Rightarrow> int" where
  "getTierOrdinal tierName =
     (if tierName = ''enemy'' then 0 else if tierName = ''stranger'' then 1
      else if tierName = ''neutral'' then 2 else if tierName = ''friendly'' then 3
      else if tierName = ''ally'' then 4 else -1)"

datatype rep_out =
    SaveReputation int string int
  | NotifyReputation int string int string
  | TierChange int string string int

definition changeReputation ::
  "bool \<Rightarrow> bool \<Rightarrow> bool \<Rightarrow> int \<Rightarrow> string \<Rightarrow> int \<Rightarrow> reputation_manager \<Rightarrow> reputation_manager \<times> rep_out list" where
  "changeReputation hasSave hasNotify hasTier c faction delta rm =
     (if faction = [] \<or> delta = 0 then (rm, [])
      else
        let oldValue = getReputation rm c faction;
            newValue = wrap32 (oldValue + delta)
        in (rm(c \<mapsto> (getAllReputations rm c)(faction \<mapsto> newValue)),
            (if hasSave then [SaveReputation c faction newValue] else [])
            @ (if hasNotify then [NotifyReputation c faction newValue (getTier newValue)] else [])
            @ (if hasTier \<and> getTier oldValue \<noteq> getTier newValue
               then [TierChange c faction (getTier newValue) newValue] else [])))"

section \<open>Tiers\<close>

datatype tier = Enemy | Stranger | Neutral | Friendly | Ally

primrec tier_rank :: "tier \<Rightarrow> nat" where
  "tier_rank Enemy = 0"
| "tier_rank Stranger = 1"
| "tier_rank Neutral = 2"
| "tier_rank Friendly = 3"
| "tier_rank Ally = 4"

primrec tier_name :: "tier \<Rightarrow> string" where
  "tier_name Enemy = ''enemy''"
| "tier_name Stranger = ''stranger''"
| "tier_name Neutral = ''neutral''"
| "tier_name Friendly = ''friendly''"
| "tier_name Ally = ''ally''"

lemma tier_rank_inject: "tier_rank a = tier_rank b \<longleftrightarrow> a = b"
  by (cases a; cases b) simp_all

instantiation tier :: linorder
begin

definition less_eq_tier :: "tier \<Rightarrow> tier \<Rightarrow> bool" where
  "less_eq_tier a b \<longleftrightarrow> tier_rank a \<le> tier_rank b"

definition less_tier :: "tier \<Rightarrow> tier \<Rightarrow> bool" where
  "less_tier a b \<longleftrightarrow> tier_rank a < tier_rank b"

instance
  by standard (auto simp: less_eq_tier_def less_tier_def tier_rank_inject[symmetric])

end

definition tier_of :: "int \<Rightarrow> tier" where
  "tier_of v = (if v < -500 then Enemy else if v < 0 then Stranger else if v < 200 then Neutral
     else if v < 500 then Friendly else Ally)"

lemma tier_of_mono: "v \<le> w \<Longrightarrow> tier_of v \<le> tier_of w"
  by (auto simp: tier_of_def less_eq_tier_def)

lemma getTier_tier_of: "getTier v = tier_name (tier_of v)"
  by (simp add: getTier_def tier_of_def)

lemma ordinal_name [simp]: "getTierOrdinal (tier_name t) = int (tier_rank t)"
  by (cases t) (simp_all add: getTierOrdinal_def)

lemma tier_name_inject: "tier_name a = tier_name b \<longleftrightarrow> a = b"
  by (metis ordinal_name of_nat_eq_iff tier_rank_inject)

section \<open>Properties\<close>

text \<open>The tier names and ordinals of the code are the ordered tiers: comparing the ordinals of
  two reputations compares their tiers, a higher reputation never has a lower ordinal, and
  every value has a valid tier.\<close>

lemma tier_ordinal_refines:
  "(getTierOrdinal (getTier v) \<le> getTierOrdinal (getTier w) \<longleftrightarrow> tier_of v \<le> tier_of w)
   \<and> (getTierOrdinal (getTier (min v w)) \<le> getTierOrdinal (getTier (max v w)))
   \<and> 0 \<le> getTierOrdinal (getTier v)"
  using tier_of_mono[of "min v w" "max v w"]
  by (simp add: getTier_tier_of less_eq_tier_def)

text \<open>A reputation change moves exactly that character's standing with that faction by exactly
  the delta; it saves and reports the new value, and reports a tier change exactly when the
  tier differs, with the new tier; an empty faction or a zero delta does nothing.\<close>

lemma change_reputation_effect:
  assumes "in_i32 (getReputation rm c faction + delta)" "faction \<noteq> []" "delta \<noteq> 0"
  shows "case changeReputation True True True c faction delta rm of (rm', out) \<Rightarrow>
    (\<forall>c' f'. getReputation rm' c' f'
       = getReputation rm c' f' + (if c' = c \<and> f' = faction then delta else 0)) \<and>
    (let v = getReputation rm' c faction in
       SaveReputation c faction v \<in> set out \<and> NotifyReputation c faction v (getTier v) \<in> set out \<and>
       (\<forall>t w. TierChange c faction t w \<in> set out
          \<longleftrightarrow> t = getTier v \<and> w = v \<and> tier_of v \<noteq> tier_of (getReputation rm c faction)))"
proof -
  have get: "getReputation (rm(c \<mapsto> (getAllReputations rm c)(faction \<mapsto> v))) c' f'
      = (if c' = c \<and> f' = faction then v else getReputation rm c' f')" for v c' f'
    by (auto simp: getReputation_def getAllReputations_def split: option.split)
  show ?thesis
    using assms by (auto simp: changeReputation_def Let_def get getTier_tier_of tier_name_inject)
qed

end
