(* ===== verification/Dialogue_Sessions.thy ===== *)
theory Dialogue_Sessions
  imports Interfaces Chunk_Strings
begin

text \<open>
  \<^verbatim>\<open>services/DialogueSessionManager.cpp\<close>: the live dialogues, one per character. It offers
  the same \<open>session_table\<close> interface as the trade sessions. Its session ids name the client
  and the millisecond, not the character, so a new session needs a fresh id.
\<close>

section \<open>State and operations\<close>

record DialogueSessionStruct =
  ds_sessionId :: string
  ds_characterId :: int
  ds_clientId :: int
  ds_npcId :: int
  ds_dialogueId :: int
  ds_currentNodeId :: int
  ds_lastActivity :: int

definition TTL_SECONDS :: int where
  "TTL_SECONDS = 300"

record dialogue_manager =
  dm_sessions :: "(string \<times> DialogueSessionStruct) list"
  dm_characterToSession :: "int \<Rightarrow> string option"

definition dialogue_id :: "int \<Rightarrow> int \<Rightarrow> string" where
  "dialogue_id client now = ''dlg_'' @ to_string client @ ''_'' @ to_string (now div 1000000)"

definition drop_existing :: "int \<Rightarrow> dialogue_manager \<Rightarrow> dialogue_manager" where
  "drop_existing c m =
     (case dm_characterToSession m c of None \<Rightarrow> m
      | Some sid \<Rightarrow> m\<lparr>dm_sessions := omap_erase sid (dm_sessions m),
                      dm_characterToSession := (dm_characterToSession m)(c := None)\<rparr>)"

definition createSession ::
  "int \<Rightarrow> int \<Rightarrow> int \<Rightarrow> int \<Rightarrow> int \<Rightarrow> int \<Rightarrow> dialogue_manager \<Rightarrow> DialogueSessionStruct \<times> dialogue_manager" where
  "createSession client c npc dialogue startNode now m =
     (let m1 = drop_existing c m; sid = dialogue_id client now;
          s = \<lparr>ds_sessionId = sid, ds_characterId = c, ds_clientId = client, ds_npcId = npc,
               ds_dialogueId = dialogue, ds_currentNodeId = startNode, ds_lastActivity = now\<rparr>
      in (s, m1\<lparr>dm_sessions := umap_put sid s (dm_sessions m1),
               dm_characterToSession := (dm_characterToSession m1)(c \<mapsto> sid)\<rparr>))"

definition getSession :: "dialogue_manager \<Rightarrow> string \<Rightarrow> DialogueSessionStruct option" where
  "getSession m sid = map_of (dm_sessions m) sid"

definition getSessionByCharacter :: "dialogue_manager \<Rightarrow> int \<Rightarrow> DialogueSessionStruct option" where
  "getSessionByCharacter m c =
     (case dm_characterToSession m c of None \<Rightarrow> None | Some sid \<Rightarrow> map_of (dm_sessions m) sid)"

definition closeSession :: "string \<Rightarrow> dialogue_manager \<Rightarrow> dialogue_manager" where
  "closeSession sid m =
     (case map_of (dm_sessions m) sid of None \<Rightarrow> m
      | Some s \<Rightarrow> m\<lparr>dm_sessions := omap_erase sid (dm_sessions m),
                    dm_characterToSession := (dm_characterToSession m)(ds_characterId s := None)\<rparr>)"

definition closeSessionByCharacter :: "int \<Rightarrow> dialogue_manager \<Rightarrow> dialogue_manager" where
  "closeSessionByCharacter c m = drop_existing c m"

definition aged :: "int \<Rightarrow> DialogueSessionStruct \<Rightarrow> bool" where
  "aged now s \<longleftrightarrow> TTL_SECONDS \<le> (now - ds_lastActivity s) div 1000000000"

definition cleanupExpiredSessions :: "int \<Rightarrow> dialogue_manager \<Rightarrow> dialogue_manager" where
  "cleanupExpiredSessions now m =
     fold closeSession (map fst (filter (\<lambda>(sid, s). aged now s) (dm_sessions m))) m"

section \<open>The table\<close>

definition dialogue_ok :: "dialogue_manager \<Rightarrow> bool" where
  "dialogue_ok m \<longleftrightarrow> distinct (map fst (dm_sessions m)) \<and>
     (\<forall>k s. map_of (dm_sessions m) k = Some s \<longrightarrow> ds_sessionId s = k \<and> dm_characterToSession m (ds_characterId s) = Some k) \<and>
     (\<forall>c k. dm_characterToSession m c = Some k \<longrightarrow> (\<exists>s. map_of (dm_sessions m) k = Some s \<and> ds_characterId s = c))"

lemma dialogue_okD:
  assumes "dialogue_ok m"
  shows "distinct (map fst (dm_sessions m))"
    and "map_of (dm_sessions m) k = Some s \<Longrightarrow> ds_sessionId s = k"
    and "map_of (dm_sessions m) k = Some s \<Longrightarrow> dm_characterToSession m (ds_characterId s) = Some k"
    and "dm_characterToSession m c = Some k \<Longrightarrow> \<exists>s. map_of (dm_sessions m) k = Some s \<and> ds_characterId s = c"
  using assms unfolding dialogue_ok_def by blast+

lemma erase_ok:
  assumes ok: "dialogue_ok m" and s: "map_of (dm_sessions m) k = Some s"
  shows "dialogue_ok (m\<lparr>dm_sessions := omap_erase k (dm_sessions m),
                    dm_characterToSession := (dm_characterToSession m)(ds_characterId s := None)\<rparr>)"
proof -
  note D = dialogue_okD[OF ok]
  let ?m = "m\<lparr>dm_sessions := omap_erase k (dm_sessions m),
                  dm_characterToSession := (dm_characterToSession m)(ds_characterId s := None)\<rparr>"
  have live: "map_of (dm_sessions m) k' = Some s' \<and> k' \<noteq> k" if "map_of (dm_sessions ?m) k' = Some s'" for k' s'
    using that by (simp split: if_splits)
  have apart: "ds_characterId s' \<noteq> ds_characterId s" if "map_of (dm_sessions m) k' = Some s'" "k' \<noteq> k" for k' s'
  proof
    assume "ds_characterId s' = ds_characterId s"
    with D(3)[OF that(1)] D(3)[OF s] that(2) show False by simp
  qed
  have index: "\<exists>s'. map_of (dm_sessions ?m) k' = Some s' \<and> ds_characterId s' = c"
    if c: "dm_characterToSession ?m c = Some k'" for c k'
  proof -
    from c have ne: "c \<noteq> ds_characterId s" and old: "dm_characterToSession m c = Some k'" by (auto split: if_splits)
    from D(4)[OF old] s ne have "k' \<noteq> k" by auto
    with D(4)[OF old] show ?thesis by simp
  qed
  have entry: "ds_sessionId s' = k' \<and> dm_characterToSession ?m (ds_characterId s') = Some k'"
    if "map_of (dm_sessions ?m) k' = Some s'" for k' s'
    using live[OF that] D(2,3)[of k' s'] apart[of k' s'] by simp
  show ?thesis
    unfolding dialogue_ok_def
  proof (intro conjI allI impI)
    show "distinct (map fst (dm_sessions ?m))" by (simp add: distinct_omap_erase D(1))
  qed (use entry index in blast)+
qed

lemma closeSession_ok: "dialogue_ok m \<Longrightarrow> dialogue_ok (closeSession k m)"
  by (auto simp: closeSession_def intro: erase_ok split: option.split)

lemma drop_existing_close:
  assumes "dialogue_ok m"
  shows "drop_existing c m = (case dm_characterToSession m c of None \<Rightarrow> m | Some k \<Rightarrow> closeSession k m)"
  using dialogue_okD(4)[OF assms] by (fastforce simp: drop_existing_def closeSession_def split: option.splits)

lemma drop_existing_ok: "dialogue_ok m \<Longrightarrow> dialogue_ok (drop_existing c m)"
  by (simp add: drop_existing_close closeSession_ok split: option.split)

lemma closeSession_lookup: "map_of (dm_sessions (closeSession k m)) = (map_of (dm_sessions m))(k := None)"
  by (auto simp: closeSession_def fun_eq_iff split: option.split)

interpretation dialogues: session_table dialogue_ok getSession getSessionByCharacter ds_sessionId
  "\<lambda>s. {ds_characterId s}" closeSession
proof unfold_locales
  show "getSession m (ds_sessionId v) = Some v \<and> c \<in> {ds_characterId v}"
    if ok: "dialogue_ok m" and v: "getSessionByCharacter m c = Some v" for m c v
  proof -
    obtain k where k: "dm_characterToSession m c = Some k" "map_of (dm_sessions m) k = Some v"
      using v by (auto simp: getSessionByCharacter_def split: option.splits)
    with dialogue_okD(2)[OF ok k(2)] dialogue_okD(4)[OF ok k(1)] show ?thesis by (auto simp: getSession_def)
  qed
qed (auto simp: getSession_def getSessionByCharacter_def dialogue_okD(2,3) closeSession_ok closeSession_lookup)

lemma createSession_ok:
  assumes ok: "dialogue_ok m" and fresh: "getSession m (dialogue_id client now) = None"
    and out: "createSession client c npc d n now m = (s, m')"
  shows "dialogue_ok m'" and "getSessionByCharacter m' c = Some s"
    and "c' \<noteq> c \<Longrightarrow> getSessionByCharacter m' c' = getSessionByCharacter m c'"
proof -
  define m1 where "m1 = drop_existing c m"
  have ok1: "dialogue_ok m1" by (simp add: m1_def drop_existing_ok ok)
  note D = dialogue_okD[OF ok1]
  define k where "k = dialogue_id client now"
  have f1: "map_of (dm_sessions m1) k = None"
    using fresh by (auto simp: m1_def k_def getSession_def drop_existing_def split: option.split)
  have c1: "dm_characterToSession m1 c = None" by (simp add: m1_def drop_existing_def split: option.split)
  have m': "m' = m1\<lparr>dm_sessions := umap_put k s (dm_sessions m1), dm_characterToSession := (dm_characterToSession m1)(c \<mapsto> k)\<rparr>"
    and s: "ds_sessionId s = k" "ds_characterId s = c"
    using out by (auto simp: createSession_def Let_def m1_def k_def)
  have other: "ds_characterId s' \<noteq> c" if "map_of (dm_sessions m1) k' = Some s'" for k' s'
    using D(3)[OF that] c1 by auto
  have ne: "k' \<noteq> k" if "dm_characterToSession m1 c' = Some k'" for c' k'
    using D(4)[OF that] f1 by auto
  show "dialogue_ok m'"
    unfolding dialogue_ok_def m'
    using D other ne s by (auto simp: distinct_umap_put)
  show "getSessionByCharacter m' c = Some s" by (simp add: getSessionByCharacter_def m')
  show "getSessionByCharacter m' c' = getSessionByCharacter m c'" if "c' \<noteq> c"
  proof -
    have "getSessionByCharacter m' c' = getSessionByCharacter m1 c'"
      using that ne by (auto simp: getSessionByCharacter_def m' split: option.split)
    also have "\<dots> = getSessionByCharacter m c'"
    proof (cases "dm_characterToSession m c")
      case (Some k0)
      then obtain s0 where s0: "map_of (dm_sessions m) k0 = Some s0" "ds_characterId s0 = c"
        using dialogue_okD(4)[OF ok] by blast
      have "m1 = closeSession k0 m" using Some by (simp add: m1_def drop_existing_close[OF ok])
      with dialogues.close_frees[OF ok, of k0 s0 c'] s0 that show ?thesis by (simp add: getSession_def)
    qed (simp add: m1_def drop_existing_def)
    finally show ?thesis .
  qed
qed

lemma close_many_ok: "dialogue_ok m \<Longrightarrow> dialogue_ok (fold closeSession ks m)
   \<and> map_of (dm_sessions (fold closeSession ks m)) k = (if k \<in> set ks then None else map_of (dm_sessions m) k)"
  by (induction ks arbitrary: m) (auto simp: closeSession_ok closeSession_lookup)

section \<open>Properties\<close>

definition no_dialogues :: dialogue_manager where
  "no_dialogues = \<lparr>dm_sessions = [], dm_characterToSession = Map.empty\<rparr>"

lemma no_dialogues_ok [simp]: "dialogue_ok no_dialogues"
  by (simp add: dialogue_ok_def no_dialogues_def)

text \<open>Opening a dialogue ends the character's previous one and no one else's: afterwards he is in
  exactly the new session, which is found by its id and by the character, every other
  character keeps the session he was in, and the table stays consistent.\<close>

lemma dialogue_opens_one:
  assumes "dialogue_ok m" "getSession m (dialogue_id client now) = None"
  shows "case createSession client c npc d n now m of (s, m') \<Rightarrow>
    dialogue_ok m' \<and> getSession m' (ds_sessionId s) = Some s \<and> getSessionByCharacter m' c = Some s \<and>
    (\<forall>c'. c' \<noteq> c \<longrightarrow> getSessionByCharacter m' c' = getSessionByCharacter m c')"
proof -
  obtain s m' where out: "createSession client c npc d n now m = (s, m')" by (metis prod.collapse)
  note cr = createSession_ok[OF assms out]
  have "getSession m' (ds_sessionId s) = Some s" using dialogues.by_character_live[OF cr(1,2)] by blast
  with cr show ?thesis unfolding out prod.case by blast
qed

text \<open>The clean-up removes exactly the sessions idle for the time limit or longer, frees their
  characters and keeps everyone else's session.\<close>

lemma dialogue_cleanup_exact:
  assumes "dialogue_ok m"
  shows "let m' = cleanupExpiredSessions now m in
    dialogue_ok m' \<and>
    (\<forall>k. getSession m' k = (case getSession m k of None \<Rightarrow> None | Some s \<Rightarrow> if aged now s then None else Some s)) \<and>
    (\<forall>c. getSessionByCharacter m' c
       = (case getSessionByCharacter m c of None \<Rightarrow> None | Some s \<Rightarrow> if aged now s then None else Some s))"
proof -
  define m' where "m' = cleanupExpiredSessions now m"
  have ok': "dialogue_ok m'" using close_many_ok[OF assms] by (simp add: m'_def cleanupExpiredSessions_def)
  have g: "getSession m' k = (case getSession m k of None \<Rightarrow> None | Some s \<Rightarrow> if aged now s then None else Some s)" for k
  proof -
    have "k \<in> fst ` {x \<in> set (dm_sessions m). aged now (snd x)} \<longleftrightarrow> (\<exists>s. map_of (dm_sessions m) k = Some s \<and> aged now s)"
      using dialogue_okD(1)[OF assms] by force
    then show ?thesis
      using close_many_ok[OF assms, of _ k]
      by (auto simp: m'_def cleanupExpiredSessions_def getSession_def case_prod_unfold split: option.split)
  qed
  have "getSessionByCharacter m' c
       = (case getSessionByCharacter m c of None \<Rightarrow> None | Some s \<Rightarrow> if aged now s then None else Some s)" for c
  proof (cases "getSessionByCharacter m' c")
    case None
    have "aged now s" if "getSessionByCharacter m c = Some s" for s
    proof (rule ccontr)
      assume "\<not> aged now s"
      with dialogues.by_character_live[OF assms that] g[of "ds_sessionId s"] have "getSession m' (ds_sessionId s) = Some s" "c = ds_characterId s"
        by auto
      with dialogues.live_member[OF ok', of _ s c] None show False by simp
    qed
    with None show ?thesis by (auto split: option.split)
  next
    case (Some s)
    have "getSession m' (ds_sessionId s) = Some s" "c = ds_characterId s" using dialogues.by_character_live[OF ok' Some] by auto
    with g[of "ds_sessionId s"] have "getSession m (ds_sessionId s) = Some s" "\<not> aged now s"
      by (auto split: option.splits if_splits)
    with dialogues.live_member[OF assms, of _ s c] \<open>c = ds_characterId s\<close> Some show ?thesis by simp
  qed
  with ok' g show ?thesis by (simp add: Let_def m'_def)
qed

text \<open>Two characters of one client opening a dialogue in the same millisecond share an id: the second
  replaces the first's session, and the first is then found to be in the other's dialogue.\<close>

lemma same_millisecond_sessions_collide:
  "map_option ds_characterId
     (getSessionByCharacter (snd (createSession 3 8 1 2 4 100 (snd (createSession 3 7 1 2 4 99 no_dialogues)))) 7) = Some 8"
  by code_simp

end
