(* ===== verification/Quests.thy ===== *)
theory Quests
  imports Inventory Experience Reputation
begin

text \<open>
  \<^verbatim>\<open>services/QuestManager.cpp\<close>: the quest log of every character. A quest is a list of steps; a
  step is advanced by triggers (kills, items, talks, positions, objects), the quest is
  completed after its last step and turned in for its rewards. The \<open>progress\<close> of a step is a
  JSON object, as in the code.

  Packets to the client and to the game server are output values. The environment
  \<open>quest_env\<close> holds what the operations read elsewhere: the item catalogue, whether a client
  is reachable, the clocks, and the parameters of the experience manager. The step
  parameters are objects whose members have the expected types: the \<^verbatim>\<open>type_error\<close> a malformed
  quest definition would raise is not modelled.
\<close>

section \<open>State\<close>

record quest_manager =
  qm_questsBySlug :: "(string \<times> QuestStruct) list"
  qm_questsById :: "int \<Rightarrow> QuestStruct option"
  qm_playerProgress :: "(int \<times> (int \<times> PlayerQuestProgressStruct) list) list"
  qm_pendingFlagUpdates :: "UpdatePlayerFlagStruct list"
  qm_flagsLoaded :: "int list"
  qm_loaded :: bool

record quest_env =
  qe_items :: item_manager
  qe_reachable :: "int \<Rightarrow> bool"
  qe_worker :: bool
  qe_now :: int
  qe_nowSec :: int
  qe_pow :: "nat \<Rightarrow> float64"
  qe_table :: ExperienceLevelTable
  qe_expSave :: bool
  qe_expPacket :: bool
  qe_repSave :: bool
  qe_repNotify :: bool
  qe_repTier :: bool

text \<open>One reward as the client sees it: \<open>None\<close> when hidden.\<close>

datatype reward_view = ItemReward string int | AmountReward int | OtherReward

record quest_view =
  qv_questId :: int
  qv_questSlug :: string
  qv_clientQuestKey :: string
  qv_state :: string
  qv_currentStep :: int
  qv_progress :: json
  qv_totalSteps :: int
  qv_step :: "(QuestStepStruct \<times> int) option"
  qv_rewards :: "(string \<times> reward_view option) list"

datatype quest_out =
    QuestUpdate int quest_view
  | SaveQuestProgress int int string string int json
  | SavePlayerFlag UpdatePlayerFlagStruct

section \<open>What the client is told\<close>

definition reward_applies :: "int \<Rightarrow> QuestRewardStruct \<Rightarrow> bool" where
  "reward_applies classId r \<longleftrightarrow> qr_allowedClassIds r = [] \<or> classId \<in> set (qr_allowedClassIds r)"

definition resolveRewardsForClient ::
  "item_manager \<Rightarrow> QuestRewardStruct list \<Rightarrow> bool \<Rightarrow> int \<Rightarrow> (string \<times> reward_view option) list" where
  "resolveRewardsForClient im rewards revealHidden classId =
     map (\<lambda>r. (qr_rewardType r,
         if qr_isHidden r \<and> \<not> revealHidden then None
         else if qr_rewardType r = ''item'' then Some (ItemReward (it_slug (getItemById im (qr_itemId r))) (qr_quantity r))
         else if qr_rewardType r = ''exp'' \<or> qr_rewardType r = ''gold'' then Some (AmountReward (qr_amount r))
         else Some OtherReward))
       (filter (\<lambda>r. classId = 0 \<or> reward_applies classId r) rewards)"

definition step_current :: "QuestStepStruct \<Rightarrow> json \<Rightarrow> int" where
  "step_current step pr =
     (if qs_stepType step = ''kill'' then value_int pr ''killed'' 0
      else if qs_stepType step = ''collect'' then value_int pr ''have'' 0
      else if qs_stepType step = ''talk'' \<or> qs_stepType step = ''reach''
      then (if value_bool pr ''done'' False then 1 else 0) else 0)"

definition sendQuestUpdate ::
  "quest_env \<Rightarrow> character_manager \<Rightarrow> int \<Rightarrow> PlayerQuestProgressStruct \<Rightarrow> QuestStruct \<Rightarrow> quest_out list" where
  "sendQuestUpdate env chars c pq q =
     (let ch = getCharacterData chars c in
      if ch_clientId ch \<le> 0 \<or> \<not> qe_reachable env (ch_clientId ch) then []
      else [QuestUpdate c
        \<lparr>qv_questId = qu_id q, qv_questSlug = qu_slug q, qv_clientQuestKey = qu_clientQuestKey q,
         qv_state = pq_state pq, qv_currentStep = pq_currentStep pq, qv_progress = pq_progress pq,
         qv_totalSteps = int (length (qu_steps q)),
         qv_step = (if pq_currentStep pq < int (length (qu_steps q))
            then let step = qu_steps q ! nat (pq_currentStep pq)
                 in Some (step, step_current step (pq_progress pq)) else None),
         qv_rewards = resolveRewardsForClient (qe_items env) (qu_rewards q) False (ch_classId ch)\<rparr>])"

section \<open>Steps\<close>

definition step_done :: "QuestStepStruct \<Rightarrow> json \<Rightarrow> bool" where
  "step_done step pr \<longleftrightarrow>
     (if qs_stepType step = ''kill'' then value_int (qs_params step) ''count'' 1 \<le> value_int pr ''killed'' 0
      else if qs_stepType step = ''collect'' then value_int (qs_params step) ''count'' 1 \<le> value_int pr ''have'' 0
      else if qs_stepType step = ''talk'' \<or> qs_stepType step = ''reach'' then value_bool pr ''done'' False
      else False)"

text \<open>The progress a step starts with; a collect step counts the first stack the character
  already carries.\<close>

definition initial_progress :: "PlayerInventoryItemStruct list \<Rightarrow> QuestStepStruct \<Rightarrow> json" where
  "initial_progress bag step =
     (if qs_stepType step = ''kill'' then JObject [(''killed'', JInt 0)]
      else if qs_stepType step = ''collect'' then
        let requiredItemId = value_int (qs_params step) ''item_id'' (-1);
            required = value_int (qs_params step) ''count'' 1;
            alreadyHave = (if 0 < requiredItemId
              then (case find (\<lambda>r. pi_itemId r = requiredItemId) bag of Some r \<Rightarrow> pi_quantity r | None \<Rightarrow> 0) else 0)
        in JObject [(''have'', JInt (min alreadyHave required))]
      else if qs_stepType step = ''talk'' \<or> qs_stepType step = ''reach'' then JObject [(''done'', JBool False)]
      else JObject [])"

definition touch :: "quest_env \<Rightarrow> PlayerQuestProgressStruct \<Rightarrow> PlayerQuestProgressStruct" where
  "touch env pq = pq\<lparr>pq_isDirty := True, pq_updatedAt := qe_now env\<rparr>"

definition completeQuest ::
  "quest_env \<Rightarrow> character_manager \<Rightarrow> QuestStruct \<Rightarrow> int \<Rightarrow> PlayerQuestProgressStruct
   \<Rightarrow> PlayerQuestProgressStruct \<times> quest_out list" where
  "completeQuest env chars q c pq =
     (let pq' = touch env (pq\<lparr>pq_state := ''completed''\<rparr>) in (pq', sendQuestUpdate env chars c pq' q))"

text \<open>\<open>checkStepCompletion\<close> and \<open>advanceStep\<close> call each other: a step that is already satisfied
  when it starts is advanced at once. The step number rises with every call.\<close>

function checkStepCompletion and advanceStep where
  "checkStepCompletion env chars bags q c pq =
     (if int (length (qu_steps q)) \<le> pq_currentStep pq then (pq, [])
      else let step = qu_steps q ! nat (pq_currentStep pq) in
        if \<not> step_done step (pq_progress pq) then (pq, [])
        else if qs_completionMode step = ''manual'' then (pq, [])
        else advanceStep env chars bags q c pq)"
| "advanceStep env chars bags q c pq =
     (let nextStep = pq_currentStep pq + 1 in
      if int (length (qu_steps q)) \<le> nextStep then completeQuest env chars q c pq
      else
        let pq1 = touch env (pq\<lparr>pq_currentStep := nextStep,
                    pq_progress := initial_progress (bags c) (qu_steps q ! nat nextStep)\<rparr>);
            (pq2, out) = checkStepCompletion env chars bags q c pq1
        in (pq2, sendQuestUpdate env chars c pq1 q @ out))"
  by pat_completeness auto
termination
  by (relation "measure (case_sum
        (\<lambda>(env, chars, bags, q, c, pq). 2 * nat (int (length (qu_steps q)) - pq_currentStep pq) + 1)
        (\<lambda>(env, chars, bags, q, c, pq). 2 * nat (int (length (qu_steps q)) - pq_currentStep pq)))")
     (auto simp: touch_def)

declare checkStepCompletion.simps [simp del] advanceStep.simps [simp del]

section \<open>Static data and the life cycle of a log\<close>

definition no_quests :: quest_manager where
  "no_quests = \<lparr>qm_questsBySlug = [], qm_questsById = Map.empty, qm_playerProgress = [],
     qm_pendingFlagUpdates = [], qm_flagsLoaded = [], qm_loaded = False\<rparr>"

definition setQuests :: "QuestStruct list \<Rightarrow> quest_manager \<Rightarrow> quest_manager" where
  "setQuests quests qm =
     (let bySlug = fold (\<lambda>q. umap_put (qu_slug q) q) quests []
      in qm\<lparr>qm_questsBySlug := bySlug,
            qm_questsById := fold (\<lambda>(slug, q) ids. ids(qu_id q \<mapsto> q)) bySlug Map.empty,
            qm_loaded := True\<rparr>)"

definition getQuestBySlug :: "quest_manager \<Rightarrow> string \<Rightarrow> QuestStruct option" where
  "getQuestBySlug qm slug = map_of (qm_questsBySlug qm) slug"

definition getQuestById :: "quest_manager \<Rightarrow> int \<Rightarrow> QuestStruct option" where
  "getQuestById qm i = qm_questsById qm i"

text \<open>The quests of a character; \<open>operator[]\<close> makes an empty log for a new one.\<close>

definition quest_log :: "quest_manager \<Rightarrow> int \<Rightarrow> (int \<times> PlayerQuestProgressStruct) list" where
  "quest_log qm c = (case map_of (qm_playerProgress qm) c of Some l \<Rightarrow> l | None \<Rightarrow> [])"

definition put_log :: "int \<Rightarrow> (int \<times> PlayerQuestProgressStruct) list \<Rightarrow> quest_manager \<Rightarrow> quest_manager" where
  "put_log c l qm = qm\<lparr>qm_playerProgress := umap_put c l (qm_playerProgress qm)\<rparr>"

definition loadPlayerQuests ::
  "quest_env \<Rightarrow> character_manager \<Rightarrow> int \<Rightarrow> PlayerQuestProgressStruct list \<Rightarrow> quest_manager
   \<Rightarrow> quest_manager \<times> quest_out list" where
  "loadPlayerQuests env chars c quests qm =
     (let qm' = put_log c (fold (\<lambda>pq. umap_put (pq_questId pq) pq) quests []) qm
      in (qm', concat (map (\<lambda>pq. case getQuestById qm' (pq_questId pq) of None \<Rightarrow> []
                                | Some q \<Rightarrow> sendQuestUpdate env chars c pq q) quests)))"

definition unloadPlayerQuests :: "int \<Rightarrow> quest_manager \<Rightarrow> quest_manager" where
  "unloadPlayerQuests c qm = qm\<lparr>qm_playerProgress := omap_erase c (qm_playerProgress qm)\<rparr>"

definition context_quest :: "quest_manager \<Rightarrow> int \<times> PlayerQuestProgressStruct \<Rightarrow> PlayerContextStruct \<Rightarrow> PlayerContextStruct" where
  "context_quest qm e ctx = (case e of (questId, pq) \<Rightarrow>
       let slug = (if pq_questSlug pq \<noteq> [] then pq_questSlug pq
                   else case getQuestById qm questId of Some q \<Rightarrow> qu_slug q | None \<Rightarrow> []);
           ctx' = (if slug \<noteq> [] then ctx\<lparr>cx_questStates := (cx_questStates ctx)(slug \<mapsto> pq_state pq),
                     cx_questCurrentStep := (cx_questCurrentStep ctx)(slug \<mapsto> pq_currentStep pq)\<rparr> else ctx)
       in ctx'\<lparr>cx_questProgress := (cx_questProgress ctx')(questId \<mapsto> pq_progress pq)\<rparr>)"

definition fillQuestContext :: "quest_manager \<Rightarrow> int \<Rightarrow> PlayerContextStruct \<Rightarrow> PlayerContextStruct" where
  "fillQuestContext qm c ctx = fold (context_quest qm) (quest_log qm c) ctx"

definition getQuestStateBySlug :: "quest_manager \<Rightarrow> int \<Rightarrow> string \<Rightarrow> string" where
  "getQuestStateBySlug qm c slug =
     (case getQuestBySlug qm slug of None \<Rightarrow> []
      | Some q \<Rightarrow> (case map_of (quest_log qm c) (qu_id q) of None \<Rightarrow> [] | Some pq \<Rightarrow> pq_state pq))"

section \<open>Triggers\<close>

text \<open>The loop all triggers share: every active quest whose current step the trigger concerns
  gets new progress, is reported and checked. \<open>f\<close> is the part that differs.\<close>

text \<open>Both helpers look the quest of a record up by its id.\<close>

definition check_by_id ::
  "quest_env \<Rightarrow> character_manager \<Rightarrow> (int \<Rightarrow> PlayerInventoryItemStruct list) \<Rightarrow> quest_manager \<Rightarrow> int
   \<Rightarrow> PlayerQuestProgressStruct \<Rightarrow> PlayerQuestProgressStruct \<times> quest_out list" where
  "check_by_id env chars bags qm c pq =
     (case getQuestById qm (pq_questId pq) of None \<Rightarrow> (pq, [])
      | Some q \<Rightarrow> checkStepCompletion env chars bags q c pq)"

definition trigger_quest ::
  "quest_env \<Rightarrow> character_manager \<Rightarrow> (int \<Rightarrow> PlayerInventoryItemStruct list) \<Rightarrow> quest_manager \<Rightarrow> int
   \<Rightarrow> (QuestStepStruct \<Rightarrow> json \<Rightarrow> json option) \<Rightarrow> int \<Rightarrow> PlayerQuestProgressStruct
   \<Rightarrow> PlayerQuestProgressStruct \<times> quest_out list" where
  "trigger_quest env chars bags qm c f questId pq =
     (if pq_state pq \<noteq> ''active'' then (pq, [])
      else case getQuestById qm questId of None \<Rightarrow> (pq, [])
      | Some q \<Rightarrow>
        if int (length (qu_steps q)) \<le> pq_currentStep pq then (pq, [])
        else case f (qu_steps q ! nat (pq_currentStep pq)) (pq_progress pq) of None \<Rightarrow> (pq, [])
        | Some pr \<Rightarrow>
          let pq1 = touch env (pq\<lparr>pq_progress := pr\<rparr>);
              (pq2, out) = check_by_id env chars bags qm c pq1
          in (pq2, sendQuestUpdate env chars c pq1 q @ out))"

definition trigger ::
  "quest_env \<Rightarrow> character_manager \<Rightarrow> (int \<Rightarrow> PlayerInventoryItemStruct list) \<Rightarrow> int
   \<Rightarrow> (QuestStepStruct \<Rightarrow> json \<Rightarrow> json option) \<Rightarrow> quest_manager \<Rightarrow> quest_manager \<times> quest_out list" where
  "trigger env chars bags c f qm =
     (case map_of (qm_playerProgress qm) c of None \<Rightarrow> (qm, [])
      | Some l \<Rightarrow>
        let l' = map (\<lambda>(questId, pq). (questId, trigger_quest env chars bags qm c f questId pq)) l
        in (put_log c (map (\<lambda>(questId, pq, out). (questId, pq)) l') qm, concat (map (\<lambda>(questId, pq, out). out) l')))"

text \<open>Counting triggers: one more of what the step asks for, until it has enough.\<close>

definition count_up :: "string \<Rightarrow> string \<Rightarrow> string \<Rightarrow> int \<Rightarrow> QuestStepStruct \<Rightarrow> json \<Rightarrow> json option" where
  "count_up stepType idKey counter i step pr =
     (if qs_stepType step \<noteq> stepType \<or> value_int (qs_params step) idKey (-1) \<noteq> i then None
      else if value_int pr counter 0 < value_int (qs_params step) ''count'' 1
      then Some (json_set counter (JInt (value_int pr counter 0 + 1)) pr) else None)"

definition onMobKilled where
  "onMobKilled env chars bags c mobId = trigger env chars bags c (count_up ''kill'' ''mob_id'' ''killed'' mobId)"

definition onWorldObjectInteracted where
  "onWorldObjectInteracted env chars bags c objectId =
     trigger env chars bags c (count_up ''interact'' ''object_id'' ''interacted'' objectId)"

definition onItemObtained where
  "onItemObtained env chars bags c itemId quantity =
     trigger env chars bags c (\<lambda>step pr.
       if qs_stepType step \<noteq> ''collect'' \<or> value_int (qs_params step) ''item_id'' (-1) \<noteq> itemId then None
       else Some (json_set ''have''
              (JInt (min (wrap32 (value_int pr ''have'' 0 + quantity)) (value_int (qs_params step) ''count'' 1))) pr))"

definition onNPCTalked where
  "onNPCTalked env chars bags c npcId =
     trigger env chars bags c (\<lambda>step pr.
       let requiredNpcId = value_int (qs_params step) ''npc_id'' (-1) in
       if qs_stepType step \<noteq> ''talk'' \<or> (requiredNpcId \<noteq> npcId \<and> requiredNpcId \<noteq> -1) then None
       else Some (json_set ''done'' (JBool True) pr))"

definition onPositionReached where
  "onPositionReached env chars bags c x y =
     trigger env chars bags c (\<lambda>step pr.
       if qs_stepType step \<noteq> ''reach'' then None
       else
         let dx = fl32 (x - value_float (qs_params step) ''x'' 0);
             dy = fl32 (y - value_float (qs_params step) ''y'' 0);
             dist = sqrt32 (fl32 (fl32 (dx * dx) + fl32 (dy * dy)))
         in if dist \<le> value_float (qs_params step) ''radius'' 200 then Some (json_set ''done'' (JBool True) pr)
            else None)"

definition advanceQuestStepBySlug ::
  "quest_env \<Rightarrow> character_manager \<Rightarrow> (int \<Rightarrow> PlayerInventoryItemStruct list) \<Rightarrow> int \<Rightarrow> string \<Rightarrow> quest_manager
   \<Rightarrow> quest_manager \<times> quest_out list" where
  "advanceQuestStepBySlug env chars bags c slug qm =
     (case getQuestBySlug qm slug of None \<Rightarrow> (qm, [])
      | Some q \<Rightarrow>
        (case map_of (quest_log qm c) (qu_id q) of None \<Rightarrow> (put_log c (quest_log qm c) qm, [])
         | Some pq \<Rightarrow>
           if pq_state pq \<noteq> ''active'' then (put_log c (quest_log qm c) qm, [])
           else case getQuestById qm (pq_questId pq) of None \<Rightarrow> (put_log c (quest_log qm c) qm, [])
           | Some q' \<Rightarrow>
             let (pq', out) = advanceStep env chars bags q' c pq
             in (put_log c (umap_put (qu_id q) pq' (quest_log qm c)) qm, out)))"

section \<open>Taking, failing and turning in\<close>

definition new_quest ::
  "quest_env \<Rightarrow> int \<Rightarrow> string \<Rightarrow> PlayerInventoryItemStruct list \<Rightarrow> QuestStruct \<Rightarrow> PlayerQuestProgressStruct" where
  "new_quest env c slug bag q =
     \<lparr>pq_characterId = c, pq_questId = qu_id q, pq_questSlug = slug, pq_state = ''active'', pq_currentStep = 0,
      pq_progress = (if qu_steps q = [] then JObject [] else initial_progress bag (qu_steps q ! 0)),
      pq_isDirty = True, pq_updatedAt = qe_now env\<rparr>"

definition offerQuest ::
  "quest_env \<Rightarrow> character_manager \<Rightarrow> (int \<Rightarrow> PlayerInventoryItemStruct list) \<Rightarrow> int \<Rightarrow> string \<Rightarrow> quest_manager
   \<Rightarrow> bool \<times> quest_manager \<times> quest_out list" where
  "offerQuest env chars bags c slug qm =
     (case getQuestBySlug qm slug of None \<Rightarrow> (False, qm, [])
      | Some q \<Rightarrow>
        if ch_characterLevel (getCharacterData chars c) < qu_minLevel q then (False, qm, [])
        else if (case map_of (quest_log qm c) (qu_id q) of None \<Rightarrow> False
                 | Some pq \<Rightarrow> pq_state pq \<in> {''active'', ''offered'', ''completed''})
        then (False, put_log c (quest_log qm c) qm, [])
        else
          let pq = new_quest env c slug (bags c) q;
              (pq', out) = check_by_id env chars bags qm c pq
          in (True, put_log c (umap_put (qu_id q) pq' (quest_log qm c)) qm, sendQuestUpdate env chars c pq q @ out))"

record quest_world =
  qw_quests :: quest_manager
  qw_inv :: inventory_manager
  qw_chars :: character_manager
  qw_reps :: reputation_manager
  qw_out :: "quest_out list"
  qw_expOut :: "exp_out list"
  qw_repOut :: "rep_out list"
  qw_titleChecks :: "(int \<times> string) list"

text \<open>The reputation a quest gives or takes.\<close>

definition change_rep :: "quest_env \<Rightarrow> int \<Rightarrow> string \<Rightarrow> int \<Rightarrow> quest_world \<Rightarrow> quest_world" where
  "change_rep env c faction delta w =
     (if faction \<noteq> [] \<and> delta \<noteq> 0
      then let (reps, out) = changeReputation (qe_repSave env) (qe_repNotify env) (qe_repTier env) c faction delta (qw_reps w)
           in w\<lparr>qw_reps := reps, qw_repOut := qw_repOut w @ out\<rparr>
      else w)"

definition failQuest :: "quest_env \<Rightarrow> int \<Rightarrow> string \<Rightarrow> quest_world \<Rightarrow> bool \<times> quest_world" where
  "failQuest env c slug w =
     (let qm = qw_quests w; refused = (False, w\<lparr>qw_quests := put_log c (quest_log qm c) qm\<rparr>) in
      case getQuestBySlug qm slug of None \<Rightarrow> (False, w)
      | Some q \<Rightarrow>
        (case map_of (quest_log qm c) (qu_id q) of None \<Rightarrow> refused
         | Some pq \<Rightarrow>
           if pq_state pq = ''turned_in'' \<or> pq_state pq = ''failed'' then refused
           else
             let pq' = touch env (pq\<lparr>pq_state := ''failed''\<rparr>)
             in (True, change_rep env c (qu_reputationFactionSlug q) (qu_reputationOnFail q)
                  (w\<lparr>qw_quests := put_log c (umap_put (qu_id q) pq' (quest_log qm c)) qm,
                     qw_out := qw_out w @ sendQuestUpdate env (qw_chars w) c pq' q\<rparr>))))"

datatype notification =
    QuestTurnedIn int string "(string \<times> reward_view option) list"
  | ExpReceived int
  | ItemReceived int string int
  | GoldReceived int

definition reward_notes :: "item_manager \<Rightarrow> QuestRewardStruct \<Rightarrow> notification list" where
  "reward_notes im r =
     (if qr_rewardType r = ''exp'' then [ExpReceived (qr_amount r)]
      else if qr_rewardType r = ''item'' then [ItemReceived (qr_itemId r) (it_slug (getItemById im (qr_itemId r))) (qr_quantity r)]
      else if qr_rewardType r = ''gold'' then [GoldReceived (qr_amount r)] else [])"

text \<open>Adding an item calls back into the quest log (\<^verbatim>\<open>InventoryManager\<close> calls \<open>onItemObtained\<close>).\<close>

definition gain_item :: "quest_env \<Rightarrow> int \<Rightarrow> int \<Rightarrow> int \<Rightarrow> quest_world \<Rightarrow> quest_world" where
  "gain_item env c itemId quantity w =
     (let (ok, ivm) = addItemToInventory (qe_items env) c itemId quantity (qw_inv w);
          w1 = w\<lparr>qw_inv := ivm\<rparr>
      in if ok \<and> iv_hasQuest ivm
         then let (qm, out) = onItemObtained env (qw_chars w1) (getPlayerInventory ivm) c itemId quantity (qw_quests w1)
              in w1\<lparr>qw_quests := qm, qw_out := qw_out w1 @ out\<rparr>
         else w1)"

definition consume_step :: "int \<Rightarrow> QuestStepStruct \<Rightarrow> quest_world \<Rightarrow> quest_world" where
  "consume_step c step w =
     (let requiredItemId = value_int (qs_params step) ''item_id'' (-1);
          required = value_int (qs_params step) ''count'' 1
      in if qs_stepType step = ''collect'' \<and> 0 < requiredItemId \<and> 0 < required
         then w\<lparr>qw_inv := snd (removeItemFromInventory c requiredItemId required (qw_inv w))\<rparr> else w)"

definition grant_reward :: "quest_env \<Rightarrow> int \<Rightarrow> int \<Rightarrow> QuestRewardStruct \<Rightarrow> quest_world \<Rightarrow> quest_world" where
  "grant_reward env c questId r w =
     (if qr_rewardType r = ''exp'' \<and> 0 < qr_amount r
      then let (res, chars, out) = grantExperience (qe_pow env) (qe_table env) (qe_expSave env) (qe_expPacket env)
                 (qe_now env) (qe_nowSec env) c (wrap32 (qr_amount r)) ''quest_reward'' questId (qw_chars w)
           in w\<lparr>qw_chars := chars, qw_expOut := qw_expOut w @ out\<rparr>
      else if qr_rewardType r = ''item'' \<and> 0 < qr_itemId r then gain_item env c (qr_itemId r) (qr_quantity r) w
      else if qr_rewardType r = ''gold'' \<and> 0 < qr_amount r
      then (case getItemBySlug (qe_items env) ''gold_coin'' of None \<Rightarrow> w
            | Some g \<Rightarrow> gain_item env c (it_id g) (wrap32 (qr_amount r)) w)
      else w)"

definition turnInQuest :: "quest_env \<Rightarrow> int \<Rightarrow> string \<Rightarrow> quest_world \<Rightarrow> notification list \<times> quest_world" where
  "turnInQuest env c slug w =
     (let qm = qw_quests w; refused = ([], w\<lparr>qw_quests := put_log c (quest_log qm c) qm\<rparr>) in
      case getQuestBySlug qm slug of None \<Rightarrow> ([], w)
      | Some q \<Rightarrow>
        (case map_of (quest_log qm c) (qu_id q) of None \<Rightarrow> refused
         | Some pq \<Rightarrow>
           if pq_state pq \<noteq> ''completed'' then refused
           else
             let pq' = touch env (pq\<lparr>pq_state := ''turned_in''\<rparr>);
                 rewards = filter (reward_applies (ch_classId (getCharacterData (qw_chars w) c))) (qu_rewards q);
                 w1 = w\<lparr>qw_quests := put_log c (umap_put (qu_id q) pq' (quest_log qm c)) qm,
                        qw_titleChecks := qw_titleChecks w @ [(c, qu_slug q)],
                        qw_out := qw_out w @ sendQuestUpdate env (qw_chars w) c pq' q\<rparr>;
                 w2 = change_rep env c (qu_reputationFactionSlug q) (qu_reputationOnComplete q) w1;
                 w3 = fold (consume_step c) (qu_steps q) w2;
                 w4 = fold (grant_reward env c (qu_id q)) rewards w3
             in (QuestTurnedIn (qu_id q) (qu_clientQuestKey q) (resolveRewardsForClient (qe_items env) rewards True 0)
                   # concat (map (reward_notes (qe_items env)) rewards), w4)))"

section \<open>Flags and persistence\<close>

definition getFlagBool :: "character_manager \<Rightarrow> int \<Rightarrow> string \<Rightarrow> bool" where
  "getFlagBool chars c key =
     (case find (\<lambda>f. pf_flagKey f = key \<and> pf_boolValue f \<noteq> None) (ch_flags (getCharacterData chars c)) of
        Some f \<Rightarrow> pf_boolValue f = Some True | None \<Rightarrow> False)"

definition queueFlagUpdate :: "UpdatePlayerFlagStruct \<Rightarrow> quest_manager \<Rightarrow> quest_manager" where
  "queueFlagUpdate fu qm = qm\<lparr>qm_pendingFlagUpdates := qm_pendingFlagUpdates qm @ [fu]\<rparr>"

definition put_flag :: "string \<Rightarrow> (PlayerFlagStruct \<Rightarrow> PlayerFlagStruct) \<Rightarrow> PlayerFlagStruct list \<Rightarrow> PlayerFlagStruct list" where
  "put_flag key f flags =
     (if list_ex (\<lambda>fl. pf_flagKey fl = key) flags then upd_first (\<lambda>fl. pf_flagKey fl = key) f flags
      else flags @ [f \<lparr>pf_flagKey = key, pf_boolValue = None, pf_intValue = None\<rparr>])"

definition setFlagBool ::
  "int \<Rightarrow> string \<Rightarrow> bool \<Rightarrow> quest_manager \<times> character_manager \<Rightarrow> quest_manager \<times> character_manager" where
  "setFlagBool c key v st =
     (case st of (qm, chars) \<Rightarrow>
       (queueFlagUpdate \<lparr>uf_characterId = c, uf_flagKey = key, uf_boolValue = Some v, uf_intValue = None\<rparr> qm,
        setCharacterFlags c (put_flag key (\<lambda>f. f\<lparr>pf_boolValue := Some v\<rparr>) (ch_flags (getCharacterData chars c))) chars))"

definition setFlagInt ::
  "int \<Rightarrow> string \<Rightarrow> int \<Rightarrow> quest_manager \<times> character_manager \<Rightarrow> quest_manager \<times> character_manager" where
  "setFlagInt c key v st =
     (case st of (qm, chars) \<Rightarrow>
       (queueFlagUpdate \<lparr>uf_characterId = c, uf_flagKey = key, uf_boolValue = None, uf_intValue = Some v\<rparr> qm,
        setCharacterFlags c (put_flag key (\<lambda>f. f\<lparr>pf_intValue := Some v\<rparr>) (ch_flags (getCharacterData chars c))) chars))"

definition save_quest :: "int \<Rightarrow> int \<Rightarrow> PlayerQuestProgressStruct \<Rightarrow> quest_out" where
  "save_quest c questId pq =
     SaveQuestProgress c questId (pq_questSlug pq) (pq_state pq) (pq_currentStep pq) (pq_progress pq)"

definition flushPendingFlags :: "quest_env \<Rightarrow> quest_manager \<Rightarrow> quest_manager \<times> quest_out list" where
  "flushPendingFlags env qm =
     (qm\<lparr>qm_pendingFlagUpdates := []\<rparr>,
      if qe_worker env then map SavePlayerFlag (qm_pendingFlagUpdates qm) else [])"

definition clean :: "PlayerQuestProgressStruct \<Rightarrow> PlayerQuestProgressStruct" where
  "clean pq = pq\<lparr>pq_isDirty := False\<rparr>"

definition flushDirtyProgress :: "quest_env \<Rightarrow> quest_manager \<Rightarrow> quest_manager \<times> quest_out list" where
  "flushDirtyProgress env qm =
     (let out = concat (map (\<lambda>(c, l). map (\<lambda>(questId, pq). save_quest c questId pq)
                  (filter (pq_isDirty \<circ> snd) l)) (qm_playerProgress qm));
          qm1 = qm\<lparr>qm_playerProgress := map (\<lambda>(c, l). (c, map (\<lambda>(questId, pq). (questId, clean pq)) l)) (qm_playerProgress qm)\<rparr>;
          (qm2, flags) = flushPendingFlags env qm1
      in (qm2, (if qe_worker env then out else []) @ flags))"

definition flushAllProgress :: "quest_env \<Rightarrow> int \<Rightarrow> quest_manager \<Rightarrow> quest_manager \<times> quest_out list" where
  "flushAllProgress env c qm =
     (case map_of (qm_playerProgress qm) c of None \<Rightarrow> (qm, [])
      | Some l \<Rightarrow> (put_log c (map (\<lambda>(questId, pq). (questId, clean pq)) l) qm,
                   if qe_worker env then map (\<lambda>(questId, pq). save_quest c questId pq) l else []))"

definition markFlagsLoaded :: "int \<Rightarrow> quest_manager \<Rightarrow> quest_manager" where
  "markFlagsLoaded c qm = qm\<lparr>qm_flagsLoaded := List.insert c (qm_flagsLoaded qm)\<rparr>"

definition areFlagsLoaded :: "quest_manager \<Rightarrow> int \<Rightarrow> bool" where
  "areFlagsLoaded qm c \<longleftrightarrow> c \<in> set (qm_flagsLoaded qm)"

definition clearFlagsLoaded :: "int \<Rightarrow> quest_manager \<Rightarrow> quest_manager" where
  "clearFlagsLoaded c qm = qm\<lparr>qm_flagsLoaded := removeAll c (qm_flagsLoaded qm)\<rparr>"

end
