(* ===== verification/Quest_Logs.thy ===== *)
theory Quest_Logs
  imports Quests
begin

text \<open>
  The quest log of \<^verbatim>\<open>services/QuestManager.cpp\<close> over time: what every operation may do to it
  (\<open>evolves\<close>), what the game server has been told (\<open>server\<close>), the reachable worlds, and the
  properties of quests, kills, saving and rewards.
\<close>

section \<open>Steps only go forward\<close>

definition ready :: "QuestStruct \<Rightarrow> PlayerQuestProgressStruct \<Rightarrow> bool" where
  "ready q pq \<longleftrightarrow> pq_currentStep pq < int (length (qu_steps q)) \<and>
     (let step = qu_steps q ! nat (pq_currentStep pq)
      in step_done step (pq_progress pq) \<and> qs_completionMode step \<noteq> ''manual'')"

definition same_quest :: "PlayerQuestProgressStruct \<Rightarrow> PlayerQuestProgressStruct \<Rightarrow> bool" where
  "same_quest pq pq' \<longleftrightarrow> pq_questId pq' = pq_questId pq \<and> pq_questSlug pq' = pq_questSlug pq \<and>
     pq_characterId pq' = pq_characterId pq"

definition moved :: "QuestStruct \<Rightarrow> PlayerQuestProgressStruct \<Rightarrow> PlayerQuestProgressStruct \<Rightarrow> bool" where
  "moved q pq pq' \<longleftrightarrow> pq_isDirty pq' \<and> same_quest pq pq' \<and>
     (pq_state pq' = ''completed'' \<and> pq_currentStep pq \<le> pq_currentStep pq' \<and>
        int (length (qu_steps q)) \<le> pq_currentStep pq' + 1 \<and>
        (pq_currentStep pq' = pq_currentStep pq \<or> pq_currentStep pq' < int (length (qu_steps q)))
      \<or> pq_state pq' = pq_state pq \<and> pq_currentStep pq < pq_currentStep pq' \<and>
        pq_currentStep pq' < int (length (qu_steps q)) \<and> \<not> ready q pq')"

lemma touch_simps [simp]:
  "pq_isDirty (touch env pq)" "pq_state (touch env pq) = pq_state pq" "pq_currentStep (touch env pq) = pq_currentStep pq"
  "pq_progress (touch env pq) = pq_progress pq" "same_quest pq (touch env pq')  \<longleftrightarrow> same_quest pq pq'"
  "ready q (touch env pq) \<longleftrightarrow> ready q pq" "pq_questId (touch env pq) = pq_questId pq"
  "pq_questSlug (touch env pq) = pq_questSlug pq"
  by (simp_all add: touch_def same_quest_def ready_def)

lemma same_quest_upd [simp]:
  "same_quest pq pq" "same_quest pq (pq'\<lparr>pq_state := s\<rparr>) = same_quest pq pq'"
  "same_quest pq (pq'\<lparr>pq_currentStep := i\<rparr>) = same_quest pq pq'" "same_quest pq (pq'\<lparr>pq_progress := j\<rparr>) = same_quest pq pq'"
  by (simp_all add: same_quest_def)

lemma check_not_ready: "\<not> ready q pq \<Longrightarrow> checkStepCompletion env chars bags q c pq = (pq, [])"
  by (auto simp: checkStepCompletion.simps ready_def Let_def)

lemma check_ready: "ready q pq \<Longrightarrow> checkStepCompletion env chars bags q c pq = advanceStep env chars bags q c pq"
  by (auto simp: checkStepCompletion.simps ready_def Let_def)

lemma check_advance_moved:
  "fst (checkStepCompletion env chars bags q c pq) = pq \<and> \<not> ready q pq \<or> moved q pq (fst (checkStepCompletion env chars bags q c pq))"
  "moved q pq (fst (advanceStep env chars bags q c pq))"
proof (induction env chars bags q c pq and env chars bags q c pq rule: checkStepCompletion_advanceStep.induct)
  case (1 env chars bags q c pq)
  show ?case
  proof (cases "ready q pq")
    case True
    with 1 have "moved q pq (fst (advanceStep env chars bags q c pq))" by (auto simp: ready_def Let_def)
    with True show ?thesis by (simp add: check_ready)
  qed (simp add: check_not_ready)
next
  case (2 env chars bags q c pq)
  show ?case
  proof (cases "int (length (qu_steps q)) \<le> pq_currentStep pq + 1")
    case True
    then show ?thesis by (simp add: advanceStep.simps completeQuest_def moved_def Let_def)
  next
    case False
    define pq1 where "pq1 = touch env (pq\<lparr>pq_currentStep := pq_currentStep pq + 1,
        pq_progress := initial_progress (bags c) (qu_steps q ! nat (pq_currentStep pq + 1))\<rparr>)"
    define pq2 where "pq2 = fst (checkStepCompletion env chars bags q c pq1)"
    have res: "fst (advanceStep env chars bags q c pq) = pq2"
      using False by (simp add: advanceStep.simps Let_def pq1_def pq2_def split: prod.split)
    have "pq2 = pq1 \<and> \<not> ready q pq1 \<or> moved q pq1 pq2"
      unfolding pq2_def pq1_def by (rule 2[OF refl False refl])
    moreover have "same_quest pq pq1" "pq_state pq1 = pq_state pq" "pq_currentStep pq1 = pq_currentStep pq + 1" "pq_isDirty pq1"
      by (simp_all add: pq1_def)
    ultimately show ?thesis
      using False unfolding res moved_def by (auto simp: same_quest_def)
  qed
qed

section \<open>The log\<close>

abbreviation entry :: "quest_manager \<Rightarrow> int \<Rightarrow> int \<Rightarrow> PlayerQuestProgressStruct option" where
  "entry qm c k \<equiv> map_of (quest_log qm c) k"

lemma quest_log_put [simp]: "quest_log (put_log c l qm) c' = (if c' = c then l else quest_log qm c')"
  by (simp add: quest_log_def put_log_def)

lemma put_log_simps [simp]:
  "qm_questsById (put_log c l qm) = qm_questsById qm" "qm_questsBySlug (put_log c l qm) = qm_questsBySlug qm"
  by (simp_all add: put_log_def)

text \<open>A well-formed entry: a known state, a step of the quest, and no step left waiting that is
  already satisfied.\<close>

definition entry_ok :: "quest_manager \<Rightarrow> int \<Rightarrow> PlayerQuestProgressStruct \<Rightarrow> bool" where
  "entry_ok qm k pq \<longleftrightarrow> pq_questId pq = k \<and>
     pq_state pq \<in> {''active'', ''completed'', ''turned_in'', ''failed''} \<and>
     (case getQuestById qm k of None \<Rightarrow> True
      | Some q \<Rightarrow> 0 \<le> pq_currentStep pq \<and> pq_currentStep pq < max 1 (int (length (qu_steps q))) \<and>
          (pq_state pq = ''active'' \<longrightarrow> \<not> ready q pq) \<and>
          (pq_state pq \<in> {''completed'', ''turned_in''} \<longrightarrow> int (length (qu_steps q)) \<le> pq_currentStep pq + 1))"

definition log_ok :: "quest_manager \<Rightarrow> bool" where
  "log_ok qm \<longleftrightarrow> (\<forall>c k pq. entry qm c k = Some pq \<longrightarrow> entry_ok qm k pq)"

text \<open>Every character and every quest is filed once.\<close>

definition keys_ok :: "quest_manager \<Rightarrow> bool" where
  "keys_ok qm \<longleftrightarrow> distinct (map fst (qm_playerProgress qm)) \<and> (\<forall>c. distinct (map fst (quest_log qm c)))"

lemma keys_ok_put: "keys_ok qm \<Longrightarrow> distinct (map fst l) \<Longrightarrow> keys_ok (put_log c l qm)"
  by (simp add: keys_ok_def) (simp add: put_log_def)

text \<open>What an operation may do to the log: leave an entry, or change it and mark it for saving.\<close>

definition evolves :: "quest_manager \<Rightarrow> quest_manager \<Rightarrow> bool" where
  "evolves qm qm' \<longleftrightarrow> qm_questsById qm' = qm_questsById qm \<and> qm_questsBySlug qm' = qm_questsBySlug qm \<and>
     (keys_ok qm \<longrightarrow> keys_ok qm') \<and>
     (\<forall>c k pq'. entry qm' c k = Some pq' \<longrightarrow> entry qm c k = Some pq' \<or> pq_isDirty pq' \<and> entry_ok qm k pq')"

lemma entry_ok_same: "qm_questsById qm' = qm_questsById qm \<Longrightarrow> entry_ok qm' k pq = entry_ok qm k pq"
  by (simp add: entry_ok_def getQuestById_def)

lemma evolves_refl [simp]: "evolves qm qm"
  by (simp add: evolves_def)

lemma evolves_trans: "evolves a b \<Longrightarrow> evolves b d \<Longrightarrow> evolves a d"
  unfolding evolves_def by (metis entry_ok_same)

lemma evolves_log_ok: "evolves qm qm' \<Longrightarrow> log_ok qm \<Longrightarrow> log_ok qm'"
  unfolding evolves_def log_ok_def by (metis entry_ok_same)

lemma evolves_put:
  assumes "\<And>k pq'. map_of l k = Some pq' \<Longrightarrow> entry qm c k = Some pq' \<or> pq_isDirty pq' \<and> entry_ok qm k pq'"
    and "keys_ok qm \<Longrightarrow> distinct (map fst l)"
  shows "evolves qm (put_log c l qm)"
  using assms by (auto simp: evolves_def keys_ok_put)

lemma evolves_entry:
  assumes "pq_isDirty pq" "entry_ok qm k pq"
  shows "evolves qm (put_log c (umap_put k pq (quest_log qm c)) qm)"
  using assms by (intro evolves_put) (auto simp: keys_ok_def split: if_splits)

lemma evolves_noop [simp]: "evolves qm (put_log c (quest_log qm c) qm)"
  by (rule evolves_put) (auto simp: keys_ok_def)

lemma moved_ok:
  assumes "moved q pq pq'" "getQuestById qm k = Some q" "pq_questId pq = k" "pq_state pq = ''active''"
    and "0 \<le> pq_currentStep pq" "pq_currentStep pq < max 1 (int (length (qu_steps q)))"
  shows "pq_isDirty pq' \<and> entry_ok qm k pq'"
  using assms by (auto simp: moved_def entry_ok_def same_quest_def)

lemma check_ok:
  assumes "getQuestById qm k = Some q" "pq_questId pq = k" "pq_state pq = ''active''" "pq_isDirty pq"
    and "0 \<le> pq_currentStep pq" "pq_currentStep pq < max 1 (int (length (qu_steps q)))"
  shows "pq_isDirty (fst (checkStepCompletion env chars bags q c pq)) \<and>
         entry_ok qm k (fst (checkStepCompletion env chars bags q c pq))"
  using check_advance_moved(1)[of env chars bags q c pq] moved_ok[OF _ assms(1-3,5,6)] assms
  by (auto simp: entry_ok_def)

lemma trigger_quest_ok:
  assumes "entry_ok qm k pq"
  shows "fst (trigger_quest env chars bags qm c f k pq) = pq \<or>
    pq_isDirty (fst (trigger_quest env chars bags qm c f k pq)) \<and> entry_ok qm k (fst (trigger_quest env chars bags qm c f k pq))"
proof -
  have k: "pq_questId pq = k" using assms by (simp add: entry_ok_def)
  show ?thesis
  proof (cases "pq_state pq = ''active'' \<and> (\<exists>q pr. getQuestById qm k = Some q \<and> pq_currentStep pq < int (length (qu_steps q))
           \<and> f (qu_steps q ! nat (pq_currentStep pq)) (pq_progress pq) = Some pr)")
    case True
    then obtain q pr where q: "getQuestById qm k = Some q" "pq_currentStep pq < int (length (qu_steps q))"
      "f (qu_steps q ! nat (pq_currentStep pq)) (pq_progress pq) = Some pr" "pq_state pq = ''active''" by blast
    define pq1 where "pq1 = touch env (pq\<lparr>pq_progress := pr\<rparr>)"
    have "fst (trigger_quest env chars bags qm c f k pq) = fst (checkStepCompletion env chars bags q c pq1)"
      using q k by (simp add: trigger_quest_def check_by_id_def Let_def pq1_def split: prod.split)
    moreover have "0 \<le> pq_currentStep pq1" "pq_currentStep pq1 < max 1 (int (length (qu_steps q)))"
      using assms q by (auto simp: entry_ok_def pq1_def)
    ultimately show ?thesis
      using check_ok[OF q(1), of pq1 env chars bags c] q(4) k by (simp add: pq1_def)
  next
    case False
    then show ?thesis by (auto simp: trigger_quest_def split: option.split)
  qed
qed

lemma trigger_log:
  "map_of (qm_playerProgress qm) c = Some l \<Longrightarrow>
   quest_log (fst (trigger env chars bags c f qm)) c = map (\<lambda>(k, pq). (k, fst (trigger_quest env chars bags qm c f k pq))) l"
  by (auto simp: trigger_def Let_def case_prod_unfold)

lemma map_of_map_val: "map_of (map (\<lambda>(k, v). (k, g k v)) l) k = map_option (g k) (map_of l k)"
  by (induction l) auto

lemma trigger_entry:
  "entry (fst (trigger env chars bags c f qm)) c k
    = map_option (\<lambda>pq. fst (trigger_quest env chars bags qm c f k pq)) (entry qm c k)"
proof (cases "map_of (qm_playerProgress qm) c")
  case (Some l)
  then show ?thesis using trigger_log[OF Some] by (simp add: map_of_map_val[of "\<lambda>k pq. fst (trigger_quest env chars bags qm c f k pq)"] quest_log_def)
qed (simp add: trigger_def quest_log_def)

lemma trigger_other: "c' \<noteq> c \<Longrightarrow> quest_log (fst (trigger env chars bags c f qm)) c' = quest_log qm c'"
  by (auto simp: trigger_def Let_def split: option.split)

lemma trigger_static [simp]:
  "qm_questsById (fst (trigger env chars bags c f qm)) = qm_questsById qm"
  "qm_questsBySlug (fst (trigger env chars bags c f qm)) = qm_questsBySlug qm"
  by (auto simp: trigger_def Let_def split: option.split)

lemma trigger_evolves: "log_ok qm \<Longrightarrow> evolves qm (fst (trigger env chars bags c f qm))"
proof -
  assume ok: "log_ok qm"
  have "entry qm c' k = Some pq' \<or> pq_isDirty pq' \<and> entry_ok qm k pq'"
    if "entry (fst (trigger env chars bags c f qm)) c' k = Some pq'" for c' k pq'
  proof (cases "c' = c")
    case True
    with that obtain pq where pq: "entry qm c k = Some pq" "pq' = fst (trigger_quest env chars bags qm c f k pq)"
      by (auto simp: trigger_entry)
    with ok have "entry_ok qm k pq" by (auto simp: log_ok_def)
    from trigger_quest_ok[OF this, of env chars bags c f] pq True show ?thesis by auto
  next
    case False
    with that show ?thesis by (simp add: trigger_other)
  qed
  moreover have "keys_ok (fst (trigger env chars bags c f qm))" if k: "keys_ok qm"
  proof (cases "map_of (qm_playerProgress qm) c")
    case (Some l)
    then have "distinct (map fst l)" using k by (metis keys_ok_def quest_log_def option.case(2))
    then have "distinct (map fst (map (\<lambda>(k, pq). (k, fst (trigger_quest env chars bags qm c f k pq))) l))"
      by (simp add: case_prod_unfold comp_def)
    with Some keys_ok_put[OF k this] show ?thesis
      by (simp add: trigger_def Let_def case_prod_unfold comp_def)
  qed (use k in \<open>simp add: trigger_def\<close>)
  ultimately show ?thesis by (simp add: evolves_def)
qed

section \<open>The operations evolve the log\<close>

lemmas trigger_defs = onMobKilled_def onWorldObjectInteracted_def onItemObtained_def onNPCTalked_def onPositionReached_def

lemma advanceQuestStep_evolves:
  assumes ok: "log_ok qm"
  shows "evolves qm (fst (advanceQuestStepBySlug env chars bags c slug qm))"
proof -
  have "evolves qm (put_log c (umap_put k (fst (advanceStep env chars bags q' c pq)) (quest_log qm c)) qm)"
    if "entry qm c k = Some pq" "pq_state pq = ''active''" "getQuestById qm (pq_questId pq) = Some q'" for k pq q'
  proof -
    have e: "entry_ok qm k pq" using ok that(1) by (auto simp: log_ok_def)
    then have k: "pq_questId pq = k" by (simp add: entry_ok_def)
    from moved_ok[OF check_advance_moved(2) that(3)[unfolded k] k that(2), of env chars bags c] e that(3) k
    show ?thesis by (intro evolves_entry) (auto simp: entry_ok_def)
  qed
  then show ?thesis
    by (auto simp: advanceQuestStepBySlug_def Let_def case_prod_unfold split: option.split)
qed

lemma new_quest_simps [simp]:
  "pq_questId (new_quest env c slug bag q) = qu_id q" "pq_state (new_quest env c slug bag q) = ''active''"
  "pq_currentStep (new_quest env c slug bag q) = 0" "pq_isDirty (new_quest env c slug bag q)"
  "pq_questSlug (new_quest env c slug bag q) = slug"
  by (simp_all add: new_quest_def)

lemma offerQuest_evolves: "evolves qm (fst (snd (offerQuest env chars bags c slug qm)))"
proof -
  have new: "evolves qm (put_log c (umap_put (qu_id q) (fst (check_by_id env chars bags qm c (new_quest env c slug bag q)))
      (quest_log qm c)) qm)" for q bag
    using check_ok[of qm "qu_id q" _ "new_quest env c slug bag q" env chars bags c]
    by (intro evolves_entry) (auto simp: check_by_id_def entry_ok_def split: option.split)
  then show ?thesis by (simp add: offerQuest_def Let_def case_prod_unfold split: option.split)
qed

lemma change_rep_quests [simp]: "qw_quests (change_rep env c f d w) = qw_quests w" "qw_out (change_rep env c f d w) = qw_out w"
  by (auto simp: change_rep_def split: prod.split)

lemma failQuest_evolves:
  assumes ok: "log_ok (qw_quests w)"
  shows "evolves (qw_quests w) (qw_quests (snd (failQuest env c slug w)))"
proof -
  have "evolves qm (put_log c (umap_put k (touch env (pq\<lparr>pq_state := ''failed''\<rparr>)) (quest_log qm c)) qm)"
    if "entry qm c k = Some pq" "qm = qw_quests w" for qm k pq
    using ok that unfolding log_ok_def
    by (intro evolves_entry) (force simp: entry_ok_def touch_def split: option.splits)+
  then show ?thesis by (auto simp: failQuest_def Let_def split: option.split)
qed

lemma gain_item_evolves:
  "log_ok (qw_quests w) \<Longrightarrow> evolves (qw_quests w) (qw_quests (gain_item env c i q w))"
  using trigger_evolves by (auto simp: gain_item_def Let_def trigger_defs case_prod_unfold)

lemma grant_reward_evolves:
  "log_ok (qw_quests w) \<Longrightarrow> evolves (qw_quests w) (qw_quests (grant_reward env c i r w))"
  by (auto simp: grant_reward_def Let_def case_prod_unfold gain_item_evolves split: option.split)

lemma consume_step_quests [simp]:
  "qw_quests (consume_step c step w) = qw_quests w" "qw_out (consume_step c step w) = qw_out w"
  by (auto simp: consume_step_def Let_def)

lemma fold_consume_quests [simp]:
  "qw_quests (fold (consume_step c) steps w) = qw_quests w" "qw_out (fold (consume_step c) steps w) = qw_out w"
  by (induction steps arbitrary: w) auto

lemma fold_grant_evolves:
  "log_ok (qw_quests w) \<Longrightarrow> evolves (qw_quests w) (qw_quests (fold (grant_reward env c i) rs w))"
proof (induction rs arbitrary: w)
  case (Cons r rs)
  note g = grant_reward_evolves[OF Cons.prems, of env c i r]
  from Cons.IH[OF evolves_log_ok[OF g Cons.prems]] g show ?case by (auto intro: evolves_trans)
qed simp

lemma turnInQuest_evolves:
  assumes ok: "log_ok (qw_quests w)"
  shows "evolves (qw_quests w) (qw_quests (snd (turnInQuest env c slug w)))"
proof -
  have turned: "evolves qm (put_log c (umap_put k (touch env (pq\<lparr>pq_state := ''turned_in''\<rparr>)) (quest_log qm c)) qm)"
    if "entry qm c k = Some pq" "pq_state pq = ''completed''" "qm = qw_quests w" for qm k pq
    using ok that unfolding log_ok_def
    by (intro evolves_entry) (force simp: entry_ok_def touch_def split: option.splits)+
  have "evolves (qw_quests w) (qw_quests (fold (grant_reward env c i) rs w3))"
    if "evolves (qw_quests w) (qw_quests w3)" for i rs w3
    using evolves_trans[OF that fold_grant_evolves[OF evolves_log_ok[OF that ok]]] .
  with turned show ?thesis by (auto simp: turnInQuest_def Let_def split: option.split)
qed

section \<open>What the game server holds\<close>

type_synonym server_db = "int \<Rightarrow> int \<Rightarrow> (string \<times> string \<times> int \<times> json) option"

definition stored :: "PlayerQuestProgressStruct \<Rightarrow> string \<times> string \<times> int \<times> json" where
  "stored pq = (pq_questSlug pq, pq_state pq, pq_currentStep pq, pq_progress pq)"

fun record_save :: "quest_out \<Rightarrow> server_db \<Rightarrow> server_db" where
  "record_save (SaveQuestProgress c k slug st i pr) db = db(c := (db c)(k \<mapsto> (slug, st, i, pr)))"
| "record_save out db = db"

abbreviation server :: "server_db \<Rightarrow> quest_out list \<Rightarrow> server_db" where
  "server db0 out \<equiv> fold record_save out db0"

definition updates_only :: "quest_out list \<Rightarrow> bool" where
  "updates_only out \<longleftrightarrow> list_all (\<lambda>x. record_save x = id) out"

lemma updates_only_simps [simp]:
  "updates_only []" "updates_only (a @ b) \<longleftrightarrow> updates_only a \<and> updates_only b"
  "updates_only (concat xs) \<longleftrightarrow> (\<forall>x\<in>set xs. updates_only x)"
  by (auto simp: updates_only_def list_all_iff)

lemma server_updates [simp]: "updates_only out \<Longrightarrow> server db out = db"
  by (induction out arbitrary: db) (auto simp: updates_only_def)

lemma updates_send [simp]: "updates_only (sendQuestUpdate env chars c pq q)"
  by (simp add: sendQuestUpdate_def Let_def updates_only_def fun_eq_iff)

lemma updates_check_advance:
  "updates_only (snd (checkStepCompletion env chars bags q c pq))" "updates_only (snd (advanceStep env chars bags q c pq))"
proof (induction env chars bags q c pq and env chars bags q c pq rule: checkStepCompletion_advanceStep.induct)
  case (1 env chars bags q c pq)
  then show ?case by (cases "ready q pq") (auto simp: check_ready check_not_ready ready_def Let_def)
next
  case (2 env chars bags q c pq)
  then show ?case
    by (auto simp: advanceStep.simps completeQuest_def Let_def split: prod.split)
qed

lemma updates_check_by_id [simp]: "updates_only (snd (check_by_id env chars bags qm c pq))"
  by (simp add: check_by_id_def updates_check_advance split: option.split)

lemma updates_trigger_quest [simp]: "updates_only (snd (trigger_quest env chars bags qm c f k pq))"
  by (simp add: trigger_quest_def Let_def case_prod_unfold split: option.split)

lemma updates_trigger [simp]: "updates_only (snd (trigger env chars bags c f qm))"
  by (auto simp: trigger_def Let_def case_prod_unfold split: option.split)

lemma updates_offer [simp]: "updates_only (snd (snd (offerQuest env chars bags c slug qm)))"
  by (simp add: offerQuest_def Let_def case_prod_unfold split: option.split)

lemma updates_advance [simp]: "updates_only (snd (advanceQuestStepBySlug env chars bags c slug qm))"
  by (simp add: advanceQuestStepBySlug_def Let_def case_prod_unfold updates_check_advance split: option.split)

text \<open>A world operation appends nothing but updates.\<close>

definition appends :: "quest_world \<Rightarrow> quest_world \<Rightarrow> bool" where
  "appends w w' \<longleftrightarrow> (\<exists>out. qw_out w' = qw_out w @ out \<and> updates_only out)"

lemma appends_trans: "appends a b \<Longrightarrow> appends b d \<Longrightarrow> appends a d"
  by (auto simp: appends_def)

lemma appends_refl [simp]: "appends w w"
  by (simp add: appends_def)

lemma appends_fail: "appends w (snd (failQuest env c slug w))"
  by (auto simp: failQuest_def Let_def appends_def split: option.split)

lemma appends_grant: "appends w (grant_reward env c i r w)"
  by (auto simp: grant_reward_def gain_item_def trigger_defs appends_def Let_def case_prod_unfold split: option.split)

lemma appends_fold_grant: "appends w (fold (grant_reward env c i) rs w)"
  by (induction rs arbitrary: w) (auto intro: appends_trans[OF appends_grant])

lemma appends_turn_in: "appends w (snd (turnInQuest env c slug w))"
proof -
  have "appends w (fold (grant_reward env c i) rs w3)" if "appends w w3" for i rs w3
    using appends_trans[OF that appends_fold_grant] .
  moreover have "appends w w3" if "qw_out w3 = qw_out w @ sendQuestUpdate env ch c pq q" for w3 ch pq q
    using that by (auto simp: appends_def)
  ultimately show ?thesis by (auto simp: turnInQuest_def Let_def appends_def split: option.split)
qed

section \<open>Reachable worlds\<close>

definition with_quests :: "quest_world \<Rightarrow> quest_manager \<times> quest_out list \<Rightarrow> quest_world" where
  "with_quests w r = w\<lparr>qw_quests := fst r, qw_out := qw_out w @ snd r\<rparr>"

abbreviation bags_of :: "quest_world \<Rightarrow> int \<Rightarrow> PlayerInventoryItemStruct list" where
  "bags_of w \<equiv> getPlayerInventory (qw_inv w)"

inductive quest_step :: "server_db \<Rightarrow> quest_world \<Rightarrow> quest_world \<Rightarrow> bool" for db0 where
  Offer: "quest_step db0 w (with_quests w (snd (offerQuest env (qw_chars w) (bags_of w) c slug (qw_quests w))))"
| Kill: "quest_step db0 w (with_quests w (onMobKilled env (qw_chars w) (bags_of w) c mob (qw_quests w)))"
| Obtain: "quest_step db0 w (with_quests w (onItemObtained env (qw_chars w) (bags_of w) c item n (qw_quests w)))"
| Talk: "quest_step db0 w (with_quests w (onNPCTalked env (qw_chars w) (bags_of w) c npc (qw_quests w)))"
| Reach: "quest_step db0 w (with_quests w (onPositionReached env (qw_chars w) (bags_of w) c x y (qw_quests w)))"
| Interact: "quest_step db0 w (with_quests w (onWorldObjectInteracted env (qw_chars w) (bags_of w) c obj (qw_quests w)))"
| Advance: "quest_step db0 w (with_quests w (advanceQuestStepBySlug env (qw_chars w) (bags_of w) c slug (qw_quests w)))"
| Fail: "quest_step db0 w (snd (failQuest env c slug w))"
| Turn_In: "quest_step db0 w (snd (turnInQuest env c slug w))"
| Load: "list_all (\<lambda>pq. server db0 (qw_out w) c (pq_questId pq) = Some (stored pq)) quests \<Longrightarrow>
    quest_step db0 w (with_quests w (loadPlayerQuests env (qw_chars w) c quests (qw_quests w)))"
| Unload: "quest_step db0 w (with_quests w (unloadPlayerQuests c (qw_quests w), []))"
| Flush: "qe_worker env \<Longrightarrow> quest_step db0 w (with_quests w (flushDirtyProgress env (qw_quests w)))"
| Flush_All: "qe_worker env \<Longrightarrow> quest_step db0 w (with_quests w (flushAllProgress env c (qw_quests w)))"
| Outside: "quest_step db0 w (w\<lparr>qw_inv := ivm, qw_chars := chars, qw_reps := reps\<rparr>)"

inductive quest_run :: "server_db \<Rightarrow> QuestStruct list \<Rightarrow> quest_world \<Rightarrow> bool" for db0 quests where
  Start: "qw_quests w = setQuests quests no_quests \<Longrightarrow> qw_out w = [] \<Longrightarrow> quest_run db0 quests w"
| Step: "quest_run db0 quests w \<Longrightarrow> quest_step db0 w w' \<Longrightarrow> quest_run db0 quests w'"

definition stored_ok :: "quest_manager \<Rightarrow> int \<Rightarrow> string \<times> string \<times> int \<times> json \<Rightarrow> bool" where
  "stored_ok qm k x \<longleftrightarrow> (\<forall>pq. stored pq = x \<and> pq_questId pq = k \<longrightarrow> entry_ok qm k pq)"

definition db_ok :: "quest_manager \<Rightarrow> server_db \<Rightarrow> bool" where
  "db_ok qm db \<longleftrightarrow> (\<forall>c k x. db c k = Some x \<longrightarrow> stored_ok qm k x)"

definition synced :: "server_db \<Rightarrow> quest_manager \<Rightarrow> bool" where
  "synced db qm \<longleftrightarrow> (\<forall>c k pq. entry qm c k = Some pq \<longrightarrow> \<not> pq_isDirty pq \<longrightarrow> db c k = Some (stored pq))"

definition world_ok :: "server_db \<Rightarrow> quest_world \<Rightarrow> bool" where
  "world_ok db0 w \<longleftrightarrow> log_ok (qw_quests w) \<and> keys_ok (qw_quests w) \<and>
     db_ok (qw_quests w) (server db0 (qw_out w)) \<and> synced (server db0 (qw_out w)) (qw_quests w)"

lemma stored_ok_entry: "entry_ok qm k pq \<Longrightarrow> stored_ok qm k (stored pq)"
  by (auto simp: stored_ok_def entry_ok_def stored_def ready_def split: option.splits)

lemma db_ok_same: "qm_questsById qm' = qm_questsById qm \<Longrightarrow> db_ok qm' db = db_ok qm db"
proof -
  assume "qm_questsById qm' = qm_questsById qm"
  then have "entry_ok qm' = entry_ok qm" by (intro ext) (rule entry_ok_same)
  then show ?thesis by (simp add: db_ok_def stored_ok_def)
qed

lemma evolves_world_ok:
  assumes w: "world_ok db0 w" and e: "evolves (qw_quests w) (qw_quests w')"
    and s: "server db0 (qw_out w') = server db0 (qw_out w)"
  shows "world_ok db0 w'"
proof -
  have "synced (server db0 (qw_out w)) (qw_quests w')"
    using w e unfolding world_ok_def synced_def evolves_def by blast
  moreover have "log_ok (qw_quests w')" using evolves_log_ok[OF e] w by (simp add: world_ok_def)
  ultimately show ?thesis
    using w e db_ok_same[of "qw_quests w'" "qw_quests w"] by (simp add: world_ok_def s evolves_def)
qed

lemma map_of_fold_umap:
  "map_of (fold (\<lambda>x. umap_put (key x) x) xs m) k = Some v \<Longrightarrow> map_of m k = Some v \<or> (v \<in> set xs \<and> key v = k)"
proof (induction xs arbitrary: m)
  case (Cons a xs)
  from Cons.IH[of "umap_put (key a) a m"] Cons.prems show ?case by (auto split: if_splits)
qed simp

lemma distinct_fold_umap:
  "distinct (map fst m) \<Longrightarrow> distinct (map fst (fold (\<lambda>x. umap_put (key x) x) xs m))"
  by (induction xs arbitrary: m) auto

lemma load_world_ok:
  assumes w: "world_ok db0 w"
    and loaded: "list_all (\<lambda>pq. server db0 (qw_out w) c (pq_questId pq) = Some (stored pq)) quests"
  shows "world_ok db0 (with_quests w (loadPlayerQuests env (qw_chars w) c quests (qw_quests w)))"
proof -
  let ?qm = "qw_quests w" and ?db = "server db0 (qw_out w)"
  define l where "l = fold (\<lambda>pq. umap_put (pq_questId pq) pq) quests []"
  have l: "?db c k = Some (stored pq) \<and> pq_questId pq = k" if "map_of l k = Some pq" for k pq
    using map_of_fold_umap[OF that[unfolded l_def]] loaded by (auto simp: list_all_iff)
  have res: "loadPlayerQuests env (qw_chars w) c quests ?qm
      = (put_log c l ?qm, snd (loadPlayerQuests env (qw_chars w) c quests ?qm))"
    by (simp add: loadPlayerQuests_def Let_def l_def)
  have upd: "updates_only (snd (loadPlayerQuests env (qw_chars w) c quests ?qm))"
    by (auto simp: loadPlayerQuests_def Let_def split: option.split)
  have ok: "entry_ok ?qm k pq" if "map_of l k = Some pq" for k pq
  proof -
    from w have "db_ok ?qm ?db" by (simp add: world_ok_def)
    with l[OF that] have "stored_ok ?qm k (stored pq)" unfolding db_ok_def by blast
    with l[OF that] show ?thesis unfolding stored_ok_def by blast
  qed
  have "log_ok (put_log c l ?qm)"
    using w ok entry_ok_same[of "put_log c l ?qm" ?qm] by (auto simp: world_ok_def log_ok_def)
  moreover have "keys_ok (put_log c l ?qm)"
    using w by (auto simp: world_ok_def l_def intro!: keys_ok_put distinct_fold_umap)
  moreover have "synced ?db (put_log c l ?qm)"
    using w l unfolding world_ok_def synced_def by (auto split: if_splits)
  ultimately show ?thesis
    using w upd db_ok_same[of "put_log c l ?qm" ?qm]
    by (subst res) (simp add: world_ok_def with_quests_def)
qed

lemma quest_log_unload [simp]:
  "quest_log (unloadPlayerQuests c qm) c' = (if c' = c then [] else quest_log qm c')"
  by (simp add: unloadPlayerQuests_def quest_log_def)

lemma unload_evolves: "evolves qm (unloadPlayerQuests c qm)"
proof -
  have "keys_ok (unloadPlayerQuests c qm)" if "keys_ok qm"
    using that by (simp add: keys_ok_def) (simp add: unloadPlayerQuests_def distinct_omap_erase)
  moreover have "qm_questsById (unloadPlayerQuests c qm) = qm_questsById qm" "qm_questsBySlug (unloadPlayerQuests c qm) = qm_questsBySlug qm"
    by (simp_all add: unloadPlayerQuests_def)
  ultimately show ?thesis by (simp add: evolves_def)
qed

text \<open>A flush: the saves of a list of entries, each the value of its key.\<close>

lemma server_saves:
  assumes "\<forall>x\<in>set out. record_save x = id \<or> (\<exists>c k pq. x = save_quest c k pq \<and> v c k = Some pq)"
  shows "server db out c k = (if \<exists>pq. save_quest c k pq \<in> set out then map_option stored (v c k) else db c k)"
  using assms
proof (induction out arbitrary: db)
  case (Cons x out)
  have hd_eq: "record_save x db c k = (if \<exists>pq. x = save_quest c k pq then map_option stored (v c k) else db c k)"
  proof (cases "record_save x = id")
    case True
    moreover have "x \<noteq> save_quest c k pq" for pq
    proof
      assume "x = save_quest c k pq"
      then have "record_save x (\<lambda>_ _. None) c k = Some (stored pq)" by (simp add: save_quest_def stored_def)
      with True show False by simp
    qed
    ultimately show ?thesis by simp
  next
    case False
    then obtain c' k' pq' where "x = save_quest c' k' pq'" "v c' k' = Some pq'" using Cons.prems by auto
    then show ?thesis by (auto simp: save_quest_def stored_def)
  qed
  have "server db (x # out) c k = server (record_save x db) out c k" by simp
  also have "\<dots> = (if \<exists>pq. save_quest c k pq \<in> set out then map_option stored (v c k) else record_save x db c k)"
    using Cons by simp
  finally show ?case using hd_eq by auto
qed simp

lemma clean_simps [simp]:
  "\<not> pq_isDirty (clean pq)" "stored (clean pq) = stored pq" "pq_questId (clean pq) = pq_questId pq"
  by (simp_all add: clean_def stored_def)

lemma entry_ok_clean [simp]: "entry_ok qm k (clean pq) = entry_ok qm k pq"
  by (simp add: entry_ok_def clean_def ready_def split: option.split)

lemma in_log_entry:
  assumes "keys_ok qm" "(c, l) \<in> set (qm_playerProgress qm)" "(k, pq) \<in> set l"
  shows "entry qm c k = Some pq"
proof -
  from assms have "quest_log qm c = l" by (simp add: keys_ok_def quest_log_def)
  with assms show ?thesis unfolding keys_ok_def by (metis map_of_is_SomeI)
qed

lemma entry_in_log:
  "entry qm c k = Some pq \<Longrightarrow> \<exists>l. (c, l) \<in> set (qm_playerProgress qm) \<and> (k, pq) \<in> set l"
  by (auto simp: quest_log_def split: option.splits dest: map_of_SomeD)

lemma map_of_clean: "map_of (map (\<lambda>(k, pq). (k, clean pq)) l) k = map_option clean (map_of l k)"
  by (induction l) auto

lemma flags_save_nothing: "record_save (SavePlayerFlag fu) = id"
  by (simp add: fun_eq_iff)

lemma flushDirty_log: "quest_log (fst (flushDirtyProgress env qm)) c = map (\<lambda>(k, pq). (k, clean pq)) (quest_log qm c)"
  by (cases "map_of (qm_playerProgress qm) c")
     (simp_all add: flushDirtyProgress_def flushPendingFlags_def Let_def quest_log_def map_of_map)

lemma flushDirty_static [simp]:
  "qm_questsById (fst (flushDirtyProgress env qm)) = qm_questsById qm"
  "qm_questsBySlug (fst (flushDirtyProgress env qm)) = qm_questsBySlug qm"
  by (simp_all add: flushDirtyProgress_def flushPendingFlags_def Let_def)

lemma flushDirty_server:
  assumes k: "keys_ok qm" and w: "qe_worker env"
  shows "server db (snd (flushDirtyProgress env qm)) c k
    = (case entry qm c k of None \<Rightarrow> db c k | Some pq \<Rightarrow> if pq_isDirty pq then Some (stored pq) else db c k)"
proof -
  let ?out = "snd (flushDirtyProgress env qm)"
  have out: "set ?out = {save_quest c k pq | c l k pq. (c, l) \<in> set (qm_playerProgress qm) \<and> (k, pq) \<in> set l \<and> pq_isDirty pq}
      \<union> SavePlayerFlag ` set (qm_pendingFlagUpdates qm)"
    using w by (fastforce simp: flushDirtyProgress_def flushPendingFlags_def Let_def)
  have "(\<exists>pq. save_quest c k pq \<in> set ?out) \<longleftrightarrow> (\<exists>pq. entry qm c k = Some pq \<and> pq_isDirty pq)"
    unfolding out using in_log_entry[OF k] entry_in_log[of qm c k] by (fastforce simp: save_quest_def)
  moreover have "\<forall>x\<in>set ?out. record_save x = id \<or> (\<exists>c k pq. x = save_quest c k pq \<and> entry qm c k = Some pq)"
    unfolding out using in_log_entry[OF k] flags_save_nothing by blast
  ultimately show ?thesis
    using server_saves[of ?out "entry qm" db c k] by (auto split: option.split)
qed

lemma flush_entry_ok: "log_ok qm \<Longrightarrow> log_ok (fst (flushDirtyProgress env qm))"
  using entry_ok_same[of "fst (flushDirtyProgress env qm)" qm]
  by (auto simp: log_ok_def flushDirty_log map_of_clean)

lemma flush_keys_ok:
  assumes "keys_ok qm" shows "keys_ok (fst (flushDirtyProgress env qm))"
proof -
  have "map fst (qm_playerProgress (fst (flushDirtyProgress env qm))) = map fst (qm_playerProgress qm)"
    by (simp add: flushDirtyProgress_def flushPendingFlags_def Let_def case_prod_unfold comp_def)
  with assms show ?thesis by (simp add: keys_ok_def flushDirty_log case_prod_unfold comp_def)
qed

lemma stored_db:
  assumes "log_ok qm" "db_ok qm db"
    and "\<And>c k. db' c k = db c k \<or> (\<exists>pq. entry qm c k = Some pq \<and> db' c k = Some (stored pq))"
  shows "db_ok qm db'"
  using assms stored_ok_entry unfolding db_ok_def log_ok_def by (metis option.inject)

lemma flush_world_ok:
  assumes w: "world_ok db0 w" and env: "qe_worker env"
  shows "world_ok db0 (with_quests w (flushDirtyProgress env (qw_quests w)))"
proof -
  let ?qm = "qw_quests w" and ?db = "server db0 (qw_out w)"
  let ?qm' = "fst (flushDirtyProgress env ?qm)" and ?db' = "server ?db (snd (flushDirtyProgress env ?qm))"
  have ok: "log_ok ?qm" "keys_ok ?qm" "db_ok ?qm ?db" "synced ?db ?qm" using w by (simp_all add: world_ok_def)
  note db' = flushDirty_server[OF ok(2) env, of ?db]
  have "db_ok ?qm ?db'"
    by (rule stored_db[OF ok(1,3)]) (auto simp: db' split: option.split)
  then have "db_ok ?qm' ?db'" using db_ok_same[of ?qm' ?qm] by simp
  moreover have "synced ?db' ?qm'"
    using ok(4) by (auto simp: synced_def flushDirty_log map_of_clean db')
  ultimately show ?thesis
    using flush_entry_ok[OF ok(1)] flush_keys_ok[OF ok(2)] by (simp add: world_ok_def with_quests_def)
qed

lemma flushAll_world_ok:
  assumes w: "world_ok db0 w" and env: "qe_worker env"
  shows "world_ok db0 (with_quests w (flushAllProgress env c (qw_quests w)))"
proof (cases "map_of (qm_playerProgress (qw_quests w)) c")
  case (Some l)
  let ?qm = "qw_quests w" and ?db = "server db0 (qw_out w)"
  have ok: "log_ok ?qm" "keys_ok ?qm" "db_ok ?qm ?db" "synced ?db ?qm" using w by (simp_all add: world_ok_def)
  have l: "quest_log ?qm c = l" using Some by (simp add: quest_log_def)
  define l' where "l' = map (\<lambda>(k, pq). (k, clean pq)) l"
  define out where "out = map (\<lambda>(k, pq). save_quest c k pq) l"
  have res: "flushAllProgress env c ?qm = (put_log c l' ?qm, out)"
    using Some env by (simp add: flushAllProgress_def l'_def out_def)
  have dist: "distinct (map fst l)" using ok(2) l by (metis keys_ok_def)
  have "\<forall>x\<in>set out. record_save x = id \<or> (\<exists>c k pq. x = save_quest c k pq \<and> entry ?qm c k = Some pq)"
    using map_of_is_SomeI[OF dist] l unfolding out_def by fastforce
  moreover have "(\<exists>pq. save_quest c' k pq \<in> set out) \<longleftrightarrow> c' = c \<and> map_of l k \<noteq> None" for c' k
    by (force simp: out_def save_quest_def map_of_eq_None_iff)
  ultimately have db': "server ?db out c' k = (if c' = c \<and> map_of l k \<noteq> None then map_option stored (entry ?qm c' k) else ?db c' k)" for c' k
    using server_saves[of out "entry ?qm" ?db c' k] by simp
  have "db_ok ?qm (server ?db out)"
    by (rule stored_db[OF ok(1,3)]) (use l in \<open>auto simp: db'\<close>)
  then have "db_ok (put_log c l' ?qm) (server ?db out)" using db_ok_same[of "put_log c l' ?qm" ?qm] by simp
  moreover have "log_ok (put_log c l' ?qm)"
    using ok(1) l entry_ok_same[of "put_log c l' ?qm" ?qm] by (auto simp: log_ok_def l'_def map_of_clean)
  moreover have "keys_ok (put_log c l' ?qm)"
    using ok(2) dist by (intro keys_ok_put) (auto simp: l'_def case_prod_unfold comp_def)
  moreover have "synced (server ?db out) (put_log c l' ?qm)"
    using ok(4) l by (auto simp: synced_def l'_def map_of_clean db')
  ultimately show ?thesis by (simp add: res world_ok_def with_quests_def)
next
  case None
  then have "flushAllProgress env c (qw_quests w) = (qw_quests w, [])" by (simp add: flushAllProgress_def)
  with w show ?thesis by (simp add: with_quests_def world_ok_def)
qed

lemma with_quests_world_ok:
  assumes "world_ok db0 w" "evolves (qw_quests w) (fst r)" "updates_only (snd r)"
  shows "world_ok db0 (with_quests w r)"
  by (rule evolves_world_ok[OF assms(1)]) (use assms in \<open>simp_all add: with_quests_def\<close>)

lemma trigger_world_ok: "world_ok db0 w \<Longrightarrow> world_ok db0 (with_quests w (trigger env chars bags c f (qw_quests w)))"
  by (rule with_quests_world_ok) (simp_all add: world_ok_def trigger_evolves)

lemma step_world_ok: "quest_step db0 w w' \<Longrightarrow> world_ok db0 w \<Longrightarrow> world_ok db0 w'"
proof (induction rule: quest_step.induct)
  case (Fail w env c slug)
  then have ok: "log_ok (qw_quests w)" by (simp add: world_ok_def)
  have s: "server db0 (qw_out (snd (failQuest env c slug w))) = server db0 (qw_out w)"
    using appends_fail[of w env c slug] by (auto simp: appends_def)
  show ?case by (rule evolves_world_ok[OF Fail failQuest_evolves[OF ok] s])
next
  case (Turn_In w env c slug)
  then have ok: "log_ok (qw_quests w)" by (simp add: world_ok_def)
  have s: "server db0 (qw_out (snd (turnInQuest env c slug w))) = server db0 (qw_out w)"
    using appends_turn_in[of w env c slug] by (auto simp: appends_def)
  show ?case by (rule evolves_world_ok[OF Turn_In turnInQuest_evolves[OF ok] s])
next
  case Load then show ?case by (simp add: load_world_ok)
next
  case Flush then show ?case by (simp add: flush_world_ok)
next
  case Flush_All then show ?case by (simp add: flushAll_world_ok)
next
  case Offer then show ?case by (intro with_quests_world_ok) (simp_all add: offerQuest_evolves)
next
  case Advance then show ?case by (intro with_quests_world_ok) (simp_all add: advanceQuestStep_evolves world_ok_def)
next
  case Unload then show ?case by (intro with_quests_world_ok) (simp_all add: unload_evolves)
next
  case Outside then show ?case by (simp add: world_ok_def)
qed (simp_all only: trigger_defs trigger_world_ok)

lemma start_world_ok:
  assumes "qw_quests w = setQuests quests no_quests" "qw_out w = []" "db_ok (setQuests quests no_quests) db0"
  shows "world_ok db0 w"
  using assms by (simp add: world_ok_def log_ok_def keys_ok_def synced_def quest_log_def setQuests_def no_quests_def Let_def)

lemma run_world_ok:
  assumes "quest_run db0 quests w" "db_ok (setQuests quests no_quests) db0"
  shows "world_ok db0 w"
  using assms by (induction rule: quest_run.induct) (auto intro: start_world_ok step_world_ok)

section \<open>Turning in\<close>

lemma trigger_keeps_inactive:
  assumes "entry qm c k = Some pq" "pq_state pq \<noteq> ''active''"
  shows "entry (fst (trigger env chars bags c' f qm)) c k = Some pq"
  using assms by (cases "c' = c") (simp_all add: trigger_entry trigger_other trigger_quest_def)

lemma grant_keeps_inactive:
  assumes "entry (qw_quests w) c k = Some pq" "pq_state pq \<noteq> ''active''"
  shows "entry (qw_quests (grant_reward env c' i r w)) c k = Some pq"
  using assms trigger_keeps_inactive[OF assms]
  by (auto simp: grant_reward_def gain_item_def trigger_defs Let_def case_prod_unfold split: option.split)

lemma grant_static: "qm_questsBySlug (qw_quests (grant_reward env c i r w)) = qm_questsBySlug (qw_quests w)"
  by (auto simp: grant_reward_def gain_item_def trigger_defs Let_def case_prod_unfold split: option.split)

lemma fold_grant_keeps_inactive:
  assumes "entry (qw_quests w) c k = Some pq" "pq_state pq \<noteq> ''active''"
  shows "entry (qw_quests (fold (grant_reward env c' i) rs w)) c k = Some pq \<and>
    qm_questsBySlug (qw_quests (fold (grant_reward env c' i) rs w)) = qm_questsBySlug (qw_quests w)"
  using assms by (induction rs arbitrary: w) (auto simp: grant_keeps_inactive grant_static)

lemma turn_in_refused:
  assumes "getQuestStateBySlug (qw_quests w) c slug \<noteq> ''completed''"
  shows "case turnInQuest env c slug w of (notes, w') \<Rightarrow>
    notes = [] \<and> qw_inv w' = qw_inv w \<and> qw_chars w' = qw_chars w \<and> qw_reps w' = qw_reps w \<and> qw_titleChecks w' = qw_titleChecks w"
  using assms by (auto simp: turnInQuest_def getQuestStateBySlug_def Let_def split: option.splits)

lemma turn_in_accepted:
  assumes "getQuestStateBySlug (qw_quests w) c slug = ''completed''"
  shows "case turnInQuest env c slug w of (notes, w') \<Rightarrow>
    notes \<noteq> [] \<and> getQuestStateBySlug (qw_quests w') c slug = ''turned_in''"
proof -
  obtain q pq where q: "getQuestBySlug (qw_quests w) slug = Some q" "entry (qw_quests w) c (qu_id q) = Some pq" "pq_state pq = ''completed''"
    using assms by (auto simp: getQuestStateBySlug_def split: option.splits)
  have keep: "getQuestStateBySlug (qw_quests (fold (grant_reward env c i) rs w3)) c slug = ''turned_in''"
    if "qw_quests w3 = put_log c (umap_put (qu_id q) (touch env (pq\<lparr>pq_state := ''turned_in''\<rparr>)) (quest_log (qw_quests w) c)) (qw_quests w)"
    for i rs w3
    using fold_grant_keeps_inactive[of w3 c "qu_id q" "touch env (pq\<lparr>pq_state := ''turned_in''\<rparr>)" env c i rs] q(1) that
    by (simp add: getQuestStateBySlug_def getQuestBySlug_def)
  then show ?thesis using q by (simp add: turnInQuest_def Let_def keep)
qed

section \<open>Kill steps\<close>

text \<open>The character has an active quest whose current step asks for \<open>n\<close> kills of a mob and has
  \<open>i\<close> of them.\<close>

definition on_kill_step :: "quest_manager \<Rightarrow> int \<Rightarrow> int \<Rightarrow> QuestStruct \<Rightarrow> int \<Rightarrow> int \<Rightarrow> int \<Rightarrow> int \<Rightarrow> bool" where
  "on_kill_step qm c k q cur mob n i \<longleftrightarrow> getQuestById qm k = Some q \<and>
     0 \<le> cur \<and> cur < int (length (qu_steps q)) \<and>
     (let step = qu_steps q ! nat cur in qs_stepType step = ''kill'' \<and> qs_completionMode step \<noteq> ''manual'' \<and>
        value_int (qs_params step) ''mob_id'' (-1) = mob \<and> value_int (qs_params step) ''count'' 1 = n) \<and>
     (case entry qm c k of None \<Rightarrow> False
      | Some pq \<Rightarrow> pq_state pq = ''active'' \<and> pq_questId pq = k \<and> pq_currentStep pq = cur \<and>
          value_int (pq_progress pq) ''killed'' 0 = i)"

lemma one_kill:
  assumes at: "on_kill_step qm c k q cur mob n i" and i: "0 \<le> i" "i < n"
  shows "if i + 1 < n then on_kill_step (fst (onMobKilled env chars bags c mob qm)) c k q cur mob n (i + 1)
    else (case entry (fst (onMobKilled env chars bags c mob qm)) c k of None \<Rightarrow> False
          | Some pq' \<Rightarrow> pq_state pq' = ''completed'' \<or> cur < pq_currentStep pq')"
proof -
  obtain pq where pq: "entry qm c k = Some pq" "pq_state pq = ''active''" "pq_questId pq = k" "pq_currentStep pq = cur"
    "value_int (pq_progress pq) ''killed'' 0 = i"
    using at by (auto simp: on_kill_step_def split: option.splits)
  define step where "step = qu_steps q ! nat cur"
  have q: "getQuestById qm k = Some q" "0 \<le> cur" "cur < int (length (qu_steps q))"
    and step: "qs_stepType step = ''kill''" "qs_completionMode step \<noteq> ''manual''"
      "value_int (qs_params step) ''mob_id'' (-1) = mob" "value_int (qs_params step) ''count'' 1 = n"
    using at by (auto simp: on_kill_step_def step_def Let_def)
  have n: "in_i32 n" using step(4) by (metis in_i32_value_int in_i32_1)
  with i have i1: "in_i32 (i + 1)" by (simp add: in_i32_def)
  define pq1 where "pq1 = touch env (pq\<lparr>pq_progress := json_set ''killed'' (JInt (i + 1)) (pq_progress pq)\<rparr>)"
  have pq1: "pq_currentStep pq1 = cur" "pq_state pq1 = ''active''" "pq_questId pq1 = k"
    "value_int (pq_progress pq1) ''killed'' 0 = i + 1"
    using pq i1 by (simp_all add: pq1_def)
  have rdy: "ready q pq1 \<longleftrightarrow> n \<le> i + 1"
    using q step by (simp add: ready_def pq1 step_def[symmetric] step_done_def)
  have "fst (trigger_quest env chars bags qm c (count_up ''kill'' ''mob_id'' ''killed'' mob) k pq)
      = fst (checkStepCompletion env chars bags q c pq1)"
    using pq q step i by (simp add: trigger_quest_def count_up_def check_by_id_def Let_def case_prod_unfold
        step_def[symmetric] pq1_def[symmetric]) (simp add: pq1)
  then have e: "entry (fst (onMobKilled env chars bags c mob qm)) c k = Some (fst (checkStepCompletion env chars bags q c pq1))"
    using pq by (simp add: onMobKilled_def trigger_entry)
  show ?thesis
  proof (cases "i + 1 < n")
    case True
    with rdy have "checkStepCompletion env chars bags q c pq1 = (pq1, [])" by (intro check_not_ready) simp
    with True at pq1 e show ?thesis
      by (simp add: on_kill_step_def getQuestById_def onMobKilled_def)
  next
    case False
    with rdy check_advance_moved(1)[of env chars bags q c pq1] have "moved q pq1 (fst (checkStepCompletion env chars bags q c pq1))" by simp
    then show ?thesis using False pq1 e by (auto simp: moved_def)
  qed
qed

abbreviation kills where
  "kills env chars bags c mob j \<equiv> (\<lambda>qm. fst (onMobKilled env chars bags c mob qm)) ^^ j"

lemma some_kills:
  assumes "on_kill_step qm c k q cur mob n i" "0 \<le> i" "i + int j < n"
  shows "on_kill_step (kills env chars bags c mob j qm) c k q cur mob n (i + int j)"
  using assms
proof (induction j)
  case (Suc j)
  then have "on_kill_step (kills env chars bags c mob j qm) c k q cur mob n (i + int j)" by simp
  from one_kill[OF this, of env chars bags] Suc.prems show ?case by (simp add: algebra_simps split: if_splits)
qed simp

section \<open>Properties\<close>

definition kill_step :: "int \<Rightarrow> int \<Rightarrow> QuestStepStruct" where
  "kill_step mob n = \<lparr>qs_id = 1, qs_questId = 1, qs_stepIndex = 0, qs_stepType = ''kill'', qs_completionMode = ''auto'',
     qs_params = JObject [(''mob_id'', JInt mob), (''count'', JInt n)], qs_clientStepKey = []\<rparr>"

definition hunt :: QuestStruct where
  "hunt = \<lparr>qu_id = 1, qu_slug = ''hunt'', qu_minLevel = 0, qu_repeatable = False, qu_cooldownSec = 0, qu_giverNpcId = 2,
     qu_turninNpcId = 2, qu_clientQuestKey = [], qu_reputationFactionSlug = [], qu_reputationOnComplete = 0,
     qu_reputationOnFail = 0, qu_steps = [kill_step 5 2],
     qu_rewards = [\<lparr>qr_rewardType = ''gold'', qr_itemId = 0, qr_quantity = 1, qr_amount = 10, qr_isHidden = False,
                    qr_allowedClassIds = []\<rparr>]\<rparr>"

definition sample_env :: quest_env where
  "sample_env = \<lparr>qe_items = sample_items, qe_reachable = (\<lambda>_. False), qe_worker = True, qe_now = 1, qe_nowSec = 1,
     qe_pow = (\<lambda>_. 1), qe_table = initialize, qe_expSave = False, qe_expPacket = False,
     qe_repSave = False, qe_repNotify = False, qe_repTier = False\<rparr>"

definition quest_start :: "QuestStruct list \<Rightarrow> quest_world" where
  "quest_start quests = \<lparr>qw_quests = setQuests quests no_quests,
     qw_inv = \<lparr>iv_players = Map.empty, iv_hasSave = False, iv_hasQueue = False, iv_hasQuest = True, iv_out = []\<rparr>,
     qw_chars = [], qw_reps = Map.empty, qw_out = [], qw_expOut = [], qw_repOut = [], qw_titleChecks = []\<rparr>"

definition offered :: "QuestStruct \<Rightarrow> quest_world" where
  "offered q = (let w = quest_start [q] in
     with_quests w (snd (offerQuest sample_env (qw_chars w) (bags_of w) 7 (qu_slug q) (qw_quests w))))"

lemma offered_run: "quest_run db0 [q] (offered q)"
  unfolding offered_def Let_def
  by (rule quest_run.Step[OF quest_run.Start quest_step.Offer]) (simp_all add: quest_start_def)

lemma empty_db_ok: "db_ok qm (\<lambda>_ _. None)"
  by (simp add: db_ok_def)

text \<open>C18: In every reachable state the quest log is well formed: a quest is in a known state, at one
  of its steps, an active quest never waits at a step that is already satisfied and advances by itself, a
  completed or turned-in quest is at its last step, and every entry not marked for saving is
  exactly what the game server holds.\<close>

theorem quest_log_invariant:
  assumes "quest_run db0 quests w" "db_ok (setQuests quests no_quests) db0"
  shows "log_ok (qw_quests w) \<and> synced (server db0 (qw_out w)) (qw_quests w)"
  using run_world_ok[OF assms] by (simp add: world_ok_def)

theorem quest_log_invariant_witness: "log_ok (qw_quests (offered hunt))"
  using quest_log_invariant[OF offered_run empty_db_ok] by blast

text \<open>C21: No progress is lost: the periodic flush leaves every character's log as it was, marks it
  all saved, and after it the game server holds every entry of it.\<close>

theorem flush_saves_everything:
  assumes "quest_run db0 quests w" "db_ok (setQuests quests no_quests) db0" "qe_worker env"
  shows "case flushDirtyProgress env (qw_quests w) of (qm', out) \<Rightarrow>
    \<forall>c k. entry qm' c k = map_option clean (entry (qw_quests w) c k) \<and>
      (case entry qm' c k of None \<Rightarrow> True
       | Some pq \<Rightarrow> server db0 (qw_out w @ out) c k = Some (stored pq))"
proof -
  have w: "world_ok db0 w" using run_world_ok[OF assms(1,2)] .
  then have w': "world_ok db0 (with_quests w (flushDirtyProgress env (qw_quests w)))"
    using assms(3) by (rule flush_world_ok)
  have "entry (fst (flushDirtyProgress env (qw_quests w))) c k = map_option clean (entry (qw_quests w) c k)" for c k
    by (simp add: flushDirty_log map_of_clean)
  with w' show ?thesis
    by (auto simp: case_prod_unfold world_ok_def with_quests_def synced_def split: option.split)
qed

theorem flush_saves_everything_witness:
  "server (\<lambda>_ _. None) (qw_out (offered hunt) @ snd (flushDirtyProgress sample_env (qw_quests (offered hunt)))) 7 1
     = Some (''hunt'', ''active'', 0, JObject [(''killed'', JInt 0)])"
proof -
  have e: "map_option stored (entry (qw_quests (offered hunt)) 7 1) = Some (''hunt'', ''active'', 0, JObject [(''killed'', JInt 0)])"
    by code_simp
  have "qe_worker sample_env" by (simp add: sample_env_def)
  from flush_saves_everything[OF offered_run empty_db_ok this, of hunt]
  have "entry (fst (flushDirtyProgress sample_env (qw_quests (offered hunt)))) 7 1 = map_option clean (entry (qw_quests (offered hunt)) 7 1) \<and>
      (case entry (fst (flushDirtyProgress sample_env (qw_quests (offered hunt)))) 7 1 of None \<Rightarrow> True
       | Some pq \<Rightarrow> server (\<lambda>_ _. None) (qw_out (offered hunt) @ snd (flushDirtyProgress sample_env (qw_quests (offered hunt)))) 7 1
           = Some (stored pq))"
    unfolding case_prod_unfold by blast
  with e show ?thesis by auto
qed

text \<open>C20: A kill step finishes exactly when its count is reached: each kill of the right mob counts
  one, the quest stays at the step as long as kills are missing, and the last one completes
  the quest or moves it on to a later step.\<close>

theorem kills_finish_step:
  assumes "on_kill_step qm c k q cur mob n i" "0 \<le> i" "i < n"
  shows "(\<forall>j. i + int j < n \<longrightarrow> on_kill_step (kills env chars bags c mob j qm) c k q cur mob n (i + int j)) \<and>
    (case entry (kills env chars bags c mob (nat (n - i)) qm) c k of None \<Rightarrow> False
     | Some pq \<Rightarrow> pq_state pq = ''completed'' \<or> cur < pq_currentStep pq)"
proof -
  obtain j where j: "nat (n - i) = Suc j" using assms(3) by (metis Suc_pred zero_less_diff zero_less_nat_eq diff_gt_0_iff_gt)
  with assms have "on_kill_step (kills env chars bags c mob j qm) c k q cur mob n (i + int j)" by (intro some_kills) auto
  from one_kill[OF this, of env chars bags] j assms
  have "case entry (kills env chars bags c mob (nat (n - i)) qm) c k of None \<Rightarrow> False
     | Some pq \<Rightarrow> pq_state pq = ''completed'' \<or> cur < pq_currentStep pq" by (auto split: if_splits)
  with some_kills[OF assms(1,2)] show ?thesis by blast
qed

theorem kills_finish_step_witness:
  "map_option pq_state (entry (kills sample_env [] (\<lambda>_. []) 7 5 2 (qw_quests (offered hunt))) 7 1) = Some ''completed''"
proof -
  have "on_kill_step (qw_quests (offered hunt)) 7 1 hunt 0 5 2 0" by code_simp
  from kills_finish_step[OF this, of sample_env "[]" "\<lambda>_. []"]
  have "case entry (kills sample_env [] (\<lambda>_. []) 7 5 2 (qw_quests (offered hunt))) 7 1 of None \<Rightarrow> False
     | Some pq \<Rightarrow> pq_state pq = ''completed'' \<or> 0 < pq_currentStep pq" by simp
  moreover have "map_option pq_currentStep (entry (kills sample_env [] (\<lambda>_. []) 7 5 2 (qw_quests (offered hunt))) 7 1) = Some 0"
    by code_simp
  ultimately show ?thesis by (auto split: option.splits)
qed




section \<open>What the code does beyond its intent\<close>

definition hunted :: quest_world where
  "hunted = (offered hunt)\<lparr>qw_quests := kills sample_env [] (\<lambda>_. []) 7 5 2 (qw_quests (offered hunt))\<rparr>"

text \<open>\<open>repeatable\<close> and \<open>cooldownSec\<close> are never read: a quest that is not repeatable can be taken again as
  soon as it has been turned in.\<close>

lemma turned_in_quest_taken_again:
  "\<not> qu_repeatable hunt \<and>
   (let w = snd (turnInQuest sample_env 7 ''hunt'' hunted)
    in getQuestStateBySlug (qw_quests w) 7 ''hunt'' = ''turned_in'' \<and>
       fst (offerQuest sample_env (qw_chars w) (bags_of w) 7 ''hunt'' (qw_quests w)))"
  by code_simp

text \<open>\<open>checkStepCompletion\<close> has no case for \<open>interact\<close> steps: the counter reaches the required count and
  the quest stays where it is.\<close>

definition pray :: QuestStruct where
  "pray = hunt\<lparr>qu_steps := [(kill_step 0 1)\<lparr>qs_stepType := ''interact'',
     qs_params := JObject [(''object_id'', JInt 9), (''count'', JInt 1)]\<rparr>]\<rparr>"

lemma interact_step_never_completes:
  "map_option stored (entry (fst (onWorldObjectInteracted sample_env [] (\<lambda>_. []) 7 9 (qw_quests (offered pray)))) 7 1)
     = Some (''hunt'', ''active'', 0, JObject [(''interacted'', JInt 1)])"
  by code_simp

text \<open>The items of a collect step are taken at turn-in without looking whether they are still there:
  the character has sold the potion and is paid all the same.\<close>

definition fetch :: QuestStruct where
  "fetch = hunt\<lparr>qu_steps := [(kill_step 0 1)\<lparr>qs_stepType := ''collect'',
     qs_params := JObject [(''item_id'', JInt 3), (''count'', JInt 1)]\<rparr>]\<rparr>"

lemma turn_in_without_the_items:
  "let w = (offered fetch)\<lparr>qw_quests := fst (onItemObtained sample_env [] (\<lambda>_. []) 7 3 1 (qw_quests (offered fetch)))\<rparr>;
       w' = snd (turnInQuest sample_env 7 ''hunt'' w)
   in getItemQuantity (qw_inv w) 7 3 = 0 \<and> getGoldAmount sample_items (qw_inv w') 7 = 10"
  by code_simp

end
