(* ===== verification/Dialogue_Conditions.thy ===== *)
theory Dialogue_Conditions
  imports Quest_Logs Mastery
begin

text \<open>
  \<^verbatim>\<open>services/DialogueConditionEvaluator.cpp\<close>: the JSON conditions that guard dialogue nodes,
  edges and world objects, and the snapshot of the player they are evaluated on
  (\<^verbatim>\<open>DialogueEventHandler::buildPlayerContext\<close>). A JSON read of the wrong type throws; an
  evaluation is therefore an error or a truth value.
\<close>

section \<open>Rules\<close>

text \<open>The comparison a rule asks for: the first of the listed operators it contains, \<open>d\<close> if none.\<close>

fun compare_with ::
  "(string \<times> ('a \<Rightarrow> 'a \<Rightarrow> bool)) list \<Rightarrow> (json \<Rightarrow> json_error + 'a) \<Rightarrow> json \<Rightarrow> 'a \<Rightarrow> bool \<Rightarrow> json_error + bool" where
  "compare_with [] get rule v d = Inr d"
| "compare_with ((k, r) # ops) get rule v d =
     (if contains rule k then (case get (member rule k) of Inl e \<Rightarrow> Inl e | Inr x \<Rightarrow> Inr (r v x))
      else compare_with ops get rule v d)"

definition evaluateFlag :: "json \<Rightarrow> PlayerContextStruct \<Rightarrow> json_error + bool" where
  "evaluateFlag rule ctx =
     (if \<not> contains rule ''key'' then Inr True
      else case get_string (member rule ''key'') of Inl e \<Rightarrow> Inl e
      | Inr key \<Rightarrow>
        (case member rule ''eq'' of
           JBool expected \<Rightarrow> Inr ((case cx_flagsBool ctx key of Some b \<Rightarrow> b | None \<Rightarrow> False) = expected)
         | _ \<Rightarrow>
           let actual = (case cx_flagsInt ctx key of Some i \<Rightarrow> i | None \<Rightarrow> 0)
           in compare_with [(''eq'', (=)), (''gte'', (\<ge>)), (''lte'', (\<le>)), (''gt'', (>)), (''lt'', (<))]
                get_int rule actual True))"

definition evaluateQuest :: "json \<Rightarrow> PlayerContextStruct \<Rightarrow> json_error + bool" where
  "evaluateQuest rule ctx =
     (if \<not> contains rule ''slug'' \<or> \<not> contains rule ''state'' then Inr True
      else case get_string (member rule ''slug'') of Inl e \<Rightarrow> Inl e
      | Inr slug \<Rightarrow> (case get_string (member rule ''state'') of Inl e \<Rightarrow> Inl e
        | Inr expectedState \<Rightarrow>
          if expectedState = ''not_started'' then Inr (cx_questStates ctx slug = None)
          else Inr (cx_questStates ctx slug = Some expectedState)))"

definition evaluateQuestStep :: "json \<Rightarrow> PlayerContextStruct \<Rightarrow> json_error + bool" where
  "evaluateQuestStep rule ctx =
     (if \<not> contains rule ''slug'' then Inr True
      else case get_string (member rule ''slug'') of Inl e \<Rightarrow> Inl e
      | Inr slug \<Rightarrow>
        let currentStep = (case cx_questCurrentStep ctx slug of Some i \<Rightarrow> i | None \<Rightarrow> -1)
        in compare_with [(''step'', (=)), (''eq'', (=)), (''gte'', (\<ge>)), (''lte'', (\<le>)), (''gt'', (>)), (''lt'', (<))]
             get_int rule currentStep True)"

definition evaluateLevel :: "json \<Rightarrow> PlayerContextStruct \<Rightarrow> json_error + bool" where
  "evaluateLevel rule ctx =
     compare_with [(''gte'', (\<ge>)), (''lte'', (\<le>)), (''eq'', (=)), (''gt'', (>)), (''lt'', (<))]
       get_int rule (cx_characterLevel ctx) True"

definition item_key :: "int \<Rightarrow> string" where
  "item_key i = ''item_'' @ to_string i"

definition evaluateInventory :: "json \<Rightarrow> PlayerContextStruct \<Rightarrow> json_error + bool" where
  "evaluateInventory rule ctx =
     (if \<not> contains rule ''item_id'' then Inr True
      else case get_int (member rule ''item_id'') of Inl e \<Rightarrow> Inl e
      | Inr itemId \<Rightarrow>
        let have_n = (case cx_flagsInt ctx (item_key itemId) of Some n \<Rightarrow> n | None \<Rightarrow> 0)
        in compare_with [(''gte'', (\<ge>)), (''lte'', (\<le>)), (''eq'', (=))] get_int rule have_n True)"

text \<open>The ranks of the tiers, written out a second time in this file.\<close>

definition tier_needed :: "string \<Rightarrow> int" where
  "tier_needed t = (case map_of [(''enemy'', 0), (''stranger'', 1), (''neutral'', 2), (''friendly'', 3), (''ally'', 4)] t
     of Some r \<Rightarrow> r | None \<Rightarrow> -1)"

definition tier_current :: "int \<Rightarrow> int" where
  "tier_current v = (if v < -500 then 0 else if v < 0 then 1 else if v < 200 then 2 else if v < 500 then 3 else 4)"

definition evaluateReputation :: "json \<Rightarrow> PlayerContextStruct \<Rightarrow> json_error + bool" where
  "evaluateReputation rule ctx =
     (if \<not> contains rule ''faction'' then Inr True
      else case get_string (member rule ''faction'') of Inl e \<Rightarrow> Inl e
      | Inr faction \<Rightarrow>
        let v = (case cx_reputations ctx faction of Some x \<Rightarrow> x | None \<Rightarrow> 0) in
        if list_ex (contains rule) [''gte'', ''lte'', ''eq'', ''gt'', ''lt'']
        then compare_with [(''gte'', (\<ge>)), (''lte'', (\<le>)), (''eq'', (=)), (''gt'', (>)), (''lt'', (<))] get_int rule v True
        else if contains rule ''tier'' then
          (case get_string (member rule ''tier'') of Inl e \<Rightarrow> Inl e | Inr t \<Rightarrow> Inr (tier_needed t \<le> tier_current v))
        else Inr True)"

text \<open>\<^verbatim>\<open>std::abs(value - rule["eq"].get<float>()) < 0.001f\<close>\<close>

definition evaluateMastery :: "json \<Rightarrow> PlayerContextStruct \<Rightarrow> json_error + bool" where
  "evaluateMastery rule ctx =
     (if \<not> contains rule ''slug'' then Inr True
      else case get_string (member rule ''slug'') of Inl e \<Rightarrow> Inl e
      | Inr slug \<Rightarrow>
        let v = (case cx_masteries ctx slug of Some x \<Rightarrow> x | None \<Rightarrow> 0)
        in compare_with [(''gte'', (\<ge>)), (''lte'', (\<le>)), (''eq'', (\<lambda>v x. \<bar>fl32 (v - x)\<bar> < fl32 (1 / 1000))), (''gt'', (>)), (''lt'', (<))]
             get_float rule v True)"

definition evaluateHasSkillPoints :: "json \<Rightarrow> PlayerContextStruct \<Rightarrow> json_error + bool" where
  "evaluateHasSkillPoints rule ctx =
     compare_with [(''gte'', (\<ge>)), (''gt'', (>)), (''eq'', (=))] get_int rule (cx_freeSkillPoints ctx)
       (0 < cx_freeSkillPoints ctx)"

definition evaluateSkillLearned :: "json \<Rightarrow> PlayerContextStruct \<Rightarrow> json_error + bool" where
  "evaluateSkillLearned rule ctx =
     (if \<not> contains rule ''slug'' then Inr True
      else case get_string (member rule ''slug'') of Inl e \<Rightarrow> Inl e | Inr slug \<Rightarrow> Inr (slug \<in> set (cx_learnedSkillSlugs ctx)))"

definition evaluateSkillNotLearned :: "json \<Rightarrow> PlayerContextStruct \<Rightarrow> json_error + bool" where
  "evaluateSkillNotLearned rule ctx =
     (if \<not> contains rule ''slug'' then Inr True
      else case get_string (member rule ''slug'') of Inl e \<Rightarrow> Inl e | Inr slug \<Rightarrow> Inr (slug \<notin> set (cx_learnedSkillSlugs ctx)))"

definition evaluateClass :: "json \<Rightarrow> PlayerContextStruct \<Rightarrow> json_error + bool" where
  "evaluateClass rule ctx =
     (if contains rule ''class_id''
      then (case get_int (member rule ''class_id'') of Inl e \<Rightarrow> Inl e | Inr i \<Rightarrow> Inr (cx_classId ctx = i))
      else case member rule ''class_ids'' of
        JArray elems \<Rightarrow> Inr (list_ex (\<lambda>elem. case elem of JInt i \<Rightarrow> wrap32 i = cx_classId ctx | _ \<Rightarrow> False) elems)
      | _ \<Rightarrow> Inr True)"

definition evaluateObjectState :: "json \<Rightarrow> PlayerContextStruct \<Rightarrow> json_error + bool" where
  "evaluateObjectState rule ctx =
     (case value_get get_int rule ''object_id'' 0 of Inl e \<Rightarrow> Inl e
      | Inr objId \<Rightarrow> (case value_get get_string rule ''state'' ''active'' of Inl e \<Rightarrow> Inl e
        | Inr expectedState \<Rightarrow>
          if objId \<le> 0 then Inr True
          else case cx_flagsInt ctx (''wio_state_'' @ to_string objId) of None \<Rightarrow> Inr True
          | Some st \<Rightarrow> Inr (st = (case map_of [(''active'', 0), (''depleted'', 1), (''disabled'', 2)] expectedState of
                             Some e \<Rightarrow> e | None \<Rightarrow> 0))))"

definition evaluateRule :: "json \<Rightarrow> PlayerContextStruct \<Rightarrow> json_error + bool" where
  "evaluateRule rule ctx =
     (if \<not> contains rule ''type'' then Inr True
      else case get_string (member rule ''type'') of Inl e \<Rightarrow> Inl e
      | Inr t \<Rightarrow>
        if t = ''flag'' then evaluateFlag rule ctx
        else if t = ''quest'' then evaluateQuest rule ctx
        else if t = ''quest_step'' then evaluateQuestStep rule ctx
        else if t = ''level'' then evaluateLevel rule ctx
        else if t = ''item'' then evaluateInventory rule ctx
        else if t = ''reputation'' then evaluateReputation rule ctx
        else if t = ''mastery'' then evaluateMastery rule ctx
        else if t = ''has_skill_points'' then evaluateHasSkillPoints rule ctx
        else if t = ''skill_learned'' then evaluateSkillLearned rule ctx
        else if t = ''skill_not_learned'' then evaluateSkillNotLearned rule ctx
        else if t = ''class'' then evaluateClass rule ctx
        else if t = ''object_state'' then evaluateObjectState rule ctx
        else Inr True)"

section \<open>Groups\<close>

text \<open>How a condition is read: a list or \<open>all\<close>, \<open>any\<close>, \<open>not\<close>, or a rule.\<close>

datatype cond = Always | AllOf "json list" | AnyOf "json list" | NotOf json | Rule json

definition array_at :: "json \<Rightarrow> string \<Rightarrow> json list option" where
  "array_at j k = (case map_of (members j) k of Some (JArray js) \<Rightarrow> Some js | _ \<Rightarrow> None)"

definition object_at :: "json \<Rightarrow> string \<Rightarrow> json option" where
  "object_at j k = (case map_of (members j) k of Some (JObject m) \<Rightarrow> Some (JObject m) | _ \<Rightarrow> None)"

definition classify :: "json \<Rightarrow> cond" where
  "classify j =
     (if json_empty j then Always
      else case j of JArray js \<Rightarrow> AllOf js
      | _ \<Rightarrow>
        (case array_at j ''all'' of Some js \<Rightarrow> AllOf js
         | None \<Rightarrow> (case array_at j ''any'' of Some js \<Rightarrow> AnyOf js
           | None \<Rightarrow> (case object_at j ''not'' of Some j' \<Rightarrow> NotOf j' | None \<Rightarrow> Rule j))))"

lemma size_json_member: "map_of (members j) k = Some v \<Longrightarrow> size v < size j"
  by (cases j) (auto dest: size_member)

lemma array_at_smaller: "array_at j k = Some js \<Longrightarrow> size_list size js < size j"
  using size_json_member[of j k "JArray js"] by (auto simp: array_at_def split: option.splits json.splits)

lemma object_at_smaller: "object_at j k = Some j' \<Longrightarrow> size j' < size j"
  using size_json_member[of j k j'] by (auto simp: object_at_def split: option.splits json.splits)

lemma classify_array: "classify (JArray js) = (if js = [] then Always else AllOf js)"
  by (simp add: classify_def json_empty_def)

lemma classify_other:
  assumes "\<And>js. j \<noteq> JArray js"
  shows "classify j = (if json_empty j then Always
      else case array_at j ''all'' of Some js \<Rightarrow> AllOf js
         | None \<Rightarrow> (case array_at j ''any'' of Some js \<Rightarrow> AnyOf js
           | None \<Rightarrow> (case object_at j ''not'' of Some j' \<Rightarrow> NotOf j' | None \<Rightarrow> Rule j)))"
  using assms by (cases j) (auto simp: classify_def)

lemma classify_smaller:
  shows "classify j = AllOf js \<Longrightarrow> size_list size js < size j"
    and "classify j = AnyOf js \<Longrightarrow> size_list size js < size j"
    and "classify j = NotOf j' \<Longrightarrow> size j' < size j"
proof -
  have "(classify j = AllOf js \<longrightarrow> size_list size js < size j) \<and> (classify j = AnyOf js \<longrightarrow> size_list size js < size j)
      \<and> (classify j = NotOf j' \<longrightarrow> size j' < size j)"
  proof (cases "\<exists>js. j = JArray js")
    case True
    then show ?thesis by (auto simp: classify_array split: if_splits)
  next
    case False
    then show ?thesis
      using array_at_smaller[of j] object_at_smaller[of j] by (auto simp: classify_other split: option.splits if_splits)
  qed
  then show "classify j = AllOf js \<Longrightarrow> size_list size js < size j"
    and "classify j = AnyOf js \<Longrightarrow> size_list size js < size j"
    and "classify j = NotOf j' \<Longrightarrow> size j' < size j" by auto
qed

function evaluate and evaluate_all and evaluate_any where
  "evaluate j ctx =
     (case classify j of Always \<Rightarrow> Inr True
      | AllOf js \<Rightarrow> evaluate_all js ctx
      | AnyOf js \<Rightarrow> evaluate_any js ctx
      | NotOf j' \<Rightarrow> map_sum id Not (evaluate j' ctx)
      | Rule r \<Rightarrow> evaluateRule r ctx)"
| "evaluate_all [] ctx = Inr True"
| "evaluate_all (j # js) ctx = (case evaluate j ctx of Inl e \<Rightarrow> Inl e | Inr b \<Rightarrow> if b then evaluate_all js ctx else Inr False)"
| "evaluate_any [] ctx = Inr False"
| "evaluate_any (j # js) ctx = (case evaluate j ctx of Inl e \<Rightarrow> Inl e | Inr b \<Rightarrow> if b then Inr True else evaluate_any js ctx)"
  by pat_completeness auto
termination
  by (relation "measure (case_sum (\<lambda>(j, ctx). size j) (case_sum (\<lambda>(js, ctx). size_list size js) (\<lambda>(js, ctx). size_list size js)))")
     (auto simp: classify_smaller)

declare evaluate.simps [simp del]

section \<open>The player's snapshot\<close>

definition buildPlayerContext ::
  "quest_manager \<Rightarrow> inventory_manager \<Rightarrow> reputation_manager \<Rightarrow> mastery_manager \<Rightarrow> CharacterDataStruct \<Rightarrow> PlayerContextStruct" where
  "buildPlayerContext qm ivm rm mm ch =
     (let c = ch_characterId ch;
          ctx0 = \<lparr>cx_characterId = c, cx_characterLevel = ch_characterLevel ch, cx_classId = ch_classId ch,
            cx_flagsBool = fold (\<lambda>f m. case pf_boolValue f of Some b \<Rightarrow> m(pf_flagKey f \<mapsto> b) | None \<Rightarrow> m) (ch_flags ch) Map.empty,
            cx_flagsInt = fold (\<lambda>f m. case pf_intValue f of Some i \<Rightarrow> m(pf_flagKey f \<mapsto> i) | None \<Rightarrow> m) (ch_flags ch) Map.empty,
            cx_questStates = Map.empty, cx_questCurrentStep = Map.empty, cx_questProgress = Map.empty,
            cx_reputations = Map.empty, cx_masteries = Map.empty, cx_freeSkillPoints = 0, cx_learnedSkillSlugs = []\<rparr>;
          ctx1 = fillQuestContext qm c ctx0
      in ctx1\<lparr>cx_flagsInt := fold (\<lambda>r m. m(item_key (pi_itemId r) \<mapsto> pi_quantity r)) (getPlayerInventory ivm c) (cx_flagsInt ctx1),
              cx_reputations := fillReputationContext rm c (cx_reputations ctx1),
              cx_masteries := map_of (fillMasteryContext mm c []),
              cx_freeSkillPoints := ch_freeSkillPoints ch,
              cx_learnedSkillSlugs := map sk_skillSlug (ch_skills ch)\<rparr>)"

section \<open>Well-typed conditions\<close>

definition number_ok :: "json \<Rightarrow> string \<Rightarrow> bool" where
  "number_ok r k \<longleftrightarrow> (contains r k \<longrightarrow> (case member r k of JInt i \<Rightarrow> True | JFloat f \<Rightarrow> True | JBool b \<Rightarrow> True | _ \<Rightarrow> False))"

definition text_ok :: "json \<Rightarrow> string \<Rightarrow> bool" where
  "text_ok r k \<longleftrightarrow> (contains r k \<longrightarrow> (case member r k of JString s \<Rightarrow> True | _ \<Rightarrow> False))"

definition operators :: "string list" where
  "operators = [''eq'', ''gte'', ''lte'', ''gt'', ''lt'']"

text \<open>The fields each type of rule reads have the types it reads them at.\<close>

definition rule_ok :: "json \<Rightarrow> bool" where
  "rule_ok r \<longleftrightarrow> (contains r ''type'' \<longrightarrow>
     (case member r ''type'' of JString t \<Rightarrow>
        (t \<in> {''flag'', ''quest_step'', ''level'', ''item'', ''reputation'', ''mastery'', ''has_skill_points''}
           \<longrightarrow> list_all (number_ok r) operators) \<and>
        (t = ''flag'' \<longrightarrow> text_ok r ''key'') \<and>
        (t \<in> {''quest'', ''quest_step'', ''mastery'', ''skill_learned'', ''skill_not_learned''} \<longrightarrow> text_ok r ''slug'') \<and>
        (t \<in> {''quest'', ''object_state''} \<longrightarrow> text_ok r ''state'') \<and>
        (t = ''quest_step'' \<longrightarrow> number_ok r ''step'') \<and>
        (t = ''item'' \<longrightarrow> number_ok r ''item_id'') \<and>
        (t = ''reputation'' \<longrightarrow> text_ok r ''faction'' \<and> text_ok r ''tier'') \<and>
        (t = ''class'' \<longrightarrow> number_ok r ''class_id'') \<and>
        (t = ''object_state'' \<longrightarrow> number_ok r ''object_id'')
      | _ \<Rightarrow> False))"

function cond_ok :: "json \<Rightarrow> bool" where
  "cond_ok j =
     (case classify j of Always \<Rightarrow> True | AllOf js \<Rightarrow> list_all cond_ok js | AnyOf js \<Rightarrow> list_all cond_ok js
      | NotOf j' \<Rightarrow> cond_ok j' | Rule r \<Rightarrow> rule_ok r)"
  by pat_completeness auto

lemma size_in_list: "x \<in> set js \<Longrightarrow> size x < Suc (size_list size js)"
  by (induction js) auto

lemma classify_elem:
  "classify j = AllOf js \<Longrightarrow> x \<in> set js \<Longrightarrow> size x < size j"
  "classify j = AnyOf js \<Longrightarrow> x \<in> set js \<Longrightarrow> size x < size j"
  using classify_smaller(1,2)[of j js] size_in_list[of x js] by auto

termination cond_ok
  by (relation "measure size") (auto simp: classify_elem classify_smaller(3))

text \<open>What a condition says, without errors and without an order of evaluation.\<close>

function holds :: "PlayerContextStruct \<Rightarrow> json \<Rightarrow> bool" where
  "holds ctx j =
     (case classify j of Always \<Rightarrow> True | AllOf js \<Rightarrow> list_all (holds ctx) js | AnyOf js \<Rightarrow> list_ex (holds ctx) js
      | NotOf j' \<Rightarrow> \<not> holds ctx j' | Rule r \<Rightarrow> evaluateRule r ctx = Inr True)"
  by pat_completeness auto
termination holds
  by (relation "measure (\<lambda>(ctx, j). size j)") (auto simp: classify_elem classify_smaller(3))

declare cond_ok.simps [simp del] holds.simps [simp del]

lemma compare_ok:
  assumes "\<And>j. (case j of JInt i \<Rightarrow> True | JFloat f \<Rightarrow> True | JBool b \<Rightarrow> True | _ \<Rightarrow> False) \<Longrightarrow> \<exists>x. get j = Inr x"
    and "list_all (\<lambda>(k, r). number_ok rule k) ops"
  shows "\<exists>b. compare_with ops get rule v d = Inr b"
  using assms(2)
proof (induction ops)
  case (Cons op ops)
  obtain k r where op: "op = (k, r)" by (cases op)
  with Cons show ?case using assms(1)[of "member rule k"] by (auto simp: number_ok_def)
qed simp

lemma get_int_ok: "(case j of JInt i \<Rightarrow> True | JFloat f \<Rightarrow> True | JBool b \<Rightarrow> True | _ \<Rightarrow> False) \<Longrightarrow> \<exists>x. get_int j = Inr x"
  by (auto simp: get_int_def split: json.splits)

lemma get_float_ok: "(case j of JInt i \<Rightarrow> True | JFloat f \<Rightarrow> True | JBool b \<Rightarrow> True | _ \<Rightarrow> False) \<Longrightarrow> \<exists>x. get_float j = Inr x"
  by (auto simp: get_float_def split: json.splits)

lemma text_get: "text_ok r k \<Longrightarrow> contains r k \<Longrightarrow> \<exists>s. get_string (member r k) = Inr s"
  by (auto simp: text_ok_def get_string_def split: json.splits)

lemma number_get: "number_ok r k \<Longrightarrow> contains r k \<Longrightarrow> \<exists>i. get_int (member r k) = Inr i"
  by (auto simp: number_ok_def dest: get_int_ok)

lemma value_get_ok:
  "text_ok r k \<Longrightarrow> \<exists>s. value_get get_string r k d = Inr s"
  "number_ok r k \<Longrightarrow> \<exists>i. value_get get_int r k d' = Inr i"
  using text_get[of r k] number_get[of r k]
  by (auto simp: value_get_def contains_def member_def split: option.splits)

lemmas compare_int_ok = compare_ok[OF get_int_ok] and compare_float_ok = compare_ok[OF get_float_ok]

text \<open>Each evaluator is safe on a rule of its own type.\<close>

lemma evaluators_safe:
  assumes "list_all (number_ok r) operators"
  shows "text_ok r ''key'' \<Longrightarrow> \<exists>b. evaluateFlag r ctx = Inr b"
    and "text_ok r ''slug'' \<Longrightarrow> number_ok r ''step'' \<Longrightarrow> \<exists>b. evaluateQuestStep r ctx = Inr b"
    and "\<exists>b. evaluateLevel r ctx = Inr b"
    and "number_ok r ''item_id'' \<Longrightarrow> \<exists>b. evaluateInventory r ctx = Inr b"
    and "text_ok r ''faction'' \<Longrightarrow> text_ok r ''tier'' \<Longrightarrow> \<exists>b. evaluateReputation r ctx = Inr b"
    and "text_ok r ''slug'' \<Longrightarrow> \<exists>b. evaluateMastery r ctx = Inr b"
    and "\<exists>b. evaluateHasSkillPoints r ctx = Inr b"
proof -
  have ops: "number_ok r ''eq''" "number_ok r ''gte''" "number_ok r ''lte''" "number_ok r ''gt''" "number_ok r ''lt''"
    using assms by (simp_all add: operators_def)
  note c = compare_int_ok[where rule = r] compare_float_ok[where rule = r]
  show "\<exists>b. evaluateLevel r ctx = Inr b"
    unfolding evaluateLevel_def by (rule c(1), simp only: list.pred_inject prod.case) (use ops in simp)
  show "\<exists>b. evaluateHasSkillPoints r ctx = Inr b"
    unfolding evaluateHasSkillPoints_def by (rule c(1), simp only: list.pred_inject prod.case) (use ops in simp)
  show "\<exists>b. evaluateFlag r ctx = Inr b" if "text_ok r ''key''"
  proof -
    have "\<exists>b. compare_with [(''eq'', (=)), (''gte'', (\<ge>)), (''lte'', (\<le>)), (''gt'', (>)), (''lt'', (<))] get_int r v True = Inr b" for v
      by (rule c(1), simp only: list.pred_inject prod.case) (use ops in simp)
    then show ?thesis using text_get[OF that] unfolding evaluateFlag_def Let_def
      by (cases "contains r ''key''") (auto split: json.split)
  qed
  show "\<exists>b. evaluateQuestStep r ctx = Inr b" if "text_ok r ''slug''" "number_ok r ''step''"
  proof -
    have "\<exists>b. compare_with [(''step'', (=)), (''eq'', (=)), (''gte'', (\<ge>)), (''lte'', (\<le>)), (''gt'', (>)), (''lt'', (<))] get_int r v True = Inr b" for v
      by (rule c(1), simp only: list.pred_inject prod.case) (use ops that in simp)
    then show ?thesis using text_get[OF that(1)] unfolding evaluateQuestStep_def Let_def
      by (cases "contains r ''slug''") auto
  qed
  show "\<exists>b. evaluateInventory r ctx = Inr b" if "number_ok r ''item_id''"
  proof -
    have "\<exists>b. compare_with [(''gte'', (\<ge>)), (''lte'', (\<le>)), (''eq'', (=))] get_int r v True = Inr b" for v
      by (rule c(1), simp only: list.pred_inject prod.case) (use ops in simp)
    then show ?thesis using number_get[OF that] unfolding evaluateInventory_def Let_def
      by (cases "contains r ''item_id''") auto
  qed
  show "\<exists>b. evaluateReputation r ctx = Inr b" if "text_ok r ''faction''" "text_ok r ''tier''"
  proof -
    have "\<exists>b. compare_with [(''gte'', (\<ge>)), (''lte'', (\<le>)), (''eq'', (=)), (''gt'', (>)), (''lt'', (<))] get_int r v True = Inr b" for v
      by (rule c(1), simp only: list.pred_inject prod.case) (use ops in simp)
    then show ?thesis using text_get[OF that(1)] text_get[OF that(2)] unfolding evaluateReputation_def Let_def
      by (cases "contains r ''faction''"; cases "contains r ''tier''") (auto simp del: compare_with.simps)
  qed
  show "\<exists>b. evaluateMastery r ctx = Inr b" if "text_ok r ''slug''"
  proof -
    have "\<exists>b. compare_with [(''gte'', (\<ge>)), (''lte'', (\<le>)), (''eq'', (\<lambda>v x. \<bar>fl32 (v - x)\<bar> < fl32 (1 / 1000))), (''gt'', (>)), (''lt'', (<))] get_float r v True = Inr b" for v
      by (rule c(2), simp only: list.pred_inject prod.case) (use ops in simp)
    then show ?thesis using text_get[OF that] unfolding evaluateMastery_def Let_def
      by (cases "contains r ''slug''") auto
  qed
qed

lemma evaluateQuest_safe: "text_ok r ''slug'' \<Longrightarrow> text_ok r ''state'' \<Longrightarrow> \<exists>b. evaluateQuest r ctx = Inr b"
  using text_get[of r "''slug''"] text_get[of r "''state''"] by (auto simp: evaluateQuest_def)

lemma evaluateSkill_safe:
  "text_ok r ''slug'' \<Longrightarrow> \<exists>b. evaluateSkillLearned r ctx = Inr b"
  "text_ok r ''slug'' \<Longrightarrow> \<exists>b. evaluateSkillNotLearned r ctx = Inr b"
  using text_get[of r "''slug''"] by (auto simp: evaluateSkillLearned_def evaluateSkillNotLearned_def)

lemma evaluateClass_safe: "number_ok r ''class_id'' \<Longrightarrow> \<exists>b. evaluateClass r ctx = Inr b"
  using number_get[of r "''class_id''"] by (auto simp: evaluateClass_def split: json.split)

lemma evaluateObjectState_safe: "number_ok r ''object_id'' \<Longrightarrow> text_ok r ''state'' \<Longrightarrow> \<exists>b. evaluateObjectState r ctx = Inr b"
  using value_get_ok(1)[of r "''state''" "''active''"] value_get_ok(2)[of r "''object_id''" 0]
  by (auto simp: evaluateObjectState_def split: option.split)

lemma if_safe:
  "(c \<Longrightarrow> \<exists>b. x = Inr b) \<Longrightarrow> (\<not> c \<Longrightarrow> \<exists>b. y = Inr b) \<Longrightarrow> \<exists>b. (if c then x else y) = Inr b"
  by auto

lemma rule_safe:
  assumes "rule_ok r" shows "\<exists>b. evaluateRule r ctx = Inr b"
proof (cases "contains r ''type''")
  case True
  then obtain t where t: "member r ''type'' = JString t" using assms by (auto simp: rule_ok_def split: json.splits)
  have g: "get_string (member r ''type'') = Inr t" by (simp add: t get_string_def)
  from assms True t have ok:
    "t \<in> {''flag'', ''quest_step'', ''level'', ''item'', ''reputation'', ''mastery'', ''has_skill_points''} \<Longrightarrow> list_all (number_ok r) operators"
    "t = ''flag'' \<Longrightarrow> text_ok r ''key''"
    "t \<in> {''quest'', ''quest_step'', ''mastery'', ''skill_learned'', ''skill_not_learned''} \<Longrightarrow> text_ok r ''slug''"
    "t \<in> {''quest'', ''object_state''} \<Longrightarrow> text_ok r ''state''"
    "t = ''quest_step'' \<Longrightarrow> number_ok r ''step''" "t = ''item'' \<Longrightarrow> number_ok r ''item_id''"
    "t = ''reputation'' \<Longrightarrow> text_ok r ''faction'' \<and> text_ok r ''tier''" "t = ''class'' \<Longrightarrow> number_ok r ''class_id''"
    "t = ''object_state'' \<Longrightarrow> number_ok r ''object_id''"
    by (simp_all only: rule_ok_def json.case mp)
  note e = evaluators_safe[OF ok(1), of ctx]
  have safe:
    "t = ''flag'' \<Longrightarrow> \<exists>b. evaluateFlag r ctx = Inr b"
    "t = ''quest'' \<Longrightarrow> \<exists>b. evaluateQuest r ctx = Inr b"
    "t = ''quest_step'' \<Longrightarrow> \<exists>b. evaluateQuestStep r ctx = Inr b"
    "t = ''level'' \<Longrightarrow> \<exists>b. evaluateLevel r ctx = Inr b"
    "t = ''item'' \<Longrightarrow> \<exists>b. evaluateInventory r ctx = Inr b"
    "t = ''reputation'' \<Longrightarrow> \<exists>b. evaluateReputation r ctx = Inr b"
    "t = ''mastery'' \<Longrightarrow> \<exists>b. evaluateMastery r ctx = Inr b"
    "t = ''has_skill_points'' \<Longrightarrow> \<exists>b. evaluateHasSkillPoints r ctx = Inr b"
    "t = ''skill_learned'' \<Longrightarrow> \<exists>b. evaluateSkillLearned r ctx = Inr b"
    "t = ''skill_not_learned'' \<Longrightarrow> \<exists>b. evaluateSkillNotLearned r ctx = Inr b"
    "t = ''class'' \<Longrightarrow> \<exists>b. evaluateClass r ctx = Inr b"
    "t = ''object_state'' \<Longrightarrow> \<exists>b. evaluateObjectState r ctx = Inr b"
    using ok(2-9)
    by (simp_all add: e evaluateQuest_safe evaluateSkill_safe evaluateClass_safe evaluateObjectState_safe)
  show ?thesis
    unfolding evaluateRule_def g sum.case using True by (simp only: not_True_eq_False if_False) (intro if_safe safe exI[where x = True]; simp)
qed (auto simp: evaluateRule_def)

section \<open>Properties\<close>

text \<open>C22: A condition whose fields have the types they are read at never throws, for any player, and
  its value is the one its groups mean: the short-circuit evaluation gives the conjunction,
  disjunction and negation of its rules.\<close>

theorem conditions_type_safe:
  assumes "cond_ok j"
  shows "evaluate j ctx = Inr (holds ctx j)"
  using assms
proof (induction "size j" arbitrary: j rule: less_induct)
  case less
  have IH: "evaluate x ctx = Inr (holds ctx x)" if "size x < size j" "cond_ok x" for x
    using less.hyps that by blast
  have all: "evaluate_all js ctx = Inr (list_all (holds ctx) js)" and any: "evaluate_any js ctx = Inr (list_ex (holds ctx) js)"
    if "\<forall>x\<in>set js. size x < size j \<and> cond_ok x" for js
    using that by (induction js) (auto simp: IH)
  show ?case
  proof (cases "classify j")
    case (AllOf js)
    with less.prems have "\<forall>x\<in>set js. size x < size j \<and> cond_ok x"
      by (auto simp: cond_ok.simps[of j] list_all_iff classify_elem)
    with AllOf show ?thesis by (simp add: evaluate.simps[of j] holds.simps[of ctx j] all)
  next
    case (AnyOf js)
    with less.prems have "\<forall>x\<in>set js. size x < size j \<and> cond_ok x"
      by (auto simp: cond_ok.simps[of j] list_all_iff classify_elem)
    with AnyOf show ?thesis by (simp add: evaluate.simps[of j] holds.simps[of ctx j] any)
  next
    case (NotOf j')
    with less.prems have "size j' < size j" "cond_ok j'" by (auto simp: cond_ok.simps[of j] classify_smaller)
    with NotOf show ?thesis by (simp add: evaluate.simps[of j] holds.simps[of ctx j] IH)
  next
    case (Rule r)
    with less.prems have "rule_ok r" by (simp add: cond_ok.simps[of j])
    from rule_safe[OF this, of ctx] Rule show ?thesis by (auto simp: evaluate.simps[of j] holds.simps[of ctx j])
  qed (simp add: evaluate.simps[of j] holds.simps[of ctx j])
qed

definition mk_rule :: "string \<Rightarrow> (string \<times> json) list \<Rightarrow> json" where
  "mk_rule t ms = JObject ((''type'', JString t) # ms)"

definition grown_up :: json where
  "grown_up = JObject [(''all'', JArray [mk_rule ''level'' [(''gte'', JInt 5)],
     JObject [(''not'', mk_rule ''skill_learned'' [(''slug'', JString ''fireball'')])]])]"

theorem conditions_type_safe_witness: "\<forall>ctx. \<exists>b. evaluate grown_up ctx = Inr b"
proof
  fix ctx
  have "cond_ok grown_up" by code_simp
  from conditions_type_safe[OF this, of ctx] show "\<exists>b. evaluate grown_up ctx = Inr b" by blast
qed

section \<open>What a condition sees\<close>

lemma fillQuest_state:
  assumes "\<forall>(k, pq) \<in> set l. pq_questSlug pq \<noteq> []" "distinct (map (\<lambda>(k, pq). pq_questSlug pq) l)"
  shows "cx_questStates (fold (context_quest qm) l ctx) slug
    = (case map_of (map (\<lambda>(k, pq). (pq_questSlug pq, pq_state pq)) l) slug of
         Some st \<Rightarrow> Some st | None \<Rightarrow> cx_questStates ctx slug)"
  using assms
proof (induction l arbitrary: ctx)
  case (Cons e l)
  obtain k pq where e: "e = (k, pq)" by (cases e)
  have "map_of (map (\<lambda>(k, pq). (pq_questSlug pq, pq_state pq)) l) (pq_questSlug pq) = None"
    using Cons.prems(2) e by (force simp: map_of_eq_None_iff)
  moreover have "cx_questStates (context_quest qm (k, pq) ctx) = (cx_questStates ctx)(pq_questSlug pq \<mapsto> pq_state pq)"
    using Cons.prems(1) e by (simp add: context_quest_def Let_def)
  ultimately show ?case using Cons e by (auto split: option.split)
qed simp

lemma fillQuest_fold:
  "cx_reputations (fold (context_quest qm) l ctx) = cx_reputations ctx \<and>
   cx_characterLevel (fold (context_quest qm) l ctx) = cx_characterLevel ctx \<and>
   cx_learnedSkillSlugs (fold (context_quest qm) l ctx) = cx_learnedSkillSlugs ctx"
  by (induction l arbitrary: ctx) (auto simp: context_quest_def Let_def split: prod.split)

lemmas fillQuest_other = fillQuest_fold[of qm "quest_log qm c" for qm c, folded fillQuestContext_def]

lemma plain_rule:
  assumes "map_of ms ''all'' = None" "map_of ms ''any'' = None" "map_of ms ''not'' = None"
  shows "evaluate (mk_rule ty ms) ctx = evaluateRule (mk_rule ty ms) ctx"
proof -
  have "classify (mk_rule ty ms) = Rule (mk_rule ty ms)"
    using assms by (simp add: mk_rule_def classify_def json_empty_def array_at_def object_at_def)
  then show ?thesis by (simp add: evaluate.simps[of "mk_rule ty ms"])
qed

text \<open>Every entry of the character's log carries the slug of its quest.\<close>

definition slugs_ok :: "quest_manager \<Rightarrow> int \<Rightarrow> string \<Rightarrow> bool" where
  "slugs_ok qm c slug \<longleftrightarrow>
     (\<forall>(k, pq) \<in> set (quest_log qm c). pq_questSlug pq \<noteq> [] \<and> pq_state pq \<noteq> []) \<and>
     distinct (map (\<lambda>(k, pq). pq_questSlug pq) (quest_log qm c)) \<and>
     (case getQuestBySlug qm slug of None \<Rightarrow> (\<forall>(k, pq) \<in> set (quest_log qm c). pq_questSlug pq \<noteq> slug)
      | Some q \<Rightarrow> (\<forall>(k, pq) \<in> set (quest_log qm c). (pq_questSlug pq = slug) = (k = qu_id q)))"

lemma context_quest_state:
  assumes "slugs_ok qm c slug" "c = ch_characterId ch"
  shows "cx_questStates (buildPlayerContext qm ivm rm mm ch) slug
    = (if getQuestStateBySlug qm c slug = [] then None else Some (getQuestStateBySlug qm c slug))"
proof -
  let ?l = "quest_log qm c"
  have l: "\<forall>(k, pq) \<in> set ?l. pq_questSlug pq \<noteq> [] \<and> pq_state pq \<noteq> []" "distinct (map (\<lambda>(k, pq). pq_questSlug pq) ?l)"
    using assms(1) by (simp_all add: slugs_ok_def)
  have st: "cx_questStates (buildPlayerContext qm ivm rm mm ch) slug = map_of (map (\<lambda>(k, pq). (pq_questSlug pq, pq_state pq)) ?l) slug"
    using fillQuest_state[of ?l qm, OF _ l(2)] l(1) assms(2)
    by (simp add: buildPlayerContext_def fillQuestContext_def Let_def case_prod_unfold split: option.split)
  show ?thesis
  proof (cases "getQuestBySlug qm slug")
    case None
    then have "\<forall>(k, pq) \<in> set ?l. pq_questSlug pq \<noteq> slug" using assms(1) by (simp add: slugs_ok_def)
    then have "map_of (map (\<lambda>(k, pq). (pq_questSlug pq, pq_state pq)) ?l) slug = None"
      by (force simp: map_of_eq_None_iff)
    with None st show ?thesis by (simp add: getQuestStateBySlug_def)
  next
    case (Some q)
    then have same: "\<forall>(k, pq) \<in> set ?l. (pq_questSlug pq = slug) = (k = qu_id q)" using assms(1) by (simp add: slugs_ok_def)
    have "map_of (map (\<lambda>(k, pq). (pq_questSlug pq, pq_state pq)) l) slug = map_option pq_state (map_of l (qu_id q))"
      if "\<forall>(k, pq) \<in> set l. (pq_questSlug pq = slug) = (k = qu_id q)" for l
      using that by (induction l) auto
    from this[OF same] st Some l(1) show ?thesis
      by (auto simp: getQuestStateBySlug_def dest!: map_of_SomeD split: option.split)
  qed
qed

text \<open>Dialogue conditions and the managers agree, for the snapshot the dialogue handler builds: a
  quest rule holds exactly in the state the quest log reports (\<open>not_started\<close> when there is
  no entry), a tier rule exactly when the reputation manager's tier is at least the one asked for,
  although this file ranks the tiers a second time, a level rule on the character's level and
  a skill rule on his skills.\<close>

lemma conditions_read_managers:
  assumes "slugs_ok qm (ch_characterId ch) slug" "state \<noteq> []" "in_i32 n"
  shows "let ctx = buildPlayerContext qm ivm rm mm ch; c = ch_characterId ch in
    evaluate (mk_rule ''quest'' [(''slug'', JString slug), (''state'', JString state)]) ctx
      = Inr (if state = ''not_started'' then getQuestStateBySlug qm c slug = [] else getQuestStateBySlug qm c slug = state) \<and>
    evaluate (mk_rule ''reputation'' [(''faction'', JString f), (''tier'', JString t)]) ctx
      = Inr (getTierOrdinal t \<le> getTierOrdinal (getTier (getReputation rm c f))) \<and>
    evaluate (mk_rule ''level'' [(''gte'', JInt n)]) ctx = Inr (n \<le> ch_characterLevel ch) \<and>
    evaluate (mk_rule ''skill_learned'' [(''slug'', JString sk)]) ctx = Inr (sk \<in> sk_skillSlug ` set (ch_skills ch))"
proof -
  define ctx where "ctx = buildPlayerContext qm ivm rm mm ch"
  note ev = mk_rule_def evaluateRule_def contains_def member_def get_string_def get_int_def
  have quest: "evaluate (mk_rule ''quest'' [(''slug'', JString slug), (''state'', JString state)]) ctx
      = Inr (if state = ''not_started'' then getQuestStateBySlug qm (ch_characterId ch) slug = [] else getQuestStateBySlug qm (ch_characterId ch) slug = state)"
    using context_quest_state[OF assms(1) refl, of ivm rm mm] assms(2)
    by (subst plain_rule) (auto simp: ev evaluateQuest_def ctx_def)
  have reps: "cx_reputations ctx = fillReputationContext rm (ch_characterId ch) Map.empty"
    by (simp add: ctx_def buildPlayerContext_def Let_def fillQuest_other)
  have tier: "tier_current v = getTierOrdinal (getTier v)" "tier_needed t = getTierOrdinal t" for v t
    by (simp_all add: tier_current_def getTier_def getTierOrdinal_def tier_needed_def)
  have reputation: "evaluate (mk_rule ''reputation'' [(''faction'', JString f), (''tier'', JString t)]) ctx
      = Inr (getTierOrdinal t \<le> getTierOrdinal (getTier (getReputation rm (ch_characterId ch) f)))"
    by (subst plain_rule) (auto simp: ev evaluateReputation_def reps tier getReputation_def fillReputationContext_def split: option.split)
  have level: "evaluate (mk_rule ''level'' [(''gte'', JInt n)]) ctx = Inr (n \<le> ch_characterLevel ch)"
    using assms(3) by (subst plain_rule) (auto simp: ev evaluateLevel_def ctx_def buildPlayerContext_def Let_def fillQuest_other)
  have skill: "evaluate (mk_rule ''skill_learned'' [(''slug'', JString sk)]) ctx = Inr (sk \<in> sk_skillSlug ` set (ch_skills ch))"
    by (subst plain_rule) (auto simp: ev evaluateSkillLearned_def ctx_def buildPlayerContext_def Let_def)
  from quest reputation level skill show ?thesis by (simp add: Let_def ctx_def)
qed

definition hunter :: CharacterDataStruct where
  "hunter = default_character\<lparr>ch_characterId := 7, ch_characterLevel := 6\<rparr>"

section \<open>What the conditions do not do\<close>

text \<open>\<^verbatim>\<open>ne\<close> is not an operator of any rule: a rule with it alone holds for every player.\<close>

lemma ne_is_ignored: "evaluate (mk_rule ''level'' [(''ne'', JInt n)]) ctx = Inr True"
  by (subst plain_rule) (simp_all add: mk_rule_def evaluateRule_def contains_def member_def get_string_def evaluateLevel_def)

text \<open>An item rule sees the quantity of the last inventory row of the item only.\<close>

lemma item_rule_sees_last_row:
  assumes "getPlayerInventory ivm (ch_characterId ch) = earlier @ [r]"
  shows "cx_flagsInt (buildPlayerContext qm ivm rm mm ch) (item_key (pi_itemId r)) = Some (pi_quantity r)"
  by (simp add: buildPlayerContext_def Let_def assms)

end
