(* ===== verification/Mob_Data.thy ===== *)
theory Mob_Data
  imports Game_Data
begin

text \<open>
  The structs of a mob (\<^verbatim>\<open>data/DataStructs.hpp\<close>) and of a computed hit
  (\<^verbatim>\<open>data/SkillStructs.hpp\<close>), with the defaults of their initialisers.
  \<open>deathTimestamp\<close> is a reading of the steady clock in nanoseconds.
\<close>

record MobAttributeStruct =
  ma_mob_id :: int
  ma_id :: int
  ma_name :: string
  ma_slug :: string
  ma_value :: int

datatype MobArchetype = MELEE | CASTER | RANGED | SUPPORT

record MobDataStruct =
  mb_id :: int
  mb_uid :: int
  mb_zoneId :: int
  mb_name :: string
  mb_slug :: string
  mb_raceName :: string
  mb_level :: int
  mb_currentHealth :: int
  mb_currentMana :: int
  mb_maxHealth :: int
  mb_maxMana :: int
  mb_attributes :: "MobAttributeStruct list"
  mb_skills :: "SkillStruct list"
  mb_position :: PositionStruct
  mb_baseExperience :: int
  mb_radius :: int
  mb_isAggressive :: bool
  mb_isDead :: bool
  mb_deathTimestamp :: int
  mb_aggroRange :: float32
  mb_attackRange :: float32
  mb_attackCooldown :: float32
  mb_chaseMultiplier :: float32
  mb_patrolSpeed :: float32
  mb_patrolRadius :: float32
  mb_isSocial :: bool
  mb_chaseDuration :: float32
  mb_rankId :: int
  mb_rankCode :: string
  mb_rankMult :: float32
  mb_fleeHpThreshold :: float32
  mb_aiArchetype :: string
  mb_archetypeType :: MobArchetype
  mb_isChampion :: bool
  mb_canEvolve :: bool
  mb_hasEvolved :: bool
  mb_spawnEpochSec :: int
  mb_lootMultiplier :: float32
  mb_isRare :: bool
  mb_rareSpawnChance :: float32
  mb_rareSpawnCondition :: string
  mb_factionSlug :: string
  mb_repDeltaPerKill :: int
  mb_biomeSlug :: string
  mb_mobTypeSlug :: string
  mb_hpMin :: int
  mb_hpMax :: int

definition default_mob :: MobDataStruct where
  "default_mob = \<lparr>mb_id = 0, mb_uid = 0, mb_zoneId = 0, mb_name = [], mb_slug = [], mb_raceName = [], mb_level = 0,
     mb_currentHealth = 0, mb_currentMana = 0, mb_maxHealth = 0, mb_maxMana = 0, mb_attributes = [], mb_skills = [],
     mb_position = default_position, mb_baseExperience = 0, mb_radius = 0, mb_isAggressive = False, mb_isDead = False,
     mb_deathTimestamp = 0, mb_aggroRange = 400, mb_attackRange = 150, mb_attackCooldown = 2, mb_chaseMultiplier = 3 / 2,
     mb_patrolSpeed = 1, mb_patrolRadius = 350, mb_isSocial = False, mb_chaseDuration = 10, mb_rankId = 1,
     mb_rankCode = ''normal'', mb_rankMult = 1, mb_fleeHpThreshold = 0, mb_aiArchetype = ''melee'', mb_archetypeType = MELEE,
     mb_isChampion = False, mb_canEvolve = False, mb_hasEvolved = False, mb_spawnEpochSec = 0, mb_lootMultiplier = 1,
     mb_isRare = False, mb_rareSpawnChance = 0, mb_rareSpawnCondition = [], mb_factionSlug = [], mb_repDeltaPerKill = 0,
     mb_biomeSlug = [], mb_mobTypeSlug = [], mb_hpMin = 0, mb_hpMax = 0\<rparr>"

record DamageCalculationStruct =
  dc_baseDamage :: int
  dc_scaledDamage :: int
  dc_totalDamage :: int
  dc_isCritical :: bool
  dc_isBlocked :: bool
  dc_isMissed :: bool
  dc_damageType :: string

definition default_damage :: DamageCalculationStruct where
  "default_damage = \<lparr>dc_baseDamage = 0, dc_scaledDamage = 0, dc_totalDamage = 0, dc_isCritical = False,
     dc_isBlocked = False, dc_isMissed = False, dc_damageType = []\<rparr>"

end
