(* ===== verification/Game_Config.thy ===== *)
theory Game_Config
  imports Chunk_Floats Chunk_Strings
begin

text \<open>
  \<^verbatim>\<open>services/GameConfigService.cpp\<close>: the gameplay constants the game server sends as
  strings. \<open>stof\<close> is \<^verbatim>\<open>std::stof\<close> on decimal numbers; \<open>None\<close> stands for its
  exceptions. The spellings of infinity, NaN and hexadecimal floats are outside the model.
\<close>

type_synonym game_config = "(string \<times> string) list"

section \<open>Reading decimal numbers\<close>

definition read_exponent :: "string \<Rightarrow> int" where
  "read_exponent s =
     (case s of [] \<Rightarrow> 0
      | ch # t \<Rightarrow>
        if ch = CHR ''e'' \<or> ch = CHR ''E''
        then (let (neg, u) = read_sign t; ds = takeWhile is_digit u
              in if neg then - int (digits_val ds) else int (digits_val ds))
        else 0)"

definition read_fraction :: "string \<Rightarrow> string \<times> string" where
  "read_fraction s = (case s of [] \<Rightarrow> ([], [])
     | ch # t \<Rightarrow> if ch = CHR ''.'' then (takeWhile is_digit t, dropWhile is_digit t) else ([], s))"

text \<open>The bounds of the normal numbers, 2^128 and 2^-126.\<close>

definition FLT_LIM :: rat where
  "FLT_LIM = 340282366920938463463374607431768211456"

definition FLT_MIN :: rat where
  "FLT_MIN = 1 / 85070591730234615865843651857942052864"

definition stof :: "string \<Rightarrow> float32 option" where
  "stof s =
     (let (neg, t) = read_sign (dropWhile is_space s);
          ds = takeWhile is_digit t;
          (fs, u) = read_fraction (dropWhile is_digit t) in
      if ds = [] \<and> fs = [] then None
      else
        let v = of_nat (digits_val (ds @ fs)) * 10 powi (read_exponent u - int (length fs));
            x = fl32 (if neg then - v else v)
        in if FLT_LIM \<le> \<bar>x\<bar> \<or> v \<noteq> 0 \<and> v < FLT_MIN \<and> \<bar>x\<bar> \<noteq> v then None else Some x)"

section \<open>Look-up\<close>

definition setConfig :: "game_config \<Rightarrow> game_config \<Rightarrow> game_config" where
  "setConfig new_config c = new_config"

definition getFloat :: "game_config \<Rightarrow> string \<Rightarrow> float32 \<Rightarrow> float32" where
  "getFloat c key defaultValue =
     (case map_of c key of None \<Rightarrow> defaultValue
      | Some v \<Rightarrow> (case stof v of Some x \<Rightarrow> x | None \<Rightarrow> defaultValue))"

definition getInt :: "game_config \<Rightarrow> string \<Rightarrow> int \<Rightarrow> int" where
  "getInt c key defaultValue =
     (case map_of c key of None \<Rightarrow> defaultValue
      | Some v \<Rightarrow> (case stoi v of Some x \<Rightarrow> x | None \<Rightarrow> defaultValue))"

definition getBool :: "game_config \<Rightarrow> string \<Rightarrow> bool \<Rightarrow> bool" where
  "getBool c key defaultValue =
     (case map_of c key of None \<Rightarrow> defaultValue
      | Some v \<Rightarrow> if v \<in> {''true'', ''1'', ''yes''} then True
          else if v \<in> {''false'', ''0'', ''no''} then False else defaultValue)"

definition getString :: "game_config \<Rightarrow> string \<Rightarrow> string \<Rightarrow> string" where
  "getString c key defaultValue = (case map_of c key of None \<Rightarrow> defaultValue | Some v \<Rightarrow> v)"

definition isLoaded :: "game_config \<Rightarrow> bool" where
  "isLoaded c \<longleftrightarrow> c \<noteq> []"

lemma getInt_round_trip: "in_i32 i \<Longrightarrow> map_of c key = Some (to_string i) \<Longrightarrow> getInt c key d = i"
  by (simp add: getInt_def stoi_to_string)

lemma getFloat_is_float: "fl32 d = d \<Longrightarrow> fl32 (getFloat c key d) = getFloat c key d"
  by (auto simp: getFloat_def stof_def Let_def split: option.splits prod.splits if_splits)

lemma stof_examples: "stof ''0.5'' = Some (1 / 2)" "stof ''-12.5x'' = Some (- 25 / 2)" "stof ''abc'' = None"
  using fl32_half[of 1] fl32_half[of "- 25"]
  by (simp_all add: stof_def read_sign_def is_space_def is_digit_def read_fraction_def read_exponent_def
      digits_val_def digit_val_def FLT_LIM_def FLT_MIN_def power_int_minus)

end
