(* ===== verification/Combat_Calculator.thy ===== *)
theory Combat_Calculator
  imports Mob_Data Game_Config Characters "HOL-Library.State_Monad" "HOL-Library.Stream"
begin

text \<open>
  \<^verbatim>\<open>services/CombatCalculator.cpp\<close>: the damage and healing formulas. The random engine is
  the stream of the numbers \<^verbatim>\<open>dis_(gen_)\<close> is going to return; every roll consumes one, in the
  order of the code, and a calculation is a computation in the state monad over that stream. The
  configuration is \<open>None\<close> when no \<^verbatim>\<open>GameConfigService\<close> is attached. The overloads for
  characters and for mobs differ in the attribute struct only.
\<close>

type_synonym rolls = "float32 stream"

definition dis :: "(rolls, float32) state" where
  "dis = State (\<lambda>g. (shd g, stl g))"

definition cfg :: "game_config option \<Rightarrow> string \<Rightarrow> float32 \<Rightarrow> float32" where
  "cfg gc key defaultValue = (case gc of None \<Rightarrow> defaultValue | Some c \<Rightarrow> getFloat c key defaultValue)"

definition clamp :: "'a::linorder \<Rightarrow> 'a \<Rightarrow> 'a \<Rightarrow> 'a" where
  "clamp v lo hi = (if v < lo then lo else if hi < v then hi else v)"

section \<open>Attributes\<close>

fun getAttributeValue :: "CharacterAttributeStruct list \<Rightarrow> string \<Rightarrow> int" where
  "getAttributeValue [] slug = 0"
| "getAttributeValue (a # as) slug = (if at_slug a = slug then at_value a else getAttributeValue as slug)"

fun getMobAttributeValue :: "MobAttributeStruct list \<Rightarrow> string \<Rightarrow> int" where
  "getMobAttributeValue [] slug = 0"
| "getMobAttributeValue (a # as) slug = (if ma_slug a = slug then ma_value a else getMobAttributeValue as slug)"

text \<open>The effects that modify a statistic now.\<close>

definition modifies :: "int \<Rightarrow> ActiveEffectStruct \<Rightarrow> bool" where
  "modifies nowSec eff \<longleftrightarrow> ae_attributeSlug eff \<noteq> [] \<and> \<not> effect_expired nowSec eff
     \<and> ae_effectTypeSlug eff \<noteq> ''dot'' \<and> ae_effectTypeSlug eff \<noteq> ''hot''"

definition effect_points :: "ActiveEffectStruct \<Rightarrow> int" where
  "effect_points eff = cast_i32 (of_int (round_away (ae_value eff)))"

definition merge_effect :: "ActiveEffectStruct \<Rightarrow> CharacterAttributeStruct list \<Rightarrow> CharacterAttributeStruct list" where
  "merge_effect eff attrs =
     (if \<exists>a\<in>set attrs. at_slug a = ae_attributeSlug eff
      then upd_first (\<lambda>a. at_slug a = ae_attributeSlug eff) (\<lambda>a. a\<lparr>at_value := wrap32 (at_value a + effect_points eff)\<rparr>) attrs
      else attrs @ [\<lparr>at_id = 0, at_character_id = 0, at_name = [], at_slug = ae_attributeSlug eff,
                     at_value = effect_points eff\<rparr>])"

definition mergeEffects :: "int \<Rightarrow> CharacterDataStruct \<Rightarrow> CharacterAttributeStruct list" where
  "mergeEffects nowSec ch = fold merge_effect (filter (modifies nowSec) (ch_activeEffects ch)) (ch_attributes ch)"

section \<open>Rolls\<close>

text \<open>\<open>factor = 1 + (r * 2 - 1) * variance\<close>\<close>

definition spread :: "float32 \<Rightarrow> float32 \<Rightarrow> float32" where
  "spread variance r = fl32 (1 + fl32 (fl32 (fl32 (r * 2) - 1) * variance))"

definition raw_amount :: "SkillStruct \<Rightarrow> int \<Rightarrow> int" where
  "raw_amount skill stat = max 1 (cast_i32 (fl32 (sk_flatAdd skill + fl32 (fl32 (of_int stat) * sk_coeff skill))))"

definition scaled :: "int \<Rightarrow> float32 \<Rightarrow> int" where
  "scaled n f = cast_i32 (fl32 (fl32 (of_int n) * f))"

definition calculateHealAmount ::
  "game_config option \<Rightarrow> SkillStruct \<Rightarrow> CharacterAttributeStruct list \<Rightarrow> (rolls, int) state" where
  "calculateHealAmount gc skill attrs = do {
     r \<leftarrow> dis;
     let rawHeal = raw_amount skill (getAttributeValue attrs (sk_scaleStat skill));
     State_Monad.return (max 1 (scaled rawHeal (spread (cfg gc ''combat.heal_variance'' (fl32 (10 / 100))) r)))
   }"

definition calculateBaseDamage ::
  "game_config option \<Rightarrow> SkillStruct \<Rightarrow> (string \<Rightarrow> int) \<Rightarrow> (rolls, int) state" where
  "calculateBaseDamage gc skill attacker = do {
     r \<leftarrow> dis;
     let rawDamage = raw_amount skill (attacker (sk_scaleStat skill));
     State_Monad.return (max 1 (scaled rawDamage (spread (cfg gc ''combat.damage_variance'' (fl32 (12 / 100))) r)))
   }"

definition chance :: "int \<Rightarrow> float32 \<Rightarrow> float32" where
  "chance percent cap = fl32 (min (fl32 (of_int percent)) cap / 100)"

definition rollCriticalHit :: "game_config option \<Rightarrow> (string \<Rightarrow> int) \<Rightarrow> (rolls, bool) state" where
  "rollCriticalHit gc attacker = do {
     r \<leftarrow> dis;
     State_Monad.return (r < chance (attacker ''crit_chance'') (cfg gc ''combat.crit_chance_cap'' 75))
   }"

definition rollBlock :: "game_config option \<Rightarrow> (string \<Rightarrow> int) \<Rightarrow> (rolls, bool) state" where
  "rollBlock gc target = do {
     r \<leftarrow> dis;
     State_Monad.return (r < chance (target ''block_chance'') (cfg gc ''combat.block_chance_cap'' 75))
   }"

definition hit_chance :: "game_config option \<Rightarrow> (string \<Rightarrow> int) \<Rightarrow> (string \<Rightarrow> int) \<Rightarrow> float32 \<Rightarrow> float32" where
  "hit_chance gc attacker target hitModifier =
     clamp (fl32 (fl32 (cfg gc ''combat.base_hit_chance'' (fl32 (95 / 100))
              + fl32 (fl32 (of_int (wrap32 (attacker ''accuracy'' - target ''evasion''))) * fl32 (1 / 100)))
            + hitModifier))
       (cfg gc ''combat.hit_chance_min'' (fl32 (5 / 100))) (cfg gc ''combat.hit_chance_max'' (fl32 (95 / 100)))"

definition rollMiss ::
  "game_config option \<Rightarrow> (string \<Rightarrow> int) \<Rightarrow> (string \<Rightarrow> int) \<Rightarrow> float32 \<Rightarrow> (rolls, bool) state" where
  "rollMiss gc attacker target hitModifier = do {
     r \<leftarrow> dis;
     State_Monad.return (hit_chance gc attacker target hitModifier < r)
   }"

section \<open>Defence\<close>

text \<open>
  A zero denominator gives an infinity, which the clamp brings to one of its bounds, or NaN, which passes
  the clamp, makes the conversion to \<^verbatim>\<open>int\<close> return the smallest number and so the damage 0.
\<close>

definition damage_reduction :: "float32 \<Rightarrow> float32 \<Rightarrow> int \<Rightarrow> int \<Rightarrow> float32 option" where
  "damage_reduction K cap defenseValue targetLevel =
     (let d = fl32 (of_int defenseValue);
          den = fl32 (d + fl32 (K * fl32 (of_int (max 1 targetLevel)))) in
      if den = 0 then (if d = 0 then None else Some (if 0 < d then cap else 0))
      else Some (clamp (fl32 (d / den)) 0 cap))"

definition applyDefense :: "game_config option \<Rightarrow> int \<Rightarrow> int \<Rightarrow> int \<Rightarrow> int" where
  "applyDefense gc dmg defenseValue targetLevel =
     (case damage_reduction (cfg gc ''combat.defense_formula_k'' (fl32 (75 / 10)))
             (cfg gc ''combat.defense_cap'' (fl32 (85 / 100))) defenseValue targetLevel of
        None \<Rightarrow> 0
      | Some reduction \<Rightarrow> max 0 (scaled dmg (fl32 (1 - reduction))))"

definition applyResistance :: "game_config option \<Rightarrow> int \<Rightarrow> int \<Rightarrow> int" where
  "applyResistance gc dmg resistRaw =
     (let resistPct = fl32 (min (fl32 (of_int resistRaw)) (cfg gc ''combat.max_resistance_cap'' 75) / 100)
      in max 0 (scaled dmg (fl32 (1 - resistPct))))"

section \<open>A hit\<close>

definition level_diff :: "game_config option \<Rightarrow> int \<Rightarrow> int \<Rightarrow> int" where
  "level_diff gc attackerLevel targetLevel =
     (let cap = cast_i32 (cfg gc ''combat.level_diff_cap'' 10)
      in clamp (wrap32 (attackerLevel - targetLevel)) (wrap32 (- cap)) cap)"

definition crit_damage :: "game_config option \<Rightarrow> (string \<Rightarrow> int) \<Rightarrow> int \<Rightarrow> int" where
  "crit_damage gc attacker base =
     (let pct = fl32 (of_int (attacker ''crit_multiplier''));
          pct' = (if pct \<le> 0 then cfg gc ''combat.default_crit_multiplier'' 200 else pct)
      in scaled base (fl32 (pct' / 100)))"

text \<open>What follows the three rolls: block, level difference, defence and resistance.\<close>

definition settle_hit ::
  "game_config option \<Rightarrow> SkillStruct \<Rightarrow> (string \<Rightarrow> int) \<Rightarrow> int \<Rightarrow> float32 \<Rightarrow> bool \<Rightarrow>
   DamageCalculationStruct \<Rightarrow> DamageCalculationStruct" where
  "settle_hit gc skill target targetLevel dmgMod blocked result =
     (let s1 = (if blocked then max 0 (wrap32 (dc_scaledDamage result - target ''block_value''))
                else dc_scaledDamage result);
          s2 = max 0 (scaled s1 dmgMod);
          defenseValue = target (if dc_damageType result = ''physical'' then ''physical_defense'' else ''magical_defense'');
          t1 = applyDefense gc s2 defenseValue targetLevel
      in result\<lparr>dc_isBlocked := blocked, dc_scaledDamage := s2,
           dc_totalDamage := applyResistance gc t1 (target (sk_school skill @ ''_resistance''))\<rparr>)"

definition hit ::
  "game_config option \<Rightarrow> SkillStruct \<Rightarrow> (string \<Rightarrow> int) \<Rightarrow> (string \<Rightarrow> int) \<Rightarrow> int \<Rightarrow> int \<Rightarrow>
   (rolls, DamageCalculationStruct) state" where
  "hit gc skill attacker target attackerLevel targetLevel =
     (let levelDiff = fl32 (of_int (level_diff gc attackerLevel targetLevel));
          hitMod = fl32 (levelDiff * cfg gc ''combat.level_diff_hit_per_level'' (fl32 (2 / 100)));
          dmgMod = fl32 (1 + fl32 (levelDiff * cfg gc ''combat.level_diff_damage_per_level'' (fl32 (4 / 100))));
          result = default_damage\<lparr>dc_damageType := (if sk_school skill = ''physical'' then ''physical'' else ''magical'')\<rparr>
      in do {
        missed \<leftarrow> rollMiss gc attacker target hitMod;
        if missed then State_Monad.return (result\<lparr>dc_isMissed := True\<rparr>)
        else do {
          base \<leftarrow> calculateBaseDamage gc skill attacker;
          crit \<leftarrow> rollCriticalHit gc attacker;
          blocked \<leftarrow> rollBlock gc target;
          State_Monad.return (settle_hit gc skill target targetLevel dmgMod blocked
            (result\<lparr>dc_baseDamage := base, dc_isCritical := crit,
                    dc_scaledDamage := (if crit then crit_damage gc attacker base else base)\<rparr>))
        }
      })"

definition calculateSkillDamage ::
  "game_config option \<Rightarrow> int \<Rightarrow> SkillStruct \<Rightarrow> CharacterDataStruct \<Rightarrow> CharacterDataStruct \<Rightarrow>
   (rolls, DamageCalculationStruct) state" where
  "calculateSkillDamage gc nowSec skill attacker target =
     hit gc skill (getAttributeValue (mergeEffects nowSec attacker)) (getAttributeValue (mergeEffects nowSec target))
       (ch_characterLevel attacker) (ch_characterLevel target)"

definition calculateMobSkillDamage ::
  "game_config option \<Rightarrow> int \<Rightarrow> SkillStruct \<Rightarrow> MobDataStruct \<Rightarrow> CharacterDataStruct \<Rightarrow>
   (rolls, DamageCalculationStruct) state" where
  "calculateMobSkillDamage gc nowSec skill attacker target =
     hit gc skill (getMobAttributeValue (mb_attributes attacker)) (getAttributeValue (mergeEffects nowSec target))
       (mb_level attacker) (ch_characterLevel target)"

section \<open>Attributes under effects\<close>

lemma getAttributeValue_append:
  "getAttributeValue (as @ [a]) s = (if \<exists>b\<in>set as. at_slug b = s then getAttributeValue as s
     else if at_slug a = s then at_value a else 0)"
  by (induction as) auto

lemma getAttributeValue_upd:
  "(\<And>a. at_slug (f a) = at_slug a) \<Longrightarrow>
   getAttributeValue (upd_first (\<lambda>a. at_slug a = k) f as) s
     = (if s = k \<and> (\<exists>a\<in>set as. at_slug a = k) then at_value (f (the (find (\<lambda>a. at_slug a = k) as)))
        else getAttributeValue as s)"
  by (induction as) auto

lemma getAttributeValue_find:
  "getAttributeValue as s = (case find (\<lambda>a. at_slug a = s) as of Some a \<Rightarrow> at_value a | None \<Rightarrow> 0)"
  by (induction as) auto

lemma getAttributeValue_absent: "\<not> (\<exists>a\<in>set as. at_slug a = s) \<Longrightarrow> getAttributeValue as s = 0"
  by (induction as) auto

lemma effect_points_i32 [simp]: "in_i32 (effect_points e)"
  by (simp add: effect_points_def)

lemma merge_effect_value:
  "getAttributeValue (merge_effect e as) s
     = (if s = ae_attributeSlug e then wrap32 (getAttributeValue as s + effect_points e) else getAttributeValue as s)"
proof (cases "\<exists>a\<in>set as. at_slug a = ae_attributeSlug e")
  case True
  then obtain a where a: "find (\<lambda>a. at_slug a = ae_attributeSlug e) as = Some a"
    by (cases "find (\<lambda>a. at_slug a = ae_attributeSlug e) as") (auto simp: find_None_iff)
  with True show ?thesis by (auto simp: merge_effect_def getAttributeValue_upd getAttributeValue_find[of as])
next
  case False
  then show ?thesis
    by (auto simp: merge_effect_def getAttributeValue_append getAttributeValue_absent)
qed

lemma fold_merge_value:
  "getAttributeValue (fold merge_effect es as) s
     = sum_i32 (getAttributeValue as s) (map effect_points (filter (\<lambda>e. ae_attributeSlug e = s) es))"
  by (induction es arbitrary: as) (auto simp: merge_effect_value)

section \<open>Scaling by a factor\<close>

lemma scaled_bounds:
  assumes "0 \<le> n" "n < 2 ^ 24" "0 \<le> f" "f \<le> 1"
  shows "0 \<le> scaled n f \<and> scaled n f \<le> n \<and> scaled n f = trunc_int (fl32 (of_int n * f))"
proof -
  have n: "fl32 (of_int n) = of_int n" using assms by (simp add: fl32_int)
  have "of_int n * f \<le> of_int n * 1" using assms by (intro mult_left_mono) simp_all
  then have "fl32 (of_int n * f) \<le> of_int n" using assms by (intro fl32_le_int) simp_all
  then have le: "trunc_int (fl32 (of_int n * f)) \<le> n" using trunc_int_mono[of _ "of_int n"] by simp
  moreover have ge: "0 \<le> trunc_int (fl32 (of_int n * f))" using assms by (intro trunc_int_nonneg fl32_nonneg) simp
  ultimately have "in_i32 (trunc_int (fl32 (of_int n * f)))" using assms by (simp add: in_i32_def)
  then show ?thesis using le ge by (simp add: scaled_def n cast_i32_in)
qed

lemma scaled_mono:
  assumes "0 \<le> n" "n \<le> n'" "n' < 2 ^ 24" "0 \<le> f" "f \<le> f'" "f' \<le> 1"
  shows "scaled n f \<le> scaled n' f'"
proof -
  have "of_int n * f \<le> of_int n' * f'" using assms by (intro mult_mono) simp_all
  then have "trunc_int (fl32 (of_int n * f)) \<le> trunc_int (fl32 (of_int n' * f'))"
    by (intro trunc_int_mono fl32_mono)
  with scaled_bounds[of n f] scaled_bounds[of n' f'] assms show ?thesis by simp
qed

lemma complement_bounds:
  assumes "0 \<le> x" "x \<le> y" "y \<le> 1"
  shows "0 \<le> fl32 (1 - y) \<and> fl32 (1 - y) \<le> fl32 (1 - x) \<and> fl32 (1 - x) \<le> 1"
  using assms fl32_le_int[of "1 - x" 1] by (auto intro: fl32_mono)

section \<open>Defence and resistance stay within their caps\<close>

lemma clamp_bounds: "lo \<le> hi \<Longrightarrow> lo \<le> clamp v lo hi \<and> clamp v lo hi \<le> hi"
  by (auto simp: clamp_def)

lemma reduction_denominator:
  assumes "1 \<le> K" "0 \<le> d"
  shows "1 \<le> fl32 (fl32 (of_int d) + fl32 (K * fl32 (of_int (max 1 l))))"
proof -
  have l: "1 \<le> fl32 (of_int (max 1 l))" using fl32_ge_int[of 1 "of_int (max 1 l)"] by simp
  have "1 * 1 \<le> K * fl32 (of_int (max 1 l))" using assms l by (intro mult_mono) simp_all
  then have "1 \<le> fl32 (K * fl32 (of_int (max 1 l)))" using fl32_ge_int[of 1 "K * fl32 (of_int (max 1 l))"] by simp
  moreover have "0 \<le> fl32 (of_int d)" using assms by simp
  ultimately show ?thesis using fl32_ge_int[of 1 "fl32 (of_int d) + fl32 (K * fl32 (of_int (max 1 l)))"] by simp
qed

lemma fl32_of_int_0: "fl32 (of_int d) = 0 \<Longrightarrow> d = 0"
  using fl32_ge_int[of 1 "of_int d"] fl32_le_int[of "of_int d" "- 1"] by (cases d "0 :: int" rule: linorder_cases) auto

lemma damage_reduction_bounds:
  assumes "1 \<le> K" "0 \<le> cap"
  shows "\<exists>x. damage_reduction K cap d l = Some x \<and> 0 \<le> x \<and> x \<le> cap"
proof -
  have "fl32 (fl32 (of_int d) + fl32 (K * fl32 (of_int (max 1 l)))) \<noteq> 0" if "fl32 (of_int d) = 0"
    using reduction_denominator[of K d l] assms(1) fl32_of_int_0[OF that] by auto
  then show ?thesis using assms(2) clamp_bounds[of 0 cap] by (auto simp: damage_reduction_def Let_def)
qed

abbreviation DEFENSE_K :: "game_config option \<Rightarrow> float32" where
  "DEFENSE_K gc \<equiv> cfg gc ''combat.defense_formula_k'' (fl32 (75 / 10))"

abbreviation DEFENSE_CAP :: "game_config option \<Rightarrow> float32" where
  "DEFENSE_CAP gc \<equiv> cfg gc ''combat.defense_cap'' (fl32 (85 / 100))"

abbreviation RESISTANCE_CAP :: "game_config option \<Rightarrow> float32" where
  "RESISTANCE_CAP gc \<equiv> cfg gc ''combat.max_resistance_cap'' 75"

lemma applyDefense_bounds:
  assumes "1 \<le> DEFENSE_K gc" "0 \<le> DEFENSE_CAP gc" "DEFENSE_CAP gc \<le> 1" "0 \<le> n" "n < 2 ^ 24"
  shows "scaled n (fl32 (1 - DEFENSE_CAP gc)) \<le> applyDefense gc n d l \<and> applyDefense gc n d l \<le> n \<and> 0 \<le> applyDefense gc n d l"
proof -
  obtain x where x: "damage_reduction (DEFENSE_K gc) (DEFENSE_CAP gc) d l = Some x" "0 \<le> x" "x \<le> DEFENSE_CAP gc"
    using damage_reduction_bounds[OF assms(1,2)] by blast
  note c = complement_bounds[OF x(2,3) assms(3)]
  from scaled_bounds[of n "fl32 (1 - x)"] scaled_mono[of n n "fl32 (1 - DEFENSE_CAP gc)" "fl32 (1 - x)"] c assms(4,5) x(1)
  show ?thesis by (simp add: applyDefense_def)
qed

lemma applyResistance_bounds:
  assumes "0 \<le> RESISTANCE_CAP gc" "RESISTANCE_CAP gc \<le> 100" "0 \<le> r" "0 \<le> n" "n < 2 ^ 24"
  shows "scaled n (fl32 (1 - fl32 (RESISTANCE_CAP gc / 100))) \<le> applyResistance gc n r \<and> applyResistance gc n r \<le> n"
proof -
  define x where "x = fl32 (min (fl32 (of_int r)) (RESISTANCE_CAP gc) / 100)"
  have "0 \<le> x" unfolding x_def using assms by (intro fl32_nonneg) simp
  moreover have "x \<le> fl32 (RESISTANCE_CAP gc / 100)" unfolding x_def by (intro fl32_mono divide_right_mono) simp_all
  moreover have "fl32 (RESISTANCE_CAP gc / 100) \<le> 1" using assms fl32_le_int[of "RESISTANCE_CAP gc / 100" 1] by simp
  ultimately have c: "0 \<le> fl32 (1 - fl32 (RESISTANCE_CAP gc / 100))"
    "fl32 (1 - fl32 (RESISTANCE_CAP gc / 100)) \<le> fl32 (1 - x)" "fl32 (1 - x) \<le> 1"
    using complement_bounds by blast+
  from scaled_bounds[of n "fl32 (1 - x)"] scaled_mono[of n n "fl32 (1 - fl32 (RESISTANCE_CAP gc / 100))" "fl32 (1 - x)"] c assms(4,5)
  show ?thesis by (simp add: applyResistance_def Let_def x_def[symmetric])
qed

section \<open>Properties\<close>

lemma run_dis [simp]: "run_state dis g = (shd g, stl g)"
  by (simp add: dis_def)

text \<open>The result of a hit is a miss, or a block decision on some crit decision on a base damage of at least 1.\<close>

lemma hit_cases:
  assumes "r = fst (run_state (hit gc skill att tgt la lt) g)"
  obtains "r = default_damage\<lparr>dc_isMissed := True, dc_damageType := dc_damageType r\<rparr>"
  | res dmgMod b where "r = settle_hit gc skill tgt lt dmgMod b res" "1 \<le> dc_baseDamage res" "\<not> dc_isMissed res"
  using assms by (auto simp: hit_def rollMiss_def calculateBaseDamage_def rollCriticalHit_def rollBlock_def Let_def
      default_damage_def split: if_splits)

lemma settle_hit_fields:
  "dc_baseDamage (settle_hit gc skill tgt lt f b r) = dc_baseDamage r"
  "dc_isMissed (settle_hit gc skill tgt lt f b r) = dc_isMissed r"
  "0 \<le> dc_scaledDamage (settle_hit gc skill tgt lt f b r)"
  "dc_totalDamage (settle_hit gc skill tgt lt f b r) = applyResistance gc (applyDefense gc
     (dc_scaledDamage (settle_hit gc skill tgt lt f b r))
     (tgt (if dc_damageType r = ''physical'' then ''physical_defense'' else ''magical_defense'')) lt)
     (tgt (sk_school skill @ ''_resistance''))"
  by (simp_all add: settle_hit_def Let_def)


definition blow :: SkillStruct where
  "blow = \<lparr>sk_skillName = ''Blow'', sk_skillSlug = ''blow'', sk_scaleStat = ''strength'', sk_school = ''physical'',
     sk_skillEffectType = ''damage'', sk_skillLevel = 1, sk_coeff = 1, sk_flatAdd = 10, sk_cooldownMs = 1000, sk_gcdMs = 500,
     sk_castMs = 0, sk_costMp = 5, sk_maxRange = 2, sk_areaRadius = 0, sk_swingMs = 300, sk_animationName = [],
     sk_isPassive = False, sk_effects = []\<rparr>"

text \<open>A roll of one half hits with exactly the raw damage of the blow, without a critical hit or a block.\<close>

lemma blow_run:
  "run_state (calculateSkillDamage None 0 blow default_character default_character) (1 / 2 ## 1 / 2 ## 1 / 2 ## 1 / 2 ## g)
     = (\<lparr>dc_baseDamage = 10, dc_scaledDamage = 10, dc_totalDamage = 10, dc_isCritical = False,
         dc_isBlocked = False, dc_isMissed = False, dc_damageType = ''physical''\<rparr>, g)"
proof -
  have k: "cfg None k d = d" for k d by (simp add: cfg_def)
  have n: "fl32 10 = 10" "fl32 75 = 75" "fl32 (15 / 2) = 15 / 2"
    using fl32_int[of 10] fl32_int[of 75] fl32_half[of 15] by simp_all
  have sc: "scaled 10 1 = 10" "scaled 10 (fl32 1) = 10" by (simp_all add: scaled_def n cast_i32_def trunc_int_def in_i32_def)
  have hit: "\<not> clamp (fl32 (95 / 100)) (fl32 (5 / 100)) (fl32 (95 / 100)) < 1 / 2"
    using fl32_mono[of "1 / 2" "95 / 100"] fl32_half[of 1] fl32_mono[of "5 / 100" "95 / 100"] by (simp add: clamp_def)
  have ch: "mergeEffects 0 default_character = []" "ch_characterLevel default_character = 0"
    by (simp_all add: mergeEffects_def default_character_def)
  have miss: "run_state (rollMiss None (getAttributeValue []) (getAttributeValue []) 0) (1 / 2 ## g) = (False, g)" for g
    using hit by (simp add: rollMiss_def hit_chance_def k)
  have base: "run_state (calculateBaseDamage None blow (getAttributeValue [])) (1 / 2 ## g) = (10, g)" for g
    by (simp add: calculateBaseDamage_def raw_amount_def spread_def blow_def n sc cast_i32_def trunc_int_def in_i32_def)
  have crit: "run_state (rollCriticalHit None (getAttributeValue [])) (1 / 2 ## g) = (False, g)" for g
    by (simp add: rollCriticalHit_def chance_def k n)
  have block: "run_state (rollBlock None (getAttributeValue [])) (1 / 2 ## g) = (False, g)" for g
    by (simp add: rollBlock_def chance_def k n)
  have defense: "applyDefense None 10 0 0 = 10" "applyResistance None 10 0 = 10"
    by (simp_all add: applyDefense_def damage_reduction_def applyResistance_def k n sc clamp_def not_less[THEN iffD2])
  have "level_diff None 0 0 = 0" by (simp add: level_diff_def k n clamp_def cast_i32_def trunc_int_def in_i32_def)
  then show ?thesis
    by (simp add: calculateSkillDamage_def ch hit_def k Let_def miss base crit block settle_hit_def sc defense)
      (simp add: default_damage_def blow_def)
qed


text \<open>Effects add up: the value a calculation uses for an attribute is the first row of the character with
  this slug (0 without one) plus the rounded values of exactly those effects on it that have not expired and are not
  ticking, each addition wrapping at 32 bits.\<close>

lemma effects_add_up:
  "getAttributeValue (mergeEffects nowSec ch) slug =
     sum_i32 (getAttributeValue (ch_attributes ch) slug)
       (map effect_points (filter (\<lambda>e. modifies nowSec e \<and> ae_attributeSlug e = slug) (ch_activeEffects ch)))"
  by (simp add: mergeEffects_def fold_merge_value conj_commute)

section \<open>Armour\<close>

lemma default_reduction:
  assumes "0 \<le> d" "d \<le> 1000000" "l \<le> 100000"
  shows "damage_reduction (fl32 (75 / 10)) cap d l
    = Some (clamp (fl32 (of_int d / (of_int d + 15 / 2 * of_int (max 1 l)))) 0 cap)"
proof -
  define L where "L = max 1 l"
  have L: "1 \<le> L" "L \<le> 100000" using assms(3) by (simp_all add: L_def)
  have k: "fl32 (15 / 2) = 15 / 2" using fl32_half[of 15] by simp
  have lf: "fl32 (of_int L) = of_int L" using L by (intro fl32_int) simp
  have df: "fl32 (of_int d) = of_int d" using assms by (intro fl32_int) simp
  have kl: "fl32 (15 * of_int L / 2) = 15 * of_int L / 2" using fl32_half[of "15 * L"] L by simp
  have den: "fl32 (of_int d + of_int (15 * L) / 2) = of_int d + of_int (15 * L) / 2"
    using fl32_half[of "2 * d + 15 * L"] L assms by (simp add: add_divide_distrib)
  have "(of_int d + of_int (15 * L) / 2 :: rat) \<noteq> 0" using L assms by (simp add: add_nonneg_eq_0_iff)
  then show ?thesis using lf df den assms(1) by (simp add: k kl damage_reduction_def Let_def flip: L_def)
qed

lemma quotient_mono: "0 \<le> d \<Longrightarrow> d \<le> d' \<Longrightarrow> 0 < c \<Longrightarrow> (d :: rat) / (d + c) \<le> d' / (d' + c)"
  by (simp add: field_simps mult_right_mono)

text \<open>With the default constants, more armour never means more damage: for any armour from 0 to a million, any
  level and any damage that is exact as a float, the damage that gets through does not grow with the armour.\<close>

lemma armour_never_hurts:
  assumes "0 \<le> d" "d \<le> d'" "d' \<le> 1000000" "l \<le> 100000" "0 \<le> n" "n < 2 ^ 24"
  shows "applyDefense None n d' l \<le> applyDefense None n d l"
proof -
  define q where "q d = fl32 (of_int d / (of_int d + 15 / 2 * of_int (max 1 l)))" for d :: int
  have cap: "0 \<le> fl32 (85 / 100)" "fl32 (85 / 100) \<le> 1" using fl32_le_int[of "85 / 100" 1] by simp_all
  have app: "applyDefense None n x l = max 0 (scaled n (fl32 (1 - clamp (q x) 0 (fl32 (85 / 100)))))" if "0 \<le> x" "x \<le> d'" for x
    using default_reduction[of x l] that assms by (simp add: applyDefense_def cfg_def q_def)
  have "q d \<le> q d'" unfolding q_def using assms by (intro fl32_mono quotient_mono) simp_all
  then have "clamp (q d) 0 (fl32 (85 / 100)) \<le> clamp (q d') 0 (fl32 (85 / 100))" using cap by (auto simp: clamp_def)
  moreover note clamp_bounds[OF cap(1), of "q d"] clamp_bounds[OF cap(1), of "q d'"]
  ultimately have "scaled n (fl32 (1 - clamp (q d') 0 (fl32 (85 / 100)))) \<le> scaled n (fl32 (1 - clamp (q d) 0 (fl32 (85 / 100))))"
    using complement_bounds[of "clamp (q d) 0 (fl32 (85 / 100))" "clamp (q d') 0 (fl32 (85 / 100))"] cap assms(5,6)
    by (intro scaled_mono) auto
  then show ?thesis using app assms by simp
qed

text \<open>Below \<open>- K * level\<close> both sides of the quotient are negative: armour that a debuff has pushed there
  protects as much as the cap allows.\<close>

lemma negative_armour_protects: "applyDefense None 100 (- 8) 1 < 20 \<and> applyDefense None 100 0 1 = 100"
  by code_simp

end
