(* ===== verification/Mob_Templates.thy ===== *)
theory Mob_Templates
  imports Mob_Data Chunk_Prelude
begin

text \<open>
  \<^verbatim>\<open>services/MobManager.cpp\<close>: the mob templates the game server sends. The templates are a
  \<^verbatim>\<open>std::map\<close> by id, kept here as its sorted list of entries; the two bestiary tables are
  looked up only.
\<close>

record mob_manager =
  mm_mobs :: "(int \<times> MobDataStruct) list"
  mm_weaknesses :: "int \<Rightarrow> string list option"
  mm_resistances :: "int \<Rightarrow> string list option"

text \<open>The fields of a row that \<^verbatim>\<open>setListOfMobs\<close> copies.\<close>

definition template_of :: "MobDataStruct \<Rightarrow> MobDataStruct" where
  "template_of row = default_mob\<lparr>mb_id := mb_id row, mb_name := mb_name row, mb_slug := mb_slug row,
     mb_level := mb_level row, mb_raceName := mb_raceName row, mb_currentHealth := mb_currentHealth row,
     mb_currentMana := mb_currentMana row, mb_maxHealth := mb_maxHealth row, mb_maxMana := mb_maxMana row,
     mb_isAggressive := mb_isAggressive row, mb_isDead := mb_isDead row, mb_position := mb_position row,
     mb_attributes := mb_attributes row, mb_aggroRange := mb_aggroRange row, mb_attackRange := mb_attackRange row,
     mb_attackCooldown := mb_attackCooldown row, mb_chaseMultiplier := mb_chaseMultiplier row,
     mb_patrolSpeed := mb_patrolSpeed row, mb_isSocial := mb_isSocial row, mb_chaseDuration := mb_chaseDuration row,
     mb_canEvolve := mb_canEvolve row, mb_isRare := mb_isRare row, mb_rareSpawnChance := mb_rareSpawnChance row,
     mb_rareSpawnCondition := mb_rareSpawnCondition row, mb_biomeSlug := mb_biomeSlug row,
     mb_mobTypeSlug := mb_mobTypeSlug row, mb_hpMin := mb_hpMin row, mb_hpMax := mb_hpMax row\<rparr>"

definition setListOfMobs :: "MobDataStruct list \<Rightarrow> mob_manager \<Rightarrow> mob_manager" where
  "setListOfMobs rows mm =
     mm\<lparr>mm_mobs := fold (\<lambda>row. omap_put (mb_id row) (template_of row)) rows (mm_mobs mm)\<rparr>"

definition setListOfMobsAttributes :: "MobAttributeStruct list \<Rightarrow> mob_manager \<Rightarrow> mob_manager" where
  "setListOfMobsAttributes rows mm =
     mm\<lparr>mm_mobs := fold (\<lambda>row. umap_modify (ma_mob_id row) (\<lambda>m. m\<lparr>mb_attributes := mb_attributes m @ [row]\<rparr>))
       rows (mm_mobs mm)\<rparr>"

definition setListOfMobsSkills :: "(int \<times> SkillStruct list) list \<Rightarrow> mob_manager \<Rightarrow> mob_manager" where
  "setListOfMobsSkills mapping mm =
     mm\<lparr>mm_mobs := fold (\<lambda>(mobId, skills). umap_modify mobId (\<lambda>m. m\<lparr>mb_skills := skills\<rparr>)) mapping (mm_mobs mm)\<rparr>"

definition getMobs :: "mob_manager \<Rightarrow> (int \<times> MobDataStruct) list" where
  "getMobs mm = mm_mobs mm"

definition getMobsAsVector :: "mob_manager \<Rightarrow> MobDataStruct list" where
  "getMobsAsVector mm = map snd (mm_mobs mm)"

definition getMobById :: "mob_manager \<Rightarrow> int \<Rightarrow> MobDataStruct" where
  "getMobById mm mobId = (case map_of (mm_mobs mm) mobId of Some m \<Rightarrow> m | None \<Rightarrow> default_mob)"

definition getMobBySlug :: "mob_manager \<Rightarrow> string \<Rightarrow> MobDataStruct" where
  "getMobBySlug mm slug = (case find (\<lambda>(k, m). mb_slug m = slug) (mm_mobs mm) of Some (k, m) \<Rightarrow> m | None \<Rightarrow> default_mob)"

definition getMobByUid :: "mob_manager \<Rightarrow> int \<Rightarrow> MobDataStruct" where
  "getMobByUid mm uid = (case find (\<lambda>(k, m). mb_uid m = uid) (mm_mobs mm) of Some (k, m) \<Rightarrow> m | None \<Rightarrow> default_mob)"

definition updateTemplateMana :: "int \<Rightarrow> int \<Rightarrow> mob_manager \<Rightarrow> mob_manager" where
  "updateTemplateMana uid newMana mm =
     mm\<lparr>mm_mobs := upd_first (\<lambda>(k, m). mb_uid m = uid) (\<lambda>(k, m). (k, m\<lparr>mb_currentMana := newMana\<rparr>)) (mm_mobs mm)\<rparr>"

definition setWeaknessesResistances ::
  "(int \<Rightarrow> string list option) \<Rightarrow> (int \<Rightarrow> string list option) \<Rightarrow> mob_manager \<Rightarrow> mob_manager" where
  "setWeaknessesResistances w r mm = mm\<lparr>mm_weaknesses := w, mm_resistances := r\<rparr>"

definition getWeaknessesForMob :: "mob_manager \<Rightarrow> int \<Rightarrow> string list" where
  "getWeaknessesForMob mm mobId = (case mm_weaknesses mm mobId of Some l \<Rightarrow> l | None \<Rightarrow> [])"

definition getResistancesForMob :: "mob_manager \<Rightarrow> int \<Rightarrow> string list" where
  "getResistancesForMob mm mobId = (case mm_resistances mm mobId of Some l \<Rightarrow> l | None \<Rightarrow> [])"

section \<open>Facts\<close>

text \<open>Templates are kept in the order of their ids, and every template sits under its own id.\<close>

definition templates_ok :: "mob_manager \<Rightarrow> bool" where
  "templates_ok mm \<longleftrightarrow> omap_sorted (mm_mobs mm) \<and> list_all (\<lambda>(k, m). mb_id m = k) (mm_mobs mm)"

lemma list_all_omap_put:
  "list_all (\<lambda>(k, v). P k v) m \<Longrightarrow> P k v \<Longrightarrow> list_all (\<lambda>(k, v). P k v) (omap_put k v m)"
  by (induction k v m rule: omap_put.induct) auto

lemma omap_sorted_modify [simp]: "omap_sorted (umap_modify k f m) = omap_sorted m"
  by (simp add: omap_sorted_def)

lemma fold_invariant: "P m \<Longrightarrow> (\<And>x m. P m \<Longrightarrow> P (f x m)) \<Longrightarrow> P (fold f xs m)"
  by (induction xs arbitrary: m) simp_all

lemma templates_ok_ops:
  assumes "templates_ok mm"
  shows "templates_ok (setListOfMobs rows mm)" and "templates_ok (setListOfMobsAttributes attrs mm)"
    and "templates_ok (setListOfMobsSkills mapping mm)"
proof -
  let ?P = "\<lambda>m. omap_sorted m \<and> list_all (\<lambda>(k, m). mb_id m = k) m"
  have mm: "?P (mm_mobs mm)" using assms by (simp add: templates_ok_def)
  have modify: "?P (umap_modify k f m)" if "?P m" "\<And>v. mb_id (f v) = mb_id v" for k f m
    using that by (auto intro: list_all_umap_modify)
  have "?P (fold (\<lambda>row. omap_put (mb_id row) (template_of row)) rows (mm_mobs mm))"
    by (rule fold_invariant[where P = ?P, OF mm]) (auto simp: template_of_def intro!: list_all_omap_put)
  then show "templates_ok (setListOfMobs rows mm)" by (simp add: templates_ok_def setListOfMobs_def)
  have "?P (fold (\<lambda>row. umap_modify (ma_mob_id row) (\<lambda>m. m\<lparr>mb_attributes := mb_attributes m @ [row]\<rparr>)) attrs (mm_mobs mm))"
    by (rule fold_invariant[where P = ?P, OF mm], erule modify) simp
  then show "templates_ok (setListOfMobsAttributes attrs mm)" by (simp add: templates_ok_def setListOfMobsAttributes_def)
  have "?P (fold (\<lambda>(mobId, skills). umap_modify mobId (\<lambda>m. m\<lparr>mb_skills := skills\<rparr>)) mapping (mm_mobs mm))"
    by (rule fold_invariant[where P = ?P, OF mm]) (auto split: prod.split intro: list_all_umap_modify)
  then show "templates_ok (setListOfMobsSkills mapping mm)" by (simp add: templates_ok_def setListOfMobsSkills_def)
qed

lemma templates_ok_get: "templates_ok mm \<Longrightarrow> mb_id (getMobById mm k) = k \<or> getMobById mm k = default_mob"
  by (auto simp: getMobById_def templates_ok_def dest: list_all_map_of split: option.split)

text \<open>What the copy loses: experience, rank, size, patrol radius, faction and flight threshold of every
  template are the defaults, whatever the game server has sent.\<close>

lemma template_loses_fields:
  "mb_baseExperience (template_of row) = 0 \<and> mb_rankMult (template_of row) = 1 \<and> mb_radius (template_of row) = 0 \<and>
   mb_patrolRadius (template_of row) = 350 \<and> mb_factionSlug (template_of row) = [] \<and>
   mb_repDeltaPerKill (template_of row) = 0 \<and> mb_fleeHpThreshold (template_of row) = 0 \<and> mb_aiArchetype (template_of row) = ''melee''"
  by (simp add: template_of_def default_mob_def)

end
