(* ===== verification/Mob_Instances.thy ===== *)
theory Mob_Instances
  imports Mob_Templates Game_Config
begin

text \<open>
  \<^verbatim>\<open>services/MobInstanceManager.cpp\<close>: the mobs that live in the world, and the index of their
  uids by zone. Each method runs under the manager's mutex. \<open>now\<close> is the steady clock; the loot
  events pushed to the event queue (when there is one) are returned. The log throttle is not modelled. The last
  section has the part of \<^verbatim>\<open>ChampionManager::evolveSurvivalMob\<close> that rewrites an instance.
\<close>

record mob_instances =
  mi_mobInstances :: "(int \<times> MobDataStruct) list"
  mi_mobsByZone :: "int \<Rightarrow> int list option"
  mi_hasQueue :: bool

record MobHealthUpdateResult =
  mr_success :: bool
  mr_mobDied :: bool
  mr_wasAlreadyDead :: bool
  mr_newHealth :: int
  mr_currentMana :: int

record loot_event =
  le_mobId :: int
  le_mobUID :: int
  le_position :: PositionStruct
  le_zoneId :: int
  le_killerId :: "int option"

section \<open>Registration and look-up\<close>

definition updateZoneIndex :: "int \<Rightarrow> int \<Rightarrow> int \<Rightarrow> (int \<Rightarrow> int list option) \<Rightarrow> (int \<Rightarrow> int list option)" where
  "updateZoneIndex uid oldZoneId newZoneId byZone =
     (let removed =
        (if oldZoneId \<noteq> 0
         then (case byZone oldZoneId of None \<Rightarrow> byZone
               | Some l \<Rightarrow> let l' = filter (\<lambda>u. u \<noteq> uid) l in
                   if l' = [] then byZone(oldZoneId := None) else byZone(oldZoneId \<mapsto> l'))
         else byZone)
      in if newZoneId \<noteq> 0
         then removed(newZoneId \<mapsto> (case removed newZoneId of Some l \<Rightarrow> l | None \<Rightarrow> []) @ [uid])
         else removed)"

definition applyBulkAttributes :: "MobAttributeStruct list \<Rightarrow> mob_instances \<Rightarrow> mob_instances" where
  "applyBulkAttributes attrs mi =
     mi\<lparr>mi_mobInstances := map (\<lambda>(uid, m).
       let mine = filter (\<lambda>a. ma_mob_id a = mb_id m) attrs
       in (uid, if mine = [] then m else m\<lparr>mb_attributes := mine\<rparr>)) (mi_mobInstances mi)\<rparr>"

definition registerMobInstance :: "MobDataStruct \<Rightarrow> mob_instances \<Rightarrow> bool \<times> mob_instances" where
  "registerMobInstance m mi =
     (if map_of (mi_mobInstances mi) (mb_uid m) \<noteq> None then (False, mi)
      else (True, mi\<lparr>mi_mobInstances := umap_put (mb_uid m) m (mi_mobInstances mi),
                     mi_mobsByZone := updateZoneIndex (mb_uid m) 0 (mb_zoneId m) (mi_mobsByZone mi)\<rparr>))"

definition unregisterMobInstance :: "int \<Rightarrow> mob_instances \<Rightarrow> mob_instances" where
  "unregisterMobInstance uid mi =
     (case map_of (mi_mobInstances mi) uid of None \<Rightarrow> mi
      | Some m \<Rightarrow> mi\<lparr>mi_mobsByZone := updateZoneIndex uid (mb_zoneId m) 0 (mi_mobsByZone mi),
                     mi_mobInstances := omap_erase uid (mi_mobInstances mi)\<rparr>)"

definition getMobInstance :: "mob_instances \<Rightarrow> int \<Rightarrow> MobDataStruct" where
  "getMobInstance mi uid = (case map_of (mi_mobInstances mi) uid of Some m \<Rightarrow> m | None \<Rightarrow> default_mob)"

definition zone_uids :: "mob_instances \<Rightarrow> int \<Rightarrow> int list" where
  "zone_uids mi zoneId = (case mi_mobsByZone mi zoneId of Some l \<Rightarrow> l | None \<Rightarrow> [])"

definition getMobInstancesInZone :: "mob_instances \<Rightarrow> int \<Rightarrow> MobDataStruct list" where
  "getMobInstancesInZone mi zoneId =
     concat (map (\<lambda>uid. case map_of (mi_mobInstances mi) uid of Some m \<Rightarrow> [m] | None \<Rightarrow> []) (zone_uids mi zoneId))"

definition getMobPositionsInZone :: "mob_instances \<Rightarrow> int \<Rightarrow> (int \<times> PositionStruct) list" where
  "getMobPositionsInZone mi zoneId =
     concat (map (\<lambda>uid. case map_of (mi_mobInstances mi) uid of Some m \<Rightarrow> [(uid, mb_position m)] | None \<Rightarrow> [])
       (zone_uids mi zoneId))"

definition getAllMobInstances :: "mob_instances \<Rightarrow> (int \<times> MobDataStruct) list" where
  "getAllMobInstances mi = mi_mobInstances mi"

definition getAllLivingInstances :: "mob_instances \<Rightarrow> MobDataStruct list" where
  "getAllLivingInstances mi = filter (\<lambda>m. \<not> mb_isDead m) (map snd (mi_mobInstances mi))"

definition getMobsInRange :: "mob_instances \<Rightarrow> float32 \<Rightarrow> float32 \<Rightarrow> float32 \<Rightarrow> MobDataStruct list" where
  "getMobsInRange mi centerX centerY radius =
     filter (\<lambda>m. \<not> mb_isDead m \<and>
         (let dx = fl32 (positionX (mb_position m) - centerX); dy = fl32 (positionY (mb_position m) - centerY)
          in sqrt32 (fl32 (fl32 (dx * dx) + fl32 (dy * dy))) \<le> radius))
       (map snd (mi_mobInstances mi))"

definition alive :: "MobDataStruct \<Rightarrow> bool" where
  "alive m \<longleftrightarrow> \<not> mb_isDead m \<and> 0 < mb_currentHealth m"

definition getAliveMobCountInZone :: "mob_instances \<Rightarrow> int \<Rightarrow> int" where
  "getAliveMobCountInZone mi zoneId =
     int (length (filter (\<lambda>uid. case map_of (mi_mobInstances mi) uid of Some m \<Rightarrow> alive m | None \<Rightarrow> False)
       (zone_uids mi zoneId)))"

definition isMobAlive :: "mob_instances \<Rightarrow> int \<Rightarrow> bool" where
  "isMobAlive mi uid = (case map_of (mi_mobInstances mi) uid of Some m \<Rightarrow> alive m | None \<Rightarrow> False)"

section \<open>Updates\<close>

definition put_mob :: "int \<Rightarrow> MobDataStruct \<Rightarrow> mob_instances \<Rightarrow> mob_instances" where
  "put_mob uid m mi = mi\<lparr>mi_mobInstances := umap_put uid m (mi_mobInstances mi)\<rparr>"

definition updateMobPosition :: "int \<Rightarrow> PositionStruct \<Rightarrow> mob_instances \<Rightarrow> bool \<times> mob_instances" where
  "updateMobPosition uid pos mi =
     (case map_of (mi_mobInstances mi) uid of None \<Rightarrow> (False, mi)
      | Some m \<Rightarrow> (True, put_mob uid (m\<lparr>mb_position := pos\<rparr>) mi))"

definition loot_of :: "mob_instances \<Rightarrow> MobDataStruct \<Rightarrow> int \<Rightarrow> int option \<Rightarrow> loot_event list" where
  "loot_of mi m uid killer =
     (if mi_hasQueue mi
      then [\<lparr>le_mobId = mb_id m, le_mobUID = uid, le_position = mb_position m, le_zoneId = mb_zoneId m, le_killerId = killer\<rparr>]
      else [])"

definition updateMobHealth ::
  "int \<Rightarrow> int \<Rightarrow> int \<Rightarrow> mob_instances \<Rightarrow> MobHealthUpdateResult \<times> loot_event list \<times> mob_instances" where
  "updateMobHealth now uid health mi =
     (case map_of (mi_mobInstances mi) uid of
        None \<Rightarrow> (\<lparr>mr_success = False, mr_mobDied = False, mr_wasAlreadyDead = False, mr_newHealth = 0, mr_currentMana = 0\<rparr>, [], mi)
      | Some m \<Rightarrow>
        if mb_isDead m
        then (\<lparr>mr_success = False, mr_mobDied = False, mr_wasAlreadyDead = True, mr_newHealth = 0, mr_currentMana = 0\<rparr>, [], mi)
        else
          let m1 = m\<lparr>mb_currentHealth := health\<rparr>; died = (health \<le> 0) in
          (\<lparr>mr_success = True, mr_mobDied = died, mr_wasAlreadyDead = False, mr_newHealth = 0, mr_currentMana = 0\<rparr>,
           if died then loot_of mi m1 uid None else [],
           put_mob uid (if died then m1\<lparr>mb_isDead := True, mb_deathTimestamp := now\<rparr> else m1) mi))"

definition updateMobMana :: "int \<Rightarrow> int \<Rightarrow> mob_instances \<Rightarrow> bool \<times> mob_instances" where
  "updateMobMana uid mana mi =
     (case map_of (mi_mobInstances mi) uid of None \<Rightarrow> (False, mi)
      | Some m \<Rightarrow> (True, put_mob uid (m\<lparr>mb_currentMana := mana\<rparr>) mi))"

definition applyDamageToMob ::
  "int \<Rightarrow> int \<Rightarrow> int \<Rightarrow> int \<Rightarrow> mob_instances \<Rightarrow> MobHealthUpdateResult \<times> loot_event list \<times> mob_instances" where
  "applyDamageToMob now uid damageAmount killerId mi =
     (case map_of (mi_mobInstances mi) uid of
        None \<Rightarrow> (\<lparr>mr_success = False, mr_mobDied = False, mr_wasAlreadyDead = False, mr_newHealth = 0, mr_currentMana = 0\<rparr>, [], mi)
      | Some m \<Rightarrow>
        if mb_isDead m
        then (\<lparr>mr_success = False, mr_mobDied = False, mr_wasAlreadyDead = True, mr_newHealth = 0,
               mr_currentMana = mb_currentMana m\<rparr>, [], mi)
        else
          let newHealth = max 0 (wrap32 (mb_currentHealth m - damageAmount));
              m1 = m\<lparr>mb_currentHealth := newHealth\<rparr>; died = (newHealth \<le> 0) in
          (\<lparr>mr_success = True, mr_mobDied = died, mr_wasAlreadyDead = False, mr_newHealth = newHealth,
            mr_currentMana = mb_currentMana m\<rparr>,
           if died then loot_of mi m1 uid (Some killerId) else [],
           put_mob uid (if died then m1\<lparr>mb_isDead := True, mb_deathTimestamp := now\<rparr> else m1) mi))"

definition applyHealToMob :: "int \<Rightarrow> int \<Rightarrow> mob_instances \<Rightarrow> MobHealthUpdateResult \<times> mob_instances" where
  "applyHealToMob uid healAmount mi =
     (case map_of (mi_mobInstances mi) uid of
        None \<Rightarrow> (\<lparr>mr_success = False, mr_mobDied = False, mr_wasAlreadyDead = False, mr_newHealth = 0, mr_currentMana = 0\<rparr>, mi)
      | Some m \<Rightarrow>
        let newHealth = min (mb_maxHealth m) (wrap32 (mb_currentHealth m + healAmount)) in
        (\<lparr>mr_success = True, mr_mobDied = False, mr_wasAlreadyDead = False, mr_newHealth = newHealth,
          mr_currentMana = mb_currentMana m\<rparr>,
         put_mob uid (m\<lparr>mb_currentHealth := newHealth\<rparr>) mi))"

definition applyManaCostToMob :: "int \<Rightarrow> int \<Rightarrow> mob_instances \<Rightarrow> int \<times> mob_instances" where
  "applyManaCostToMob uid cost mi =
     (case map_of (mi_mobInstances mi) uid of None \<Rightarrow> (0, mi)
      | Some m \<Rightarrow> let newMana = max 0 (wrap32 (mb_currentMana m - cost))
                  in (newMana, put_mob uid (m\<lparr>mb_currentMana := newMana\<rparr>) mi))"

definition trySpendMobMana :: "int \<Rightarrow> int \<Rightarrow> mob_instances \<Rightarrow> bool \<times> mob_instances" where
  "trySpendMobMana uid amount mi =
     (case map_of (mi_mobInstances mi) uid of None \<Rightarrow> (False, mi)
      | Some m \<Rightarrow> if mb_currentMana m < amount then (False, mi)
          else (True, put_mob uid (m\<lparr>mb_currentMana := wrap32 (mb_currentMana m - amount)\<rparr>) mi))"

definition markMobAsDead :: "int \<Rightarrow> int \<Rightarrow> mob_instances \<Rightarrow> bool \<times> mob_instances" where
  "markMobAsDead now uid mi =
     (case map_of (mi_mobInstances mi) uid of None \<Rightarrow> (False, mi)
      | Some m \<Rightarrow> (True, put_mob uid (m\<lparr>mb_isDead := True, mb_currentHealth := 0, mb_deathTimestamp := now\<rparr>) mi))"

definition updateMobInstance :: "MobDataStruct \<Rightarrow> mob_instances \<Rightarrow> bool \<times> mob_instances" where
  "updateMobInstance m mi =
     (if map_of (mi_mobInstances mi) (mb_uid m) = None then (False, mi) else (True, put_mob (mb_uid m) m mi))"

section \<open>Evolution of a long survivor\<close>

text \<open>The prefix of the new name, in UTF-8.\<close>

definition survivor_prefix :: string where
  "survivor_prefix = map char_of [91 :: nat, 208, 146, 209, 139, 208, 182, 208, 184, 208, 178, 209, 136, 208, 184, 208, 185, 93, 32]"

definition evolve_stats :: "float32 \<Rightarrow> MobDataStruct \<Rightarrow> MobDataStruct" where
  "evolve_stats hpBonusPct m =
     (let hpRatio = (if 0 < mb_maxHealth m
            then fl32 (fl32 (of_int (mb_currentHealth m)) / fl32 (of_int (mb_maxHealth m))) else 1);
          newMax = cast_i32 (fl32 (fl32 (of_int (mb_maxHealth m)) * fl32 (1 + hpBonusPct)));
          newCur = cast_i32 (fl32 (fl32 (of_int newMax) * hpRatio))
      in m\<lparr>mb_maxHealth := newMax, mb_currentHealth := newCur, mb_name := survivor_prefix @ mb_name m,
           mb_hasEvolved := True, mb_isChampion := True, mb_lootMultiplier := fl32 (13 / 10)\<rparr>)"

text \<open>The read and the write of \<^verbatim>\<open>evolveSurvivalMob\<close> are two steps with separate locks.\<close>

definition evolve_write :: "game_config \<Rightarrow> MobDataStruct \<Rightarrow> mob_instances \<Rightarrow> mob_instances" where
  "evolve_write cfg snapshot mi =
     (if mb_uid snapshot = 0 \<or> mb_hasEvolved snapshot then mi
      else snd (updateMobInstance (evolve_stats (getFloat cfg ''survival_champion.hp_bonus_pct'' (fl32 (1 / 2))) snapshot) mi))"

definition evolveSurvivalMob :: "game_config \<Rightarrow> int \<Rightarrow> mob_instances \<Rightarrow> mob_instances" where
  "evolveSurvivalMob cfg uid mi = evolve_write cfg (getMobInstance mi uid) mi"

section \<open>Runs\<close>

text \<open>
  Every method as a step, with the loot events it sends. A wholesale replacement is the write of
  an unmodified snapshot: the zone is the stored one and a dead mob stays dead. (What happens without this condition
  is shown at the end.)
\<close>

inductive mob_step :: "mob_instances \<Rightarrow> int list \<Rightarrow> loot_event list \<Rightarrow> mob_instances \<Rightarrow> bool" where
  Bulk: "mob_step mi [] [] (applyBulkAttributes attrs mi)"
| Register: "registerMobInstance m mi = (ok, mi') \<Longrightarrow> mob_step mi (if ok then [mb_uid m] else []) [] mi'"
| Unregister: "mob_step mi [] [] (unregisterMobInstance uid mi)"
| Position: "mob_step mi [] [] (snd (updateMobPosition uid pos mi))"
| Health: "updateMobHealth now uid health mi = (r, out, mi') \<Longrightarrow> mob_step mi [] out mi'"
| Damage: "applyDamageToMob now uid amount killer mi = (r, out, mi') \<Longrightarrow> mob_step mi [] out mi'"
| Heal: "mob_step mi [] [] (snd (applyHealToMob uid amount mi))"
| Mana: "mob_step mi [] [] (snd (updateMobMana uid mana mi))"
| ManaCost: "mob_step mi [] [] (snd (applyManaCostToMob uid cost mi))"
| Spend: "mob_step mi [] [] (snd (trySpendMobMana uid amount mi))"
| MarkDead: "mob_step mi [] [] (snd (markMobAsDead now uid mi))"
| Replace: "map_of (mi_mobInstances mi) (mb_uid m) = Some old \<Longrightarrow> mb_zoneId m = mb_zoneId old \<Longrightarrow> mb_isDead m = mb_isDead old
    \<Longrightarrow> mob_step mi [] [] (snd (updateMobInstance m mi))"

inductive mob_run :: "mob_instances \<Rightarrow> int list \<Rightarrow> loot_event list \<Rightarrow> bool" where
  Start: "mob_run \<lparr>mi_mobInstances = [], mi_mobsByZone = (\<lambda>_. None), mi_hasQueue = q\<rparr> [] []"
| Step: "mob_run mi born loot \<Longrightarrow> mob_step mi b out mi' \<Longrightarrow> mob_run mi' (born @ b) (loot @ out)"

section \<open>The index\<close>

definition in_zone :: "mob_instances \<Rightarrow> int \<Rightarrow> int set" where
  "in_zone mi z = {uid. \<exists>m. map_of (mi_mobInstances mi) uid = Some m \<and> mb_zoneId m = z}"

definition mobs_ok :: "mob_instances \<Rightarrow> bool" where
  "mobs_ok mi \<longleftrightarrow> distinct (map fst (mi_mobInstances mi)) \<and>
     (\<forall>uid m. map_of (mi_mobInstances mi) uid = Some m \<longrightarrow> mb_uid m = uid) \<and>
     mi_mobsByZone mi 0 = None \<and>
     (\<forall>z. z \<noteq> 0 \<longrightarrow> mi_mobsByZone mi z \<noteq> Some [] \<and> distinct (zone_uids mi z) \<and> set (zone_uids mi z) = in_zone mi z)"

text \<open>
  A step either in_place mobs in place, or adds one, or removes one. A rewriting keeps uid and zone
  and never revives a mob, and it sends one loot event for a mob that dies, at most.
\<close>

definition in_place :: "mob_instances \<Rightarrow> loot_event list \<Rightarrow> mob_instances \<Rightarrow> bool" where
  "in_place mi out mi' \<longleftrightarrow> map fst (mi_mobInstances mi') = map fst (mi_mobInstances mi) \<and> mi_mobsByZone mi' = mi_mobsByZone mi \<and>
     (\<forall>uid m'. map_of (mi_mobInstances mi') uid = Some m' \<longrightarrow>
        (\<exists>m. map_of (mi_mobInstances mi) uid = Some m \<and> mb_uid m' = mb_uid m \<and> mb_zoneId m' = mb_zoneId m \<and>
           (mb_isDead m \<longrightarrow> mb_isDead m' \<and> uid \<notin> le_mobUID ` set out) \<and>
           (uid \<in> le_mobUID ` set out \<longrightarrow> mb_isDead m'))) \<and>
     distinct (map le_mobUID out) \<and> le_mobUID ` set out \<subseteq> fst ` set (mi_mobInstances mi)"

lemma keys_umap_put: "map_of m k = Some v0 \<Longrightarrow> map fst (umap_put k v m) = map fst m"
  by (induction k v m rule: umap_put.induct) (auto split: if_splits)

lemma in_place_refl [simp]: "in_place mi [] mi"
  by (simp add: in_place_def)

lemma in_place_put:
  assumes "map_of (mi_mobInstances mi) uid = Some m" "mb_uid m' = mb_uid m" "mb_zoneId m' = mb_zoneId m"
    "mb_isDead m \<longrightarrow> mb_isDead m' \<and> out = []" "out = [] \<or> (\<exists>e. out = [e] \<and> le_mobUID e = uid) \<and> mb_isDead m'"
  shows "in_place mi out (put_mob uid m' mi)"
proof -
  have "uid \<in> fst ` set (mi_mobInstances mi)" using assms(1) by (force dest: map_of_SomeD)
  then show ?thesis using assms by (auto simp: in_place_def put_mob_def keys_umap_put simp del: image_iff intro: rev_image_eqI)
qed

lemma in_place_ok:
  assumes "in_place mi out mi'" "mobs_ok mi" shows "mobs_ok mi'"
proof -
  let ?old = "map_of (mi_mobInstances mi)" and ?new = "map_of (mi_mobInstances mi')"
  have keys: "map fst (mi_mobInstances mi') = map fst (mi_mobInstances mi)" and idx: "mi_mobsByZone mi' = mi_mobsByZone mi"
    and fields: "\<And>u m'. ?new u = Some m' \<Longrightarrow> \<exists>m. ?old u = Some m \<and> mb_uid m' = mb_uid m \<and> mb_zoneId m' = mb_zoneId m"
    using assms(1) unfolding in_place_def by blast+
  have dom: "?new u = None \<longleftrightarrow> ?old u = None" for u
    using keys by (metis list.set_map map_of_eq_None_iff)
  have zone: "in_zone mi' z = in_zone mi z" for z
  proof (rule set_eqI)
    fix u show "u \<in> in_zone mi' z \<longleftrightarrow> u \<in> in_zone mi z"
      using fields[of u] dom[of u] by (cases "?new u") (auto simp: in_zone_def)
  qed
  have uid: "mb_uid m' = u" if "?new u = Some m'" for u m'
    using fields[OF that] assms(2) unfolding mobs_ok_def by force
  show ?thesis
    using assms(2) zone uid unfolding mobs_ok_def keys idx zone_uids_def by simp
qed

lemma in_place_bulk: "in_place mi [] (applyBulkAttributes attrs mi)"
proof -
  define f where "f m = (let mine = filter (\<lambda>a. ma_mob_id a = mb_id m) attrs
    in if mine = [] then m else m\<lparr>mb_attributes := mine\<rparr>)" for m :: MobDataStruct
  have f: "mb_uid (f m) = mb_uid m" "mb_zoneId (f m) = mb_zoneId m" "mb_isDead (f m) = mb_isDead m" for m
    by (simp_all add: f_def Let_def)
  have eq: "applyBulkAttributes attrs mi = mi\<lparr>mi_mobInstances := map (\<lambda>(u, m). (u, f m)) (mi_mobInstances mi)\<rparr>"
    by (simp add: applyBulkAttributes_def f_def Let_def)
  have "map_of (map (\<lambda>(u, m). (u, f m)) xs) u = map_option f (map_of xs u)" for xs :: "(int \<times> MobDataStruct) list" and u
    by (induction xs) auto
  then show ?thesis unfolding eq by (auto simp: in_place_def f case_prod_unfold comp_def)
qed

text \<open>Every method that changes a mob in place.\<close>

lemma in_place_ops:
  "in_place mi [] (snd (updateMobPosition uid pos mi))" "in_place mi [] (snd (applyHealToMob uid amount mi))"
  "in_place mi [] (snd (updateMobMana uid mana mi))" "in_place mi [] (snd (applyManaCostToMob uid cost mi))"
  "in_place mi [] (snd (trySpendMobMana uid amount mi))" "in_place mi [] (snd (markMobAsDead now uid mi))"
  by (simp_all add: updateMobPosition_def applyHealToMob_def updateMobMana_def applyManaCostToMob_def trySpendMobMana_def
      markMobAsDead_def Let_def in_place_put split: option.split)

lemma in_place_health: "updateMobHealth now uid health mi = (r, out, mi') \<Longrightarrow> in_place mi out mi'"
  by (auto simp: updateMobHealth_def Let_def loot_of_def split: option.splits if_splits intro!: in_place_put)

lemma in_place_damage: "applyDamageToMob now uid amount killer mi = (r, out, mi') \<Longrightarrow> in_place mi out mi'"
  by (auto simp: applyDamageToMob_def Let_def loot_of_def split: option.splits if_splits intro!: in_place_put)

lemma register_ok:
  assumes "mobs_ok mi" "registerMobInstance m mi = (ok, mi')" shows "mobs_ok mi'"
proof (cases "map_of (mi_mobInstances mi) (mb_uid m) = None")
  case True
  have mi': "mi' = mi\<lparr>mi_mobInstances := umap_put (mb_uid m) m (mi_mobInstances mi),
      mi_mobsByZone := updateZoneIndex (mb_uid m) 0 (mb_zoneId m) (mi_mobsByZone mi)\<rparr>"
    using assms(2) True by (auto simp: registerMobInstance_def)
  have fresh: "mb_uid m \<notin> in_zone mi z" for z using True by (simp add: in_zone_def)
  have zone: "in_zone mi' z = (if z = mb_zoneId m then insert (mb_uid m) (in_zone mi z) else in_zone mi z)" for z
    using True by (auto simp: mi' in_zone_def)
  have idx: "mi_mobsByZone mi' 0 = None" "zone_uids mi' z = (if z = mb_zoneId m \<and> z \<noteq> 0 then zone_uids mi z @ [mb_uid m] else zone_uids mi z)" for z
    using assms(1) by (auto simp: mi' updateZoneIndex_def zone_uids_def mobs_ok_def Let_def split: option.split)
  have "mi_mobsByZone mi' z \<noteq> Some []" if "z \<noteq> 0" for z
    using assms(1) that by (auto simp: mi' updateZoneIndex_def mobs_ok_def Let_def)
  moreover have "distinct (map fst (mi_mobInstances mi'))" "\<forall>uid m. map_of (mi_mobInstances mi') uid = Some m \<longrightarrow> mb_uid m = uid"
    using assms(1) by (auto simp: mi' mobs_ok_def)
  ultimately show ?thesis using assms(1) fresh by (auto simp: mobs_ok_def idx zone)
qed (use assms in \<open>auto simp: registerMobInstance_def\<close>)

lemma unregister_ok:
  assumes "mobs_ok mi" shows "mobs_ok (unregisterMobInstance uid mi)"
proof (cases "map_of (mi_mobInstances mi) uid")
  case (Some m)
  define mi' where "mi' = unregisterMobInstance uid mi"
  have mi': "mi' = mi\<lparr>mi_mobsByZone := updateZoneIndex uid (mb_zoneId m) 0 (mi_mobsByZone mi), mi_mobInstances := omap_erase uid (mi_mobInstances mi)\<rparr>"
    using Some by (simp add: mi'_def unregisterMobInstance_def)
  have zone: "in_zone mi' z = in_zone mi z - {uid}" for z by (auto simp: mi' in_zone_def)
  have notin: "z \<noteq> mb_zoneId m \<Longrightarrow> uid \<notin> in_zone mi z" for z using Some by (simp add: in_zone_def)
  have idx: "mi_mobsByZone mi' 0 = None" "zone_uids mi' z = (if z = mb_zoneId m \<and> z \<noteq> 0 then filter (\<lambda>u. u \<noteq> uid) (zone_uids mi z) else zone_uids mi z)" for z
    using assms by (auto simp: mi' updateZoneIndex_def zone_uids_def mobs_ok_def Let_def split: option.split)
  have "mi_mobsByZone mi' z \<noteq> Some []" if "z \<noteq> 0" for z
    using assms that by (auto simp: mi' updateZoneIndex_def mobs_ok_def Let_def split: option.splits)
  moreover have "distinct (map fst (mi_mobInstances mi'))" "\<forall>uid m. map_of (mi_mobInstances mi') uid = Some m \<longrightarrow> mb_uid m = uid"
    using assms by (auto simp: mi' mobs_ok_def)
  ultimately have "mobs_ok mi'" using assms notin by (auto simp: mobs_ok_def idx zone)
  then show ?thesis by (simp add: mi'_def)
qed (use assms in \<open>simp add: unregisterMobInstance_def\<close>)

lemma mob_step_cases:
  assumes "mob_step mi b out mi'" "mobs_ok mi"
  shows "(b = [] \<and> in_place mi out mi') \<or> (\<exists>m ok. out = [] \<and> registerMobInstance m mi = (ok, mi') \<and> b = (if ok then [mb_uid m] else [])) \<or>
    (\<exists>uid. b = [] \<and> out = [] \<and> mi' = unregisterMobInstance uid mi)"
  using assms(1)
proof cases
  case (Replace m old)
  then have "mb_uid old = mb_uid m" using assms(2) by (simp add: mobs_ok_def)
  with Replace show ?thesis by (auto simp: updateMobInstance_def intro!: in_place_put)
next
  case (Register m ok) then show ?thesis by blast
next
  case (Unregister uid) then show ?thesis by blast
qed (simp_all add: in_place_ops in_place_bulk in_place_health in_place_damage)

lemma mob_step_ok: "mob_step mi b out mi' \<Longrightarrow> mobs_ok mi \<Longrightarrow> mobs_ok mi'"
  using mob_step_cases[of mi b out mi'] by (auto dest: in_place_ok register_ok simp: unregister_ok)

lemma mob_run_ok: "mob_run mi born loot \<Longrightarrow> mobs_ok mi"
  by (induction rule: mob_run.induct) (simp add: mobs_ok_def zone_uids_def in_zone_def, rule mob_step_ok)

section \<open>Deaths\<close>

definition living :: "mob_instances \<Rightarrow> int \<Rightarrow> nat" where
  "living mi uid = (case map_of (mi_mobInstances mi) uid of Some m \<Rightarrow> if mb_isDead m then 0 else 1 | None \<Rightarrow> 0)"

abbreviation loots :: "loot_event list \<Rightarrow> int \<Rightarrow> nat" where
  "loots out uid \<equiv> count_list (map le_mobUID out) uid"

lemma count_list_distinct: "distinct xs \<Longrightarrow> count_list xs x = (if x \<in> set xs then 1 else 0)"
  by (induction xs) auto

lemma in_place_living:
  assumes "in_place mi out mi'" shows "loots out uid + living mi' uid \<le> living mi uid"
proof -
  have c: "loots out uid = (if uid \<in> le_mobUID ` set out then 1 else 0)"
    using assms by (simp add: in_place_def count_list_distinct)
  show ?thesis
  proof (cases "map_of (mi_mobInstances mi') uid")
    case None
    then have "uid \<notin> fst ` set (mi_mobInstances mi')" by (simp add: map_of_eq_None_iff)
    then have "uid \<notin> le_mobUID ` set out" using assms unfolding in_place_def by (metis list.set_map subsetD)
    with None c show ?thesis by (simp add: living_def)
  next
    case (Some m')
    with assms obtain m where m: "map_of (mi_mobInstances mi) uid = Some m"
      "mb_isDead m \<longrightarrow> mb_isDead m' \<and> uid \<notin> le_mobUID ` set out" "uid \<in> le_mobUID ` set out \<longrightarrow> mb_isDead m'"
      unfolding in_place_def by blast
    then show ?thesis using Some c by (auto simp: living_def)
  qed
qed

lemma mob_step_living:
  assumes "mob_step mi b out mi'" "mobs_ok mi"
  shows "loots out uid + living mi' uid \<le> living mi uid + count_list b uid"
  using mob_step_cases[OF assms]
proof (elim disjE exE conjE)
  assume "b = []" "in_place mi out mi'"
  then show ?thesis using in_place_living[of mi out mi' uid] by simp
next
  fix m ok assume r: "out = []" "registerMobInstance m mi = (ok, mi')" "b = (if ok then [mb_uid m] else [])"
  then show ?thesis by (auto simp: registerMobInstance_def living_def split: if_splits)
next
  fix u assume "b = []" "out = []" "mi' = unregisterMobInstance u mi"
  then show ?thesis by (auto simp: unregisterMobInstance_def living_def split: option.splits)
qed

lemma count_list_snoc: "count_list (xs @ ys) x = count_list xs x + count_list ys x"
  by (induction xs) auto

lemma mob_run_living: "mob_run mi born loot \<Longrightarrow> loots loot uid + living mi uid \<le> count_list born uid"
proof (induction rule: mob_run.induct)
  case (Step mi born loot b out mi')
  from mob_step_living[OF Step.hyps(2) mob_run_ok[OF Step.hyps(1)], of uid] Step.IH
  show ?case by (simp add: count_list_snoc)
qed (simp add: living_def)

section \<open>Properties\<close>


text \<open>The zone index is exact: in every reachable state a zone lists exactly the registered mobs that
  belong to it, each once, so that the mobs of a zone, and the count of those alive, are read off the index
  without a scan.\<close>

lemma zone_index_exact:
  assumes "mob_run mi born loot" "z \<noteq> 0"
  shows "set (getMobInstancesInZone mi z) = {m. (mb_uid m, m) \<in> set (mi_mobInstances mi) \<and> mb_zoneId m = z} \<and>
    distinct (map mb_uid (getMobInstancesInZone mi z)) \<and>
    getAliveMobCountInZone mi z = int (length (filter alive (getMobInstancesInZone mi z)))"
proof -
  have ok: "mobs_ok mi" by (rule mob_run_ok[OF assms(1)])
  define get where "get u = map_of (mi_mobInstances mi) u" for u
  have l: "set (zone_uids mi z) = in_zone mi z" "distinct (zone_uids mi z)" using ok assms(2) by (simp_all add: mobs_ok_def)
  have uid: "get u = Some m \<Longrightarrow> mb_uid m = u" for u m using ok by (simp add: mobs_ok_def get_def)
  have found: "\<exists>m. get u = Some m \<and> mb_zoneId m = z" if "u \<in> set (zone_uids mi z)" for u
    using that l(1) by (auto simp: in_zone_def get_def)
  define L where "L = zone_uids mi z"
  have inst: "getMobInstancesInZone mi z = map (\<lambda>u. the (get u)) L"
  proof -
    have "concat (map (\<lambda>u. case get u of Some m \<Rightarrow> [m] | None \<Rightarrow> []) l) = map (\<lambda>u. the (get u)) l"
      if "\<forall>u\<in>set l. get u \<noteq> None" for l
      using that by (induction l) (auto split: option.split)
    then show ?thesis using found unfolding getMobInstancesInZone_def get_def[symmetric] L_def by blast
  qed
  have uids: "map mb_uid (map (\<lambda>u. the (get u)) L) = L"
    unfolding map_map by (rule map_idI) (use found uid in \<open>fastforce simp: L_def\<close>)
  have members: "set (map (\<lambda>u. the (get u)) L) = {m. (mb_uid m, m) \<in> set (mi_mobInstances mi) \<and> mb_zoneId m = z}" (is "?A = ?B")
  proof (rule set_eqI)
    fix m
    have dist: "distinct (map fst (mi_mobInstances mi))" using ok by (simp add: mobs_ok_def)
    have "m \<in> ?A \<longleftrightarrow> (\<exists>u. get u = Some m \<and> mb_zoneId m = z)"
      using found l(1) by (fastforce simp: L_def in_zone_def get_def image_iff)
    also have "\<dots> \<longleftrightarrow> get (mb_uid m) = Some m \<and> mb_zoneId m = z" using uid by blast
    also have "\<dots> \<longleftrightarrow> m \<in> ?B" using dist by (simp add: get_def)
    finally show "m \<in> ?A \<longleftrightarrow> m \<in> ?B" .
  qed
  have "filter (\<lambda>u. case get u of Some m \<Rightarrow> alive m | None \<Rightarrow> False) L = filter (\<lambda>u. alive (the (get u))) L"
    by (rule filter_cong[OF refl]) (use found in \<open>fastforce simp: L_def split: option.split\<close>)
  then have count: "getAliveMobCountInZone mi z = int (length (filter alive (map (\<lambda>u. the (get u)) L)))"
    by (simp add: getAliveMobCountInZone_def filter_map comp_def flip: L_def get_def)
  show ?thesis unfolding inst using uids members count l(2) by (simp add: L_def)
qed

text \<open>A wolf is born, wounded, killed by a second blow, and struck once more.\<close>

definition wolf :: MobDataStruct where
  "wolf = default_mob\<lparr>mb_id := 3, mb_uid := 1000000, mb_zoneId := 5, mb_currentHealth := 30, mb_maxHealth := 40\<rparr>"

definition no_mobs :: mob_instances where
  "no_mobs = \<lparr>mi_mobInstances = [], mi_mobsByZone = (\<lambda>_. None), mi_hasQueue = True\<rparr>"

definition strike :: "int \<Rightarrow> mob_instances \<Rightarrow> loot_event list \<times> mob_instances" where
  "strike amount mi = snd (applyDamageToMob 0 1000000 amount 7 mi)"

definition wolf_hunt :: "loot_event list \<times> mob_instances" where
  "wolf_hunt = (let mi = snd (registerMobInstance wolf no_mobs); (o1, mi1) = strike 10 mi; (o2, mi2) = strike 25 mi1;
     (o3, mi3) = strike 5 mi2 in (o1 @ o2 @ o3, mi3))"

lemma strike_step: "mob_run mi born loot \<Longrightarrow> strike n mi = (out, mi') \<Longrightarrow> mob_run mi' born (loot @ out)"
  using mob_run.Step[of mi born loot "[]" out mi'] mob_step.Damage[of 0 1000000 n 7 mi _ out mi']
  by (cases "applyDamageToMob 0 1000000 n 7 mi") (auto simp: strike_def)

lemma wolf_hunt_run: "mob_run (snd wolf_hunt) [1000000] (fst wolf_hunt)"
proof -
  define mi where "mi = snd (registerMobInstance wolf no_mobs)"
  have "mob_step no_mobs [1000000] [] mi"
    using mob_step.Register[of wolf no_mobs True mi] by (simp add: mi_def registerMobInstance_def no_mobs_def wolf_def)
  with mob_run.Step[OF mob_run.Start] have r0: "mob_run mi [1000000] []" by (force simp: no_mobs_def)
  obtain o1 mi1 o2 mi2 o3 mi3 where s: "strike 10 mi = (o1, mi1)" "strike 25 mi1 = (o2, mi2)" "strike 5 mi2 = (o3, mi3)"
    by (metis surj_pair)
  from strike_step[OF strike_step[OF strike_step[OF r0 s(1)] s(2)] s(3)] s show ?thesis
    by (simp add: wolf_hunt_def Let_def flip: mi_def)
qed


section \<open>What the conditions rule out\<close>

text \<open>
  \<^verbatim>\<open>evolveSurvivalMob\<close> reads an instance, releases the lock and writes the instance back: a mob that
  is killed in between is alive again, at the old health ratio, and drops loot a second time when it is killed again.
\<close>

lemma evolution_revives:
  "let mi = snd (registerMobInstance wolf no_mobs); snapshot = getMobInstance mi 1000000; (o1, mi1) = strike 30 mi;
       mi2 = evolve_write [] snapshot mi1; (o2, mi3) = strike 100 mi2
   in \<not> isMobAlive mi1 1000000 \<and> isMobAlive mi2 1000000 \<and> map le_mobUID (o1 @ o2) = [1000000, 1000000]"
  by code_simp

text \<open>Healing does not look at the death flag: a corpse gets health, and the target check of the skill system, which
  looks at the health only, accepts it.\<close>

lemma heal_on_corpse:
  "let mi = snd (strike 30 (snd (registerMobInstance wolf no_mobs))); mi' = snd (applyHealToMob 1000000 10 mi)
   in mb_isDead (getMobInstance mi' 1000000) \<and> mb_currentHealth (getMobInstance mi' 1000000) = 10"
  by code_simp

end
