(* ===== verification/Skill_System.thy ===== *)
theory Skill_System
  imports Combat_Calculator Mob_Instances
begin

text \<open>
  \<^verbatim>\<open>services/SkillSystem.cpp\<close>: who may use which skill when, what it costs and what it does. The
  cooldowns are a map per entity from skill slugs (and the key of the global cooldown) to the end of the cooldown on
  the steady clock. \<open>lastSent\<close> is the position \<^verbatim>\<open>MobMovementManager\<close> last sent for a mob
  (that manager is not modelled). The class creates its calculator without a configuration, so the formulas
  use their defaults.
\<close>

datatype CombatTargetType = SELF | PLAYER | MOB | AREA | NONE

datatype caster_type = Unknown_caster | Player_caster | Mob_caster

record SkillUsageResult =
  su_success :: bool
  su_errorMessage :: string
  su_damageResult :: DamageCalculationStruct
  su_healAmount :: int

type_synonym cooldowns = "int \<Rightarrow> (string \<Rightarrow> int option) option"

record skill_world =
  sw_chars :: character_manager
  sw_mobs :: mob_instances
  sw_templates :: mob_manager
  sw_cooldowns :: cooldowns
  sw_rolls :: rolls

record skill_env =
  se_now :: int
  se_nowSec :: int
  se_lastSent :: "int \<Rightarrow> PositionStruct"

section \<open>Cooldowns\<close>

definition GCD_KEY :: string where
  "GCD_KEY = ''__gcd__''"

definition per_entity :: "cooldowns \<Rightarrow> int \<Rightarrow> string \<Rightarrow> int option" where
  "per_entity cds c = (case cds c of Some m \<Rightarrow> m | None \<Rightarrow> Map.empty)"

definition setCooldown :: "int \<Rightarrow> int \<Rightarrow> string \<Rightarrow> int \<Rightarrow> cooldowns \<Rightarrow> cooldowns" where
  "setCooldown now c slug cooldownMs cds = cds(c \<mapsto> (per_entity cds c)(slug \<mapsto> now + ms_to_ns cooldownMs))"

text \<open>\<^verbatim>\<open>perEntity[slug]\<close>: a missing entry is created as the epoch of the clock.\<close>

definition touch_entry :: "string \<Rightarrow> (string \<Rightarrow> int option) \<Rightarrow> int \<times> (string \<Rightarrow> int option)" where
  "touch_entry slug m = (case m slug of Some t \<Rightarrow> (t, m) | None \<Rightarrow> (0, m(slug \<mapsto> 0)))"

definition trySetCooldown ::
  "int \<Rightarrow> int \<Rightarrow> string \<Rightarrow> int \<Rightarrow> int \<Rightarrow> cooldowns \<Rightarrow> bool \<times> bool \<times> cooldowns" where
  "trySetCooldown now c slug cooldownMs gcdMs cds =
     (let (skillEnd, m1) = touch_entry slug (per_entity cds c) in
      if now < skillEnd then (False, False, cds(c \<mapsto> m1))
      else if 0 < gcdMs then
        (let (gcdEnd, m2) = touch_entry GCD_KEY m1 in
         if now < gcdEnd then (False, True, cds(c \<mapsto> m2))
         else (True, False, cds(c \<mapsto> m2(GCD_KEY \<mapsto> now + ms_to_ns gcdMs, slug \<mapsto> now + ms_to_ns cooldownMs))))
      else (True, False, cds(c \<mapsto> m1(slug \<mapsto> now + ms_to_ns cooldownMs))))"

definition isOnCooldown :: "int \<Rightarrow> cooldowns \<Rightarrow> int \<Rightarrow> string \<Rightarrow> bool" where
  "isOnCooldown now cds c slug = (case per_entity cds c slug of Some t \<Rightarrow> now < t | None \<Rightarrow> False)"

definition isGCDActive :: "int \<Rightarrow> cooldowns \<Rightarrow> int \<Rightarrow> bool" where
  "isGCDActive now cds c = (case per_entity cds c GCD_KEY of Some t \<Rightarrow> now < t | None \<Rightarrow> False)"

definition restoreCooldown :: "int \<Rightarrow> int \<Rightarrow> string \<Rightarrow> int \<Rightarrow> cooldowns \<Rightarrow> cooldowns" where
  "restoreCooldown now c slug remainingMs cds =
     (if remainingMs \<le> 0 then cds else cds(c \<mapsto> (per_entity cds c)(slug \<mapsto> now + ms_to_ns remainingMs)))"

definition updateCooldowns :: "int \<Rightarrow> cooldowns \<Rightarrow> cooldowns" where
  "updateCooldowns now cds =
     (\<lambda>c. map_option (\<lambda>m s. case m s of Some t \<Rightarrow> if t \<le> now then None else Some t | None \<Rightarrow> None) (cds c))"

definition isSkillAvailable :: "int \<Rightarrow> cooldowns \<Rightarrow> int \<Rightarrow> string \<Rightarrow> bool" where
  "isSkillAvailable now cds c slug \<longleftrightarrow> \<not> isOnCooldown now cds c slug"

section \<open>Look-up\<close>

definition determineCasterType :: "skill_world \<Rightarrow> int \<Rightarrow> caster_type" where
  "determineCasterType w c =
     (if ch_characterId (getCharacterData (sw_chars w) c) \<noteq> 0 then Player_caster
      else if mb_uid (getMobInstance (sw_mobs w) c) \<noteq> 0 then Mob_caster else Unknown_caster)"

definition getCharacterSkill :: "skill_world \<Rightarrow> int \<Rightarrow> string \<Rightarrow> SkillStruct option" where
  "getCharacterSkill w c slug = find (\<lambda>s. sk_skillSlug s = slug) (ch_skills (getCharacterData (sw_chars w) c))"

definition getMobSkill :: "skill_world \<Rightarrow> int \<Rightarrow> string \<Rightarrow> SkillStruct option" where
  "getMobSkill w mobId slug =
     (let m = getMobInstance (sw_mobs w) mobId;
          skills = (if mb_skills m = [] then mb_skills (getMobById (sw_templates w) (mb_id m)) else mb_skills m)
      in find (\<lambda>s. sk_skillSlug s = slug) skills)"

section \<open>Checks\<close>

definition isInRange :: "skill_env \<Rightarrow> skill_world \<Rightarrow> SkillStruct \<Rightarrow> int \<Rightarrow> int \<Rightarrow> CombatTargetType \<Rightarrow> caster_type \<Rightarrow> bool" where
  "isInRange env w skill c target tt ct =
     (if ct = Unknown_caster then False
      else if tt = AREA \<or> tt = NONE then True
      else
        let p = (if ct = Player_caster then ch_characterPosition (getCharacterData (sw_chars w) c)
                 else mb_position (getMobInstance (sw_mobs w) c));
            sent = se_lastSent env target;
            q = (if tt = PLAYER \<or> tt = SELF then ch_characterPosition (getCharacterData (sw_chars w) target)
                 else if positionX sent \<noteq> 0 \<or> positionY sent \<noteq> 0 then sent
                 else mb_position (getMobInstance (sw_mobs w) target))
        in calculateDistance p q \<le> fl32 (sk_maxRange skill * 100))"

definition validateTarget :: "skill_world \<Rightarrow> int \<Rightarrow> int \<Rightarrow> CombatTargetType \<Rightarrow> bool" where
  "validateTarget w c target tt =
     (case tt of SELF \<Rightarrow> c = target | AREA \<Rightarrow> True | NONE \<Rightarrow> True
      | PLAYER \<Rightarrow> let ch = getCharacterData (sw_chars w) target in ch_characterId ch \<noteq> 0 \<and> \<not> ch_isDead ch
      | MOB \<Rightarrow> let m = getMobInstance (sw_mobs w) target in mb_uid m \<noteq> 0 \<and> 0 < mb_currentHealth m)"

definition tryConsumeResources :: "skill_world \<Rightarrow> int \<Rightarrow> SkillStruct \<Rightarrow> caster_type \<Rightarrow> bool \<times> skill_world" where
  "tryConsumeResources w c skill ct =
     (if sk_costMp skill \<le> 0 then (True, w)
      else case ct of
        Player_caster \<Rightarrow> let (ok, m) = trySpendMana c (sk_costMp skill) (sw_chars w) in (ok, w\<lparr>sw_chars := m\<rparr>)
      | Mob_caster \<Rightarrow> let (ok, m) = trySpendMobMana c (sk_costMp skill) (sw_mobs w) in (ok, w\<lparr>sw_mobs := m\<rparr>)
      | Unknown_caster \<Rightarrow> (False, w))"

section \<open>Using a skill\<close>

text \<open>The temporary character that stands for a mob as a target.\<close>

definition tempTarget :: "MobDataStruct \<Rightarrow> CharacterDataStruct" where
  "tempTarget m = default_character\<lparr>ch_characterId := mb_uid m, ch_characterMaxHealth := mb_maxHealth m,
     ch_characterCurrentHealth := mb_currentHealth m, ch_characterPosition := mb_position m, ch_characterLevel := mb_level m,
     ch_attributes := map (\<lambda>a. \<lparr>at_id = 0, at_character_id = 0, at_name = ma_name a, at_slug = ma_slug a,
                                 at_value = ma_value a\<rparr>) (mb_attributes m)\<rparr>"

definition no_usage :: SkillUsageResult where
  "no_usage = \<lparr>su_success = False, su_errorMessage = [], su_damageResult = default_damage, su_healAmount = 0\<rparr>"

abbreviation refused :: "string \<Rightarrow> SkillUsageResult" where
  "refused msg \<equiv> no_usage\<lparr>su_errorMessage := msg\<rparr>"

text \<open>The calculations at the end of \<^verbatim>\<open>useSkill\<close>.\<close>

definition compute_usage ::
  "skill_env \<Rightarrow> skill_world \<Rightarrow> SkillStruct \<Rightarrow> int \<Rightarrow> int \<Rightarrow> CombatTargetType \<Rightarrow> caster_type \<Rightarrow> SkillUsageResult \<times> skill_world" where
  "compute_usage env w skill c target tt ct =
     (let caster = getCharacterData (sw_chars w) c; done = no_usage\<lparr>su_success := True\<rparr> in
      if ct = Player_caster then
        (if tt = PLAYER \<or> tt = SELF then
           let (d, g1) = run_state (calculateSkillDamage None (se_nowSec env) skill caster (getCharacterData (sw_chars w) target)) (sw_rolls w);
               (h, g2) = run_state (calculateHealAmount None skill (ch_attributes caster)) g1
           in (done\<lparr>su_damageResult := d, su_healAmount := h\<rparr>, w\<lparr>sw_rolls := g2\<rparr>)
         else if tt = MOB then
           let m = getMobInstance (sw_mobs w) target in
           if mb_uid m = 0 then (refused ''Target mob not found'', w)
           else let (d, g1) = run_state (calculateSkillDamage None (se_nowSec env) skill caster (tempTarget m)) (sw_rolls w)
                in (done\<lparr>su_damageResult := d\<rparr>, w\<lparr>sw_rolls := g1\<rparr>)
         else (done, w))
      else
        let (d, g1) = run_state (calculateMobSkillDamage None (se_nowSec env) skill (getMobInstance (sw_mobs w) c)
                                   (getCharacterData (sw_chars w) target)) (sw_rolls w)
        in (done\<lparr>su_damageResult := d\<rparr>, w\<lparr>sw_rolls := g1\<rparr>))"

text \<open>Claiming the cooldown; a player who has paid and cannot claim it gets his mana back.\<close>

definition claim_cooldown ::
  "skill_env \<Rightarrow> SkillStruct \<Rightarrow> int \<Rightarrow> string \<Rightarrow> caster_type \<Rightarrow> skill_world \<Rightarrow> string option \<times> skill_world" where
  "claim_cooldown env skill c slug ct w =
     (let (ok, onGCD, cds) = trySetCooldown (se_now env) c slug (sk_cooldownMs skill)
            (if ct = Player_caster then sk_gcdMs skill else 0) (sw_cooldowns w);
          w1 = w\<lparr>sw_cooldowns := cds\<rparr> in
      if ok then (None, w1)
      else (Some (if onGCD then ''Global cooldown active'' else ''Skill is on cooldown or not available''),
            if 0 < sk_costMp skill \<and> ct = Player_caster
            then w1\<lparr>sw_chars := snd (restoreManaToCharacter (se_nowSec env) c (sk_costMp skill) (sw_chars w1))\<rparr> else w1))"

definition useSkill ::
  "skill_env \<Rightarrow> int \<Rightarrow> string \<Rightarrow> int \<Rightarrow> CombatTargetType \<Rightarrow> bool \<Rightarrow> skill_world \<Rightarrow> SkillUsageResult \<times> skill_world" where
  "useSkill env c slug target tt cooldownAlreadySet w =
     (let ct = determineCasterType w c in
      if ct = Unknown_caster then (refused ''Unknown caster type'', w)
      else case (if ct = Player_caster then getCharacterSkill w c slug else getMobSkill w c slug) of
        None \<Rightarrow> (refused (''Skill not found: '' @ slug), w)
      | Some skill \<Rightarrow>
        let (paid, w1) = tryConsumeResources w c skill ct in
        if \<not> paid then (refused ''Insufficient resources'', w1)
        else
          let (busy, w2) = (if cooldownAlreadySet then (None, w1) else claim_cooldown env skill c slug ct w1) in
          case busy of
            Some msg \<Rightarrow> (refused msg, w2)
          | None \<Rightarrow>
            if \<not> validateTarget w2 c target tt then (refused ''Invalid target'', w2)
            else if \<not> isInRange env w2 skill c target tt ct then (refused ''Target is out of range'', w2)
            else compute_usage env w2 skill c target tt ct)"

section \<open>The skill a mob picks\<close>

definition skill_score :: "SkillStruct \<Rightarrow> float32 \<Rightarrow> float32" where
  "skill_score skill distance =
     (let s0 = (if sk_skillEffectType skill = ''damage'' then fl32 (0 + fl32 (sk_coeff skill * 10)) else 0);
          s1 = fl32 (s0 + fl32 (fl32 (10000 - fl32 (of_int (sk_cooldownMs skill))) / 1000))
      in if 500 < distance then fl32 (s1 + fl32 (fl32 (sk_maxRange skill * 100) * fl32 (1 / 10))) else s1)"

definition usable :: "int \<Rightarrow> cooldowns \<Rightarrow> int \<Rightarrow> float32 \<Rightarrow> SkillStruct \<Rightarrow> bool" where
  "usable now cds uid distance skill \<longleftrightarrow>
     isSkillAvailable now cds uid (sk_skillSlug skill) \<and> distance \<le> fl32 (sk_maxRange skill * 100)"

fun best_skill :: "(SkillStruct \<Rightarrow> bool) \<Rightarrow> float32 \<Rightarrow> SkillStruct list \<Rightarrow> float32 \<Rightarrow> SkillStruct option \<Rightarrow> SkillStruct option" where
  "best_skill ok distance [] bestScore best = best"
| "best_skill ok distance (s # ss) bestScore best =
     (if ok s \<and> bestScore < skill_score s distance then best_skill ok distance ss (skill_score s distance) (Some s)
      else best_skill ok distance ss bestScore best)"

definition getBestSkillForMob :: "int \<Rightarrow> cooldowns \<Rightarrow> MobDataStruct \<Rightarrow> float32 \<Rightarrow> SkillStruct option" where
  "getBestSkillForMob now cds m distance =
     best_skill (usable now cds (mb_uid m) distance) distance (mb_skills m) (- 1) None"

section \<open>Cooldowns over time\<close>

text \<open>A use of a skill by the entity under observation: when, which, and the cooldowns it claims.\<close>

record skill_use =
  us_time :: int
  us_slug :: string
  us_cooldownMs :: int
  us_gcdMs :: int

text \<open>
  What can happen to the cooldowns, under a clock that does not go backwards: a skill is used, or its cooldown
  is claimed at the start of a cast (\<^verbatim>\<open>CombatSystem::initiateSkillUsage\<close>), anything else in the world changes,
  expired entries are dropped, and a stored cooldown is restored at login where it does not shorten one that runs. The
  us holds the uses of entity \<open>c\<close>, the newest first.
\<close>

definition gcd_of :: "caster_type \<Rightarrow> SkillStruct \<Rightarrow> int" where
  "gcd_of ct skill = (if ct = Player_caster then sk_gcdMs skill else 0)"

definition skill_of :: "skill_world \<Rightarrow> int \<Rightarrow> string \<Rightarrow> SkillStruct option" where
  "skill_of w c slug = (case determineCasterType w c of Player_caster \<Rightarrow> getCharacterSkill w c slug
     | Mob_caster \<Rightarrow> getMobSkill w c slug | Unknown_caster \<Rightarrow> None)"

inductive skill_run :: "int \<Rightarrow> skill_world \<Rightarrow> int \<Rightarrow> skill_use list \<Rightarrow> bool" for c where
  Start: "sw_cooldowns w = Map.empty \<Longrightarrow> skill_run c w t []"
| Use: "skill_run c w t us \<Longrightarrow> t \<le> se_now env \<Longrightarrow> slug \<noteq> GCD_KEY \<Longrightarrow> useSkill env e slug target tt False w = (r, w')
    \<Longrightarrow> skill_run c w' (se_now env)
      (if su_success r \<and> e = c
       then \<lparr>us_time = se_now env, us_slug = slug, us_cooldownMs = sk_cooldownMs (the (skill_of w e slug)),
             us_gcdMs = gcd_of (determineCasterType w e) (the (skill_of w e slug))\<rparr> # us else us)"
| Claim: "skill_run c w t us \<Longrightarrow> t \<le> now \<Longrightarrow> slug \<noteq> GCD_KEY \<Longrightarrow>
    trySetCooldown now e slug cd g (sw_cooldowns w) = (ok, onGCD, cds)
    \<Longrightarrow> skill_run c (w\<lparr>sw_cooldowns := cds\<rparr>) now
      (if ok \<and> e = c then \<lparr>us_time = now, us_slug = slug, us_cooldownMs = cd, us_gcdMs = g\<rparr> # us else us)"
| World: "skill_run c w t us \<Longrightarrow> t \<le> now \<Longrightarrow> sw_cooldowns w' = sw_cooldowns w \<Longrightarrow> skill_run c w' now us"
| Update: "skill_run c w t us \<Longrightarrow> t \<le> now \<Longrightarrow> skill_run c (w\<lparr>sw_cooldowns := updateCooldowns now (sw_cooldowns w)\<rparr>) now us"
| Restore: "skill_run c w t us \<Longrightarrow> t \<le> now \<Longrightarrow>
    (case per_entity (sw_cooldowns w) e slug of Some x \<Rightarrow> x \<le> now + ms_to_ns ms | None \<Rightarrow> True)
    \<Longrightarrow> skill_run c (w\<lparr>sw_cooldowns := restoreCooldown now e slug ms (sw_cooldowns w)\<rparr>) now us"

text \<open>A claim on a key is over or still guarded by an entry that ends no earlier.\<close>

definition guarded :: "cooldowns \<Rightarrow> int \<Rightarrow> int \<Rightarrow> string \<Rightarrow> int \<Rightarrow> bool" where
  "guarded cds c t key ends \<longleftrightarrow> ends \<le> t \<or> (\<exists>e. per_entity cds c key = Some e \<and> ends \<le> e)"

definition use_guarded :: "cooldowns \<Rightarrow> int \<Rightarrow> int \<Rightarrow> skill_use \<Rightarrow> bool" where
  "use_guarded cds c t u \<longleftrightarrow> guarded cds c t (us_slug u) (us_time u + ms_to_ns (us_cooldownMs u)) \<and>
     (0 < us_gcdMs u \<longrightarrow> guarded cds c t GCD_KEY (us_time u + ms_to_ns (us_gcdMs u)))"

text \<open>Entries that disappear or change have run out, or get later.\<close>

definition moves_on :: "int \<Rightarrow> cooldowns \<Rightarrow> cooldowns \<Rightarrow> bool" where
  "moves_on now cds cds' \<longleftrightarrow> (\<forall>c k e. per_entity cds c k = Some e \<longrightarrow> e \<le> now \<or> (\<exists>e'\<ge>e. per_entity cds' c k = Some e'))"

lemma guarded_moves: "guarded cds c t k x \<Longrightarrow> t \<le> now \<Longrightarrow> moves_on now cds cds' \<Longrightarrow> guarded cds' c now k x"
  unfolding guarded_def moves_on_def by (meson order_trans)

lemma use_guarded_moves: "use_guarded cds c t u \<Longrightarrow> t \<le> now \<Longrightarrow> moves_on now cds cds' \<Longrightarrow> use_guarded cds' c now u"
  unfolding use_guarded_def using guarded_moves by blast

lemma per_entity_upd [simp]: "per_entity (cds(c \<mapsto> m)) c' = (if c' = c then m else per_entity cds c')"
  by (simp add: per_entity_def)

lemma moves_on_try: "trySetCooldown now c slug cd g cds = (ok, onGCD, cds') \<Longrightarrow> moves_on now cds cds'"
  by (auto simp: trySetCooldown_def touch_entry_def Let_def moves_on_def split: option.splits if_splits)

lemma moves_on_update: "moves_on now cds (updateCooldowns now cds)"
  by (auto simp: moves_on_def updateCooldowns_def per_entity_def split: option.splits)

lemma moves_on_restore:
  "(case per_entity cds e slug of Some x \<Rightarrow> x \<le> now + ms_to_ns ms | None \<Rightarrow> True) \<Longrightarrow> moves_on now cds (restoreCooldown now e slug ms cds)"
  by (auto simp: moves_on_def restoreCooldown_def split: option.splits)

text \<open>A successful claim finds every earlier claim on its keys over, and leaves its own guarded.\<close>

lemma try_success:
  assumes "trySetCooldown now c slug cd g cds = (True, onGCD, cds')" "slug \<noteq> GCD_KEY"
  shows "guarded cds c now slug x \<Longrightarrow> x \<le> now" "0 < g \<Longrightarrow> guarded cds c now GCD_KEY x \<Longrightarrow> x \<le> now"
    "per_entity cds' c slug = Some (now + ms_to_ns cd)" "0 < g \<Longrightarrow> per_entity cds' c GCD_KEY = Some (now + ms_to_ns g)"
  using assms by (auto simp: trySetCooldown_def touch_entry_def Let_def guarded_def split: option.splits if_splits)

lemma consume_cooldowns: "tryConsumeResources w c skill ct = (ok, w1) \<Longrightarrow> sw_cooldowns w1 = sw_cooldowns w"
  by (auto simp: tryConsumeResources_def split: if_splits caster_type.splits prod.splits)

lemma compute_cooldowns: "sw_cooldowns (snd (compute_usage env w skill c target tt ct)) = sw_cooldowns w"
  by (simp add: compute_usage_def Let_def split: prod.split)

lemma claim_cases:
  assumes "claim_cooldown env skill c slug ct w = (busy, w1)"
  obtains ok onGCD where "trySetCooldown (se_now env) c slug (sk_cooldownMs skill) (gcd_of ct skill) (sw_cooldowns w) = (ok, onGCD, sw_cooldowns w1)"
    "busy = None \<longleftrightarrow> ok" "ok \<Longrightarrow> w1 = w\<lparr>sw_cooldowns := sw_cooldowns w1\<rparr>"
proof -
  obtain ok onGCD cds where t: "trySetCooldown (se_now env) c slug (sk_cooldownMs skill) (gcd_of ct skill) (sw_cooldowns w) = (ok, onGCD, cds)"
    by (metis prod_cases3)
  with assms show thesis
    by (intro that[of ok onGCD]) (auto simp: claim_cooldown_def gcd_of_def Let_def split: if_splits)
qed

text \<open>The way through \<^verbatim>\<open>useSkill\<close>: the caster and his skill, the payment, the claim, the target.\<close>

lemma useSkill_unfold:
  assumes "skill_of w c slug = Some skill" "tryConsumeResources w c skill (determineCasterType w c) = (paid, w1)"
    "(if already then (None, w1) else claim_cooldown env skill c slug (determineCasterType w c) w1) = (busy, w2)"
  shows "useSkill env c slug target tt already w =
    (if \<not> paid then (refused ''Insufficient resources'', w1)
     else case busy of Some msg \<Rightarrow> (refused msg, w2)
       | None \<Rightarrow> if \<not> validateTarget w2 c target tt then (refused ''Invalid target'', w2)
           else if \<not> isInRange env w2 skill c target tt (determineCasterType w c) then (refused ''Target is out of range'', w2)
           else compute_usage env w2 skill c target tt (determineCasterType w c))"
proof -
  have ct: "determineCasterType w c \<noteq> Unknown_caster"
    and look: "(if determineCasterType w c = Player_caster then getCharacterSkill w c slug else getMobSkill w c slug) = Some skill"
    using assms(1) by (cases "determineCasterType w c"; simp add: skill_of_def)+
  show ?thesis
    unfolding useSkill_def Let_def by (simp only: ct look assms(2,3) if_False option.case prod.case)
qed

lemma useSkill_no_skill:
  "skill_of w c slug = None \<Longrightarrow> snd (useSkill env c slug target tt already w) = w \<and> \<not> su_success (fst (useSkill env c slug target tt already w))"
  by (cases "determineCasterType w c") (simp_all add: useSkill_def skill_of_def no_usage_def)

lemma useSkill_cooldowns:
  assumes "useSkill env e slug target tt False w = (r, w')"
  shows "sw_cooldowns w' = sw_cooldowns w \<and> \<not> su_success r \<or>
    (\<exists>skill ok onGCD. skill_of w e slug = Some skill \<and>
       trySetCooldown (se_now env) e slug (sk_cooldownMs skill) (gcd_of (determineCasterType w e) skill) (sw_cooldowns w)
         = (ok, onGCD, sw_cooldowns w') \<and> (su_success r \<longrightarrow> ok))"
proof (cases "skill_of w e slug")
  case None
  with useSkill_no_skill[OF None, of env target tt False] assms show ?thesis by simp
next
  case (Some skill)
  obtain paid w1 where pay: "tryConsumeResources w e skill (determineCasterType w e) = (paid, w1)" by fastforce
  obtain busy w2 where claim: "claim_cooldown env skill e slug (determineCasterType w e) w1 = (busy, w2)" by fastforce
  from claim obtain ok onGCD where t: "trySetCooldown (se_now env) e slug (sk_cooldownMs skill)
      (gcd_of (determineCasterType w e) skill) (sw_cooldowns w1) = (ok, onGCD, sw_cooldowns w2)" "busy = None \<longleftrightarrow> ok"
    by (rule claim_cases)
  have u: "useSkill env e slug target tt False w = (if \<not> paid then (refused ''Insufficient resources'', w1)
     else case busy of Some msg \<Rightarrow> (refused msg, w2)
       | None \<Rightarrow> if \<not> validateTarget w2 e target tt then (refused ''Invalid target'', w2)
           else if \<not> isInRange env w2 skill e target tt (determineCasterType w e) then (refused ''Target is out of range'', w2)
           else compute_usage env w2 skill e target tt (determineCasterType w e))"
    by (rule useSkill_unfold[OF Some pay]) (simp add: claim)
  show ?thesis
  proof (cases paid)
    case False
    with u assms consume_cooldowns[OF pay] show ?thesis by (auto simp: no_usage_def)
  next
    case True
    have "sw_cooldowns w' = sw_cooldowns w2" "su_success r \<longrightarrow> ok"
      using u assms True t(2) compute_cooldowns[of env w2 skill e target tt "determineCasterType w e"]
      by (auto simp: no_usage_def dest: arg_cong[where f = snd] split: option.splits if_splits)
    with Some t consume_cooldowns[OF pay] show ?thesis by auto
  qed
qed

definition spaced :: "skill_use \<Rightarrow> skill_use \<Rightarrow> bool" where
  "spaced new old \<longleftrightarrow> (us_slug new = us_slug old \<longrightarrow> us_time old + ms_to_ns (us_cooldownMs old) \<le> us_time new) \<and>
     (0 < us_gcdMs new \<and> 0 < us_gcdMs old \<longrightarrow> us_time old + ms_to_ns (us_gcdMs old) \<le> us_time new)"

definition log_ok :: "cooldowns \<Rightarrow> int \<Rightarrow> int \<Rightarrow> skill_use list \<Rightarrow> bool" where
  "log_ok cds c t us \<longleftrightarrow> list_all (use_guarded cds c t) us \<and> sorted_wrt spaced us"

lemma log_ok_moves: "log_ok cds c t us \<Longrightarrow> t \<le> now \<Longrightarrow> moves_on now cds cds' \<Longrightarrow> log_ok cds' c now us"
  unfolding log_ok_def list_all_iff using use_guarded_moves by blast

lemma log_ok_same: "log_ok cds c t us \<Longrightarrow> t \<le> now \<Longrightarrow> log_ok cds c now us"
  by (erule log_ok_moves) (auto simp: moves_on_def)

lemma log_ok_claim:
  assumes "log_ok cds c t us" "t \<le> now" "slug \<noteq> GCD_KEY" "trySetCooldown now e slug cd g cds = (ok, onGCD, cds')"
  shows "log_ok cds' c now us"
    and "ok \<Longrightarrow> e = c \<Longrightarrow> log_ok cds' c now (\<lparr>us_time = now, us_slug = slug, us_cooldownMs = cd, us_gcdMs = g\<rparr> # us)"
proof -
  show old: "log_ok cds' c now us" by (rule log_ok_moves[OF assms(1,2) moves_on_try[OF assms(4)]])
  assume ok: "ok" "e = c"
  let ?u = "\<lparr>us_time = now, us_slug = slug, us_cooldownMs = cd, us_gcdMs = g\<rparr>"
  have now: "log_ok cds c now us" by (rule log_ok_same[OF assms(1,2)])
  have t: "trySetCooldown now c slug cd g cds = (True, onGCD, cds')" using assms(4) ok by simp
  note s = try_success[OF t assms(3)]
  have "spaced ?u u" if "u \<in> set us" for u
    using now that s(1,2) unfolding log_ok_def list_all_iff use_guarded_def spaced_def by auto
  moreover have "use_guarded cds' c now ?u"
    using s(3,4) by (auto simp: use_guarded_def guarded_def)
  ultimately show "log_ok cds' c now (?u # us)" using old by (simp add: log_ok_def)
qed

lemma skill_run_ok: "skill_run c w t us \<Longrightarrow> log_ok (sw_cooldowns w) c t us"
proof (induction rule: skill_run.induct)
  case (Use w t us env slug e target tt r w')
  from useSkill_cooldowns[OF Use.hyps(4)] show ?case
  proof (elim disjE exE conjE)
    assume "sw_cooldowns w' = sw_cooldowns w" "\<not> su_success r"
    then show ?thesis using log_ok_same[OF Use.IH Use.hyps(2)] by simp
  next
    fix skill ok onGCD
    assume s: "skill_of w e slug = Some skill" and t: "trySetCooldown (se_now env) e slug (sk_cooldownMs skill)
      (gcd_of (determineCasterType w e) skill) (sw_cooldowns w) = (ok, onGCD, sw_cooldowns w')" and ok: "su_success r \<longrightarrow> ok"
    from log_ok_claim[OF Use.IH Use.hyps(2,3) t] s ok show ?thesis by (cases "su_success r \<and> e = c") auto
  qed
next
  case (Claim w t us now slug e cd g ok onGCD cds)
  from log_ok_claim[OF Claim.IH Claim.hyps(2,3,4)] show ?case by simp
qed (auto simp: log_ok_def[of _ _ _ "[]"] intro: log_ok_same log_ok_moves moves_on_update moves_on_restore)

section \<open>What a use costs\<close>

definition caster_mana :: "skill_world \<Rightarrow> int \<Rightarrow> int" where
  "caster_mana w c = (case determineCasterType w c of
     Player_caster \<Rightarrow> ch_characterCurrentMana (getCharacterData (sw_chars w) c)
   | Mob_caster \<Rightarrow> mb_currentMana (getMobInstance (sw_mobs w) c) | Unknown_caster \<Rightarrow> 0)"

text \<open>Two worlds that differ in mana, cooldowns and rolls only.\<close>

definition same_but_mana :: "skill_world \<Rightarrow> skill_world \<Rightarrow> bool" where
  "same_but_mana w w' \<longleftrightarrow> sw_templates w' = sw_templates w \<and>
     (\<forall>c. (getCharacterData (sw_chars w') c)\<lparr>ch_characterCurrentMana := 0\<rparr>
          = (getCharacterData (sw_chars w) c)\<lparr>ch_characterCurrentMana := 0\<rparr>) \<and>
     (\<forall>u. (getMobInstance (sw_mobs w') u)\<lparr>mb_currentMana := 0\<rparr> = (getMobInstance (sw_mobs w) u)\<lparr>mb_currentMana := 0\<rparr>)"

lemma same_refl [simp]: "same_but_mana w w"
  by (simp add: same_but_mana_def)

lemma same_trans: "same_but_mana w1 w2 \<Longrightarrow> same_but_mana w2 w3 \<Longrightarrow> same_but_mana w1 w3"
  by (simp add: same_but_mana_def)

lemma same_fields:
  assumes "same_but_mana w w'"
  shows "ch_characterId (getCharacterData (sw_chars w') c) = ch_characterId (getCharacterData (sw_chars w) c)"
    "ch_isDead (getCharacterData (sw_chars w') c) = ch_isDead (getCharacterData (sw_chars w) c)"
    "ch_characterPosition (getCharacterData (sw_chars w') c) = ch_characterPosition (getCharacterData (sw_chars w) c)"
    "mb_uid (getMobInstance (sw_mobs w') u) = mb_uid (getMobInstance (sw_mobs w) u)"
    "mb_currentHealth (getMobInstance (sw_mobs w') u) = mb_currentHealth (getMobInstance (sw_mobs w) u)"
    "mb_position (getMobInstance (sw_mobs w') u) = mb_position (getMobInstance (sw_mobs w) u)"
proof -
  note s = assms[unfolded same_but_mana_def]
  from s have ch: "(getCharacterData (sw_chars w') c)\<lparr>ch_characterCurrentMana := 0\<rparr> = (getCharacterData (sw_chars w) c)\<lparr>ch_characterCurrentMana := 0\<rparr>" by blast
  from s have mb: "(getMobInstance (sw_mobs w') u)\<lparr>mb_currentMana := 0\<rparr> = (getMobInstance (sw_mobs w) u)\<lparr>mb_currentMana := 0\<rparr>" by blast
  show "ch_characterId (getCharacterData (sw_chars w') c) = ch_characterId (getCharacterData (sw_chars w) c)"
    "ch_isDead (getCharacterData (sw_chars w') c) = ch_isDead (getCharacterData (sw_chars w) c)"
    "ch_characterPosition (getCharacterData (sw_chars w') c) = ch_characterPosition (getCharacterData (sw_chars w) c)"
    using arg_cong[OF ch, of ch_characterId] arg_cong[OF ch, of ch_isDead] arg_cong[OF ch, of ch_characterPosition] by simp_all
  show "mb_uid (getMobInstance (sw_mobs w') u) = mb_uid (getMobInstance (sw_mobs w) u)"
    "mb_currentHealth (getMobInstance (sw_mobs w') u) = mb_currentHealth (getMobInstance (sw_mobs w) u)"
    "mb_position (getMobInstance (sw_mobs w') u) = mb_position (getMobInstance (sw_mobs w) u)"
    using arg_cong[OF mb, of mb_uid] arg_cong[OF mb, of mb_currentHealth] arg_cong[OF mb, of mb_position] by simp_all
qed

lemma same_checks:
  assumes "same_but_mana w w'"
  shows "determineCasterType w' c = determineCasterType w c" "validateTarget w' c target tt = validateTarget w c target tt"
    "isInRange env w' skill c target tt ct = isInRange env w skill c target tt ct"
  by (simp_all add: determineCasterType_def validateTarget_def isInRange_def Let_def same_fields[OF assms] split: CombatTargetType.split)

lemma getCharacterData_put [simp]:
  "getCharacterData (umap_put c ch m) c' = (if c' = c then ch else getCharacterData m c')"
  by (simp add: getCharacterData_def)

lemma getMobInstance_put [simp]:
  "getMobInstance (put_mob u m mi) u' = (if u' = u then m else getMobInstance mi u')"
  by (simp add: getMobInstance_def put_mob_def)

lemma known_character: "ch_characterId (getCharacterData m c) \<noteq> 0 \<Longrightarrow> map_of m c = Some (getCharacterData m c)"
  by (auto simp: getCharacterData_def default_character_def split: option.splits)

lemma known_mob: "mb_uid (getMobInstance mi u) \<noteq> 0 \<Longrightarrow> map_of (mi_mobInstances mi) u = Some (getMobInstance mi u)"
  by (auto simp: getMobInstance_def default_mob_def split: option.splits)

lemma same_put_char:
  "(ch\<lparr>ch_characterCurrentMana := 0\<rparr>) = (getCharacterData (sw_chars w) c)\<lparr>ch_characterCurrentMana := 0\<rparr>
   \<Longrightarrow> same_but_mana w (w\<lparr>sw_chars := umap_put c ch (sw_chars w)\<rparr>)"
  by (simp add: same_but_mana_def)

lemma same_put_mob:
  "(m\<lparr>mb_currentMana := 0\<rparr>) = (getMobInstance (sw_mobs w) u)\<lparr>mb_currentMana := 0\<rparr>
   \<Longrightarrow> same_but_mana w (w\<lparr>sw_mobs := put_mob u m (sw_mobs w)\<rparr>)"
  by (simp add: same_but_mana_def)

lemma caster_typeD:
  "determineCasterType w c = Player_caster \<Longrightarrow> map_of (sw_chars w) c = Some (getCharacterData (sw_chars w) c)"
  "determineCasterType w c = Mob_caster \<Longrightarrow> map_of (mi_mobInstances (sw_mobs w)) c = Some (getMobInstance (sw_mobs w) c)"
  by (auto simp: determineCasterType_def known_character known_mob split: if_splits)

lemma consume:
  assumes "determineCasterType w c \<noteq> Unknown_caster" "in_i32 (caster_mana w c)"
    "tryConsumeResources w c skill (determineCasterType w c) = (paid, w1)"
  shows "paid \<longleftrightarrow> sk_costMp skill \<le> max 0 (caster_mana w c)" "\<not> paid \<longrightarrow> w1 = w"
    "same_but_mana w w1 \<and> (paid \<longrightarrow> caster_mana w1 c = caster_mana w c - max 0 (sk_costMp skill))"
proof -
  have w: "wrap32 (caster_mana w c - sk_costMp skill) = caster_mana w c - sk_costMp skill"
    if "0 < sk_costMp skill" "sk_costMp skill \<le> caster_mana w c"
    using that assms(2) by (simp add: in_i32_between)
  consider (P) "determineCasterType w c = Player_caster" | (M) "determineCasterType w c = Mob_caster"
    using assms(1) by (cases "determineCasterType w c") auto
  then have "(paid \<longleftrightarrow> sk_costMp skill \<le> max 0 (caster_mana w c)) \<and> (\<not> paid \<longrightarrow> w1 = w) \<and> same_but_mana w w1 \<and>
    (paid \<longrightarrow> caster_mana w1 c = caster_mana w c - max 0 (sk_costMp skill))"
  proof cases
    case P
    note ch = caster_typeD(1)[OF P]
    show ?thesis
    proof (cases "0 < sk_costMp skill \<and> sk_costMp skill \<le> caster_mana w c")
      case True
      let ?ch = "getCharacterData (sw_chars w) c"
      have w1: "paid" "w1 = w\<lparr>sw_chars := umap_put c (?ch\<lparr>ch_characterCurrentMana := caster_mana w c - sk_costMp skill\<rparr>) (sw_chars w)\<rparr>"
        using assms(3) True w ch P by (auto simp: tryConsumeResources_def trySpendMana_def caster_mana_def)
      moreover have "same_but_mana w w1" unfolding w1(2) by (rule same_put_char) simp
      ultimately show ?thesis using True P same_checks(1)[of w w1 c] by (simp add: caster_mana_def)
    next
      case False
      then show ?thesis using assms(3) ch P by (auto simp: tryConsumeResources_def trySpendMana_def caster_mana_def split: if_splits)
    qed
  next
    case M
    note m = caster_typeD(2)[OF M]
    show ?thesis
    proof (cases "0 < sk_costMp skill \<and> sk_costMp skill \<le> caster_mana w c")
      case True
      let ?m = "getMobInstance (sw_mobs w) c"
      have w1: "paid" "w1 = w\<lparr>sw_mobs := put_mob c (?m\<lparr>mb_currentMana := caster_mana w c - sk_costMp skill\<rparr>) (sw_mobs w)\<rparr>"
        using assms(3) True w m M by (auto simp: tryConsumeResources_def trySpendMobMana_def caster_mana_def)
      moreover have "same_but_mana w w1" unfolding w1(2) by (rule same_put_mob) simp
      ultimately show ?thesis using True M same_checks(1)[of w w1 c] by (simp add: caster_mana_def)
    next
      case False
      then show ?thesis using assms(3) m M by (auto simp: tryConsumeResources_def trySpendMobMana_def caster_mana_def split: if_splits)
    qed
  qed
  then show "paid \<longleftrightarrow> sk_costMp skill \<le> max 0 (caster_mana w c)" "\<not> paid \<longrightarrow> w1 = w"
    "same_but_mana w w1 \<and> (paid \<longrightarrow> caster_mana w1 c = caster_mana w c - max 0 (sk_costMp skill))" by blast+
qed

text \<open>Nothing stands in the way of a claim at time \<open>now\<close>.\<close>

definition off_cooldown :: "int \<Rightarrow> skill_world \<Rightarrow> int \<Rightarrow> string \<Rightarrow> SkillStruct \<Rightarrow> bool" where
  "off_cooldown now w c slug skill \<longleftrightarrow> \<not> isOnCooldown now (sw_cooldowns w) c slug \<and>
     (0 < gcd_of (determineCasterType w c) skill \<longrightarrow> \<not> isGCDActive now (sw_cooldowns w) c)"

lemma try_iff:
  assumes "0 \<le> now" "slug \<noteq> GCD_KEY"
  shows "fst (trySetCooldown now c slug cd g cds) \<longleftrightarrow>
    \<not> isOnCooldown now cds c slug \<and> (0 < g \<longrightarrow> \<not> isGCDActive now cds c)"
  using assms by (auto simp: trySetCooldown_def isOnCooldown_def isGCDActive_def touch_entry_def Let_def split: option.splits)

lemma claim:
  assumes "claim_cooldown env skill c slug ct w = (busy, w2)" "ct = determineCasterType w c" "ct \<noteq> Unknown_caster"
    "0 \<le> se_now env" "slug \<noteq> GCD_KEY"
  shows "same_but_mana w w2 \<and> (busy = None \<longleftrightarrow> off_cooldown (se_now env) w c slug skill) \<and>
    caster_mana w2 c = (if busy \<noteq> None \<and> ct = Player_caster \<and> 0 < sk_costMp skill
      then min (effective_max_mana (se_nowSec env) (getCharacterData (sw_chars w) c)) (wrap32 (caster_mana w c + sk_costMp skill))
      else caster_mana w c)"
proof -
  obtain ok onGCD cds where t: "trySetCooldown (se_now env) c slug (sk_cooldownMs skill) (gcd_of ct skill) (sw_cooldowns w) = (ok, onGCD, cds)"
    by (metis prod_cases3)
  have free: "ok \<longleftrightarrow> off_cooldown (se_now env) w c slug skill"
    using try_iff[OF assms(4,5), of c "sk_cooldownMs skill" "gcd_of ct skill" "sw_cooldowns w"] t assms(2) by (simp add: off_cooldown_def)
  define w1 where "w1 = w\<lparr>sw_cooldowns := cds\<rparr>"
  have same1: "same_but_mana w w1" "caster_mana w1 c = caster_mana w c" "sw_chars w1 = sw_chars w"
    by (simp_all add: w1_def same_but_mana_def caster_mana_def determineCasterType_def)
  show ?thesis
  proof (cases "\<not> ok \<and> ct = Player_caster \<and> 0 < sk_costMp skill")
    case True
    let ?ch = "getCharacterData (sw_chars w) c"
    let ?v = "min (effective_max_mana (se_nowSec env) ?ch) (wrap32 (ch_characterCurrentMana ?ch + sk_costMp skill))"
    have ch: "map_of (sw_chars w1) c = Some ?ch" using caster_typeD(1)[of w c] True assms(2) same1(3) by simp
    have w2: "busy \<noteq> None" "w2 = w1\<lparr>sw_chars := umap_put c (?ch\<lparr>ch_characterCurrentMana := ?v\<rparr>) (sw_chars w1)\<rparr>"
      using assms(1) True t ch by (auto simp: claim_cooldown_def gcd_of_def Let_def w1_def restoreManaToCharacter_def split: if_splits)
    have "same_but_mana w1 w2" unfolding w2(2) by (rule same_put_char) (simp add: same1(3))
    with same1(1) have s: "same_but_mana w w2" by (rule same_trans)
    have "caster_mana w2 c = ?v" using same_checks(1)[OF s, of c] True assms(2) w2 by (simp add: caster_mana_def)
    with s w2(1) True free assms(2) show ?thesis by (simp add: caster_mana_def)
  next
    case False
    then have "w2 = w1" "busy = None \<longleftrightarrow> ok"
      using assms(1) t by (auto simp: claim_cooldown_def gcd_of_def Let_def w1_def split: if_splits)
    with same1 free False show ?thesis by auto
  qed
qed

lemma effective_max_mana_same:
  assumes "same_but_mana w w'"
  shows "effective_max_mana now (getCharacterData (sw_chars w') c) = effective_max_mana now (getCharacterData (sw_chars w) c)"
proof -
  have e: "effective_max_mana now (ch\<lparr>ch_characterCurrentMana := 0\<rparr>) = effective_max_mana now ch" for ch
    by (simp add: effective_max_mana_def)
  from assms e[of "getCharacterData (sw_chars w') c"] e[of "getCharacterData (sw_chars w) c"] show ?thesis
    by (simp add: same_but_mana_def)
qed

lemma compute_success:
  assumes "validateTarget w c target tt"
  shows "su_success (fst (compute_usage env w skill c target tt ct)) \<and>
    same_but_mana w (snd (compute_usage env w skill c target tt ct)) \<and>
    caster_mana (snd (compute_usage env w skill c target tt ct)) c = caster_mana w c"
  using assms by (auto simp: compute_usage_def Let_def no_usage_def same_but_mana_def caster_mana_def determineCasterType_def
      validateTarget_def split: prod.split)

section \<open>Properties\<close>

text \<open>C25: Cooldowns hold: however uses, claims at the start of casts, clean-ups and logins interleave, two uses of
  one skill by the same entity are at least its cooldown apart, and two uses under the global cooldown are at
  least that long apart.\<close>

theorem skills_are_spaced:
  assumes "skill_run c w t us"
  shows "sorted_wrt spaced us"
  using skill_run_ok[OF assms] by (simp add: log_ok_def)


definition fighter :: CharacterDataStruct where
  "fighter = default_character\<lparr>ch_characterId := 7, ch_characterCurrentMana := 20, ch_characterMaxMana := 20, ch_skills := [blow]\<rparr>"

definition arena :: "rolls \<Rightarrow> skill_world" where
  "arena g = \<lparr>sw_chars = [(7, fighter)], sw_mobs = no_mobs,
     sw_templates = \<lparr>mm_mobs = [], mm_weaknesses = Map.empty, mm_resistances = Map.empty\<rparr>,
     sw_cooldowns = Map.empty, sw_rolls = g\<rparr>"

definition at_ms :: "int \<Rightarrow> skill_env" where
  "at_ms ms = \<lparr>se_now = ms_to_ns ms, se_nowSec = 0, se_lastSent = (\<lambda>_. default_position)\<rparr>"

definition swing :: "int \<Rightarrow> skill_world \<Rightarrow> SkillUsageResult \<times> skill_world" where
  "swing ms w = useSkill (at_ms ms) 7 ''blow'' 0 AREA False w"

lemma swings:
  "su_success (fst (swing 0 (arena g)))" "\<not> su_success (fst (swing 700 (snd (swing 0 (arena g)))))"
  "su_success (fst (swing 1000 (snd (swing 700 (snd (swing 0 (arena g)))))))"
  by code_simp+

definition swing_use :: "int \<Rightarrow> skill_world \<Rightarrow> skill_use" where
  "swing_use ms w = \<lparr>us_time = ms_to_ns ms, us_slug = ''blow'', us_cooldownMs = sk_cooldownMs (the (skill_of w 7 ''blow'')),
     us_gcdMs = gcd_of (determineCasterType w 7) (the (skill_of w 7 ''blow''))\<rparr>"

lemma swing_step:
  "skill_run 7 w t us \<Longrightarrow> t \<le> ms_to_ns ms \<Longrightarrow>
   skill_run 7 (snd (swing ms w)) (ms_to_ns ms) (if su_success (fst (swing ms w)) then swing_use ms w # us else us)"
  using skill_run.Use[of 7 w t us "at_ms ms" "''blow''" 7 0 AREA "fst (swing ms w)" "snd (swing ms w)"]
  by (cases "su_success (fst (swing ms w))") (simp_all add: swing_def at_ms_def GCD_KEY_def swing_use_def)

theorem skills_are_spaced_witness:
  "\<exists>w us. skill_run 7 w (ms_to_ns 1000) us \<and> map us_time us = [1000000000, 0] \<and> sorted_wrt spaced us"
proof -
  let ?w0 = "arena (sconst 0)"
  let ?w1 = "snd (swing 0 ?w0)" let ?w2 = "snd (swing 700 ?w1)" let ?w3 = "snd (swing 1000 ?w2)"
  have r0: "skill_run 7 ?w0 0 []" by (rule skill_run.Start) (simp add: arena_def)
  have r1: "skill_run 7 ?w1 (ms_to_ns 0) [swing_use 0 ?w0]" using swing_step[OF r0, of 0] by (simp add: swings ms_to_ns_def)
  have r2: "skill_run 7 ?w2 (ms_to_ns 700) [swing_use 0 ?w0]" using swing_step[OF r1, of 700] by (simp add: swings ms_to_ns_def)
  have r3: "skill_run 7 ?w3 (ms_to_ns 1000) [swing_use 1000 ?w2, swing_use 0 ?w0]"
    using swing_step[OF r2, of 1000] by (simp add: swings ms_to_ns_def)
  have "map us_time [swing_use 1000 ?w2, swing_use 0 ?w0] = [1000000000, 0]" by (simp add: swing_use_def ms_to_ns_def)
  with r3 skills_are_spaced[OF r3] show ?thesis by (intro exI conjI)
qed

lemma arena_facts:
  "skill_of (arena g) 7 ''blow'' = Some blow" "caster_mana (arena g) 7 = 20" "off_cooldown 0 (arena g) 7 ''blow'' blow"
  "determineCasterType (arena g) 7 = Player_caster" "effective_max_mana 0 (getCharacterData (sw_chars (arena g)) 7) = 20"
  "validateTarget (arena g) 7 0 AREA" "isInRange (at_ms 0) (arena g) blow 7 0 AREA Player_caster" "sk_costMp blow = 5"
  by code_simp+


text \<open>A mob that is refused because of its cooldown has paid: the refund is for players only.\<close>

lemma mob_pays_on_cooldown:
  assumes "skill_of w c slug = Some skill" "determineCasterType w c = Mob_caster" "slug \<noteq> GCD_KEY" "0 \<le> se_now env"
    "in_i32 (caster_mana w c)" "0 < sk_costMp skill" "sk_costMp skill \<le> caster_mana w c" "\<not> off_cooldown (se_now env) w c slug skill"
  shows "caster_mana (snd (useSkill env c slug target tt False w)) c = caster_mana w c - sk_costMp skill"
proof -
  let ?ct = "determineCasterType w c"
  have ct: "?ct \<noteq> Unknown_caster" using assms(2) by simp
  obtain paid w1 where pay: "tryConsumeResources w c skill ?ct = (paid, w1)" by fastforce
  obtain busy w2 where cl: "claim_cooldown env skill c slug ?ct w1 = (busy, w2)" by fastforce
  note p = consume[OF ct assms(5) pay]
  have w1: "paid" "same_but_mana w w1" "caster_mana w1 c = caster_mana w c - sk_costMp skill" using p assms(6,7) by auto
  have ct1: "?ct = determineCasterType w1 c" by (rule same_checks(1)[OF w1(2), symmetric])
  note q = claim[OF cl ct1 ct assms(4,3)]
  have "off_cooldown (se_now env) w1 c slug skill = off_cooldown (se_now env) w c slug skill"
    using ct1 consume_cooldowns[OF pay] by (simp add: off_cooldown_def)
  with q assms(8) obtain msg where "busy = Some msg" by auto
  with q assms(2) w1 have "caster_mana w2 c = caster_mana w c - sk_costMp skill" by simp
  with useSkill_unfold[OF assms(1) pay, of False env busy w2 target tt] cl w1(1) \<open>busy = Some msg\<close> show ?thesis by simp
qed

end
