(* ===== verification/Event_Queue.thy ===== *)
theory Event_Queue
  imports Chunk_Prelude "HOL-Library.Sublist"
begin

text \<open>
  \<^verbatim>\<open>events/EventQueue.cpp\<close>: the bounded queue between the network threads and the event
  dispatcher. Every method but \<^verbatim>\<open>stop\<close> runs under the mutex. When the queue is over its limit the oldest
  events are dropped and counted. \<open>valid\<close> says that the variant of an event holds a value. The second half of the
  theory has the threads: consumers that block on the condition variable, producers that notify it.
\<close>

record 'e event_queue =
  eq_queue :: "'e list"
  eq_maxSize :: nat
  eq_stopped :: bool
  eq_dropped :: nat

section \<open>Operations\<close>

definition new_queue :: "nat \<Rightarrow> 'e event_queue" where
  "new_queue maxSize = \<lparr>eq_queue = [], eq_maxSize = maxSize, eq_stopped = False, eq_dropped = 0\<rparr>"

definition count_dropped :: "nat \<Rightarrow> 'e event_queue \<Rightarrow> 'e event_queue" where
  "count_dropped n q = q\<lparr>eq_dropped := eq_dropped q + n\<rparr>"

text \<open>\<^verbatim>\<open>while (queue.size() > maxSize_) { queue.pop(); ++dropped; }\<close>\<close>

fun pop_excess :: "nat \<Rightarrow> 'e list \<Rightarrow> nat \<Rightarrow> 'e list \<times> nat" where
  "pop_excess maxSize es dropped =
     (if maxSize < length es then pop_excess maxSize (tl es) (dropped + 1) else (es, dropped))"

declare pop_excess.simps [simp del]

definition enforceLimit :: "'e event_queue \<Rightarrow> 'e event_queue" where
  "enforceLimit q = (let (es, dropped) = pop_excess (eq_maxSize q) (eq_queue q) 0 in count_dropped dropped (q\<lparr>eq_queue := es\<rparr>))"

definition push :: "'e \<Rightarrow> 'e event_queue \<Rightarrow> 'e event_queue" where
  "push e q = enforceLimit (q\<lparr>eq_queue := eq_queue q @ [e]\<rparr>)"

text \<open>Making room: the loop stops early when the queue is empty.\<close>

fun make_room :: "nat \<Rightarrow> 'e event_queue \<Rightarrow> 'e event_queue" where
  "make_room 0 q = q"
| "make_room (Suc n) q = (if eq_queue q = [] then q
     else make_room n (count_dropped 1 (q\<lparr>eq_queue := tl (eq_queue q)\<rparr>)))"

fun append_valid :: "('e \<Rightarrow> bool) \<Rightarrow> 'e list \<Rightarrow> 'e event_queue \<Rightarrow> 'e event_queue" where
  "append_valid valid [] q = q"
| "append_valid valid (e # es) q =
     append_valid valid es (if valid e then q\<lparr>eq_queue := eq_queue q @ [e]\<rparr> else count_dropped 1 q)"

definition pushBatch :: "('e \<Rightarrow> bool) \<Rightarrow> 'e list \<Rightarrow> 'e event_queue \<Rightarrow> 'e event_queue" where
  "pushBatch valid es q =
     enforceLimit (append_valid valid es
       (if eq_maxSize q < length (eq_queue q) + length es
        then make_room (length (eq_queue q) + length es - eq_maxSize q) q else q))"

text \<open>The predicate a consumer waits for; the operations below are what happens once it holds.\<close>

definition ready :: "'e event_queue \<Rightarrow> bool" where
  "ready q \<longleftrightarrow> eq_queue q \<noteq> [] \<or> eq_stopped q"

definition pop :: "'e event_queue \<Rightarrow> 'e option \<times> 'e event_queue" where
  "pop q = (case eq_queue q of [] \<Rightarrow> (None, q) | e # es \<Rightarrow> (Some e, q\<lparr>eq_queue := es\<rparr>))"

fun take_batch :: "'e list \<Rightarrow> int \<Rightarrow> 'e event_queue \<Rightarrow> 'e list \<times> 'e event_queue" where
  "take_batch events batchSize q =
     (case eq_queue q of [] \<Rightarrow> (events, q)
      | e # es \<Rightarrow> if 0 < batchSize then take_batch (events @ [e]) (batchSize - 1) (q\<lparr>eq_queue := es\<rparr>) else (events, q))"

declare take_batch.simps [simp del]

definition popBatch :: "'e list \<Rightarrow> int \<Rightarrow> 'e event_queue \<Rightarrow> bool \<times> 'e list \<times> 'e event_queue" where
  "popBatch events batchSize q =
     (if eq_queue q = [] then (False, events, q)
      else let (events', q') = take_batch events batchSize q in (events' \<noteq> [], events', q'))"

definition size_of :: "'e event_queue \<Rightarrow> nat" where
  "size_of q = length (eq_queue q)"

definition is_empty :: "'e event_queue \<Rightarrow> bool" where
  "is_empty q \<longleftrightarrow> eq_queue q = []"

definition forceCleanup :: "'e event_queue \<Rightarrow> 'e event_queue" where
  "forceCleanup q = (if eq_queue q = [] then q\<lparr>eq_queue := []\<rparr> else q)"

definition stop :: "'e event_queue \<Rightarrow> 'e event_queue" where
  "stop q = q\<lparr>eq_stopped := True\<rparr>"

definition getDroppedCount :: "'e event_queue \<Rightarrow> nat \<times> 'e event_queue" where
  "getDroppedCount q = (eq_dropped q, q\<lparr>eq_dropped := 0\<rparr>)"

section \<open>What the operations do to the events\<close>

lemma pop_excess_eq: "pop_excess m es d = (drop (length es - m) es, d + (length es - m))"
proof (induction m es d rule: pop_excess.induct)
  case (1 m es d)
  then show ?case by (subst pop_excess.simps) (cases es; auto simp: Suc_diff_le)
qed

lemma enforceLimit_eq:
  "enforceLimit q = q\<lparr>eq_queue := drop (length (eq_queue q) - eq_maxSize q) (eq_queue q),
     eq_dropped := eq_dropped q + (length (eq_queue q) - eq_maxSize q)\<rparr>"
  by (simp add: enforceLimit_def pop_excess_eq count_dropped_def)

lemma make_room_eq:
  "make_room n q = q\<lparr>eq_queue := drop n (eq_queue q), eq_dropped := eq_dropped q + min n (length (eq_queue q))\<rparr>"
proof (induction n q rule: make_room.induct)
  case (2 n q)
  then show ?case by (cases "eq_queue q") (auto simp: count_dropped_def drop_Suc)
qed simp

lemma append_valid_eq:
  "append_valid valid es q = q\<lparr>eq_queue := eq_queue q @ filter valid es, eq_dropped := eq_dropped q + length (filter (\<lambda>e. \<not> valid e) es)\<rparr>"
  by (induction es arbitrary: q) (auto simp: count_dropped_def)

lemma take_batch_eq:
  "take_batch events n q = (events @ take (nat n) (eq_queue q), q\<lparr>eq_queue := drop (nat n) (eq_queue q)\<rparr>)"
proof (induction events n q rule: take_batch.induct)
  case (1 events n q)
  show ?case
  proof (cases "eq_queue q")
    case (Cons e es)
    then show ?thesis
      using 1[of e es] by (cases "0 < n") (auto simp: take_batch.simps[of events n q] nat_diff_distrib' take_Cons' drop_Cons')
  qed (simp add: take_batch.simps[of events n q])
qed

text \<open>
  What an operation does to the events: it appends those of \<open>added\<close> and removes a prefix, of which it
  delivers \<open>delivered\<close> (in order) and counts the rest.
\<close>

definition shifts :: "'e event_queue \<Rightarrow> 'e list \<Rightarrow> 'e list \<Rightarrow> nat \<Rightarrow> 'e event_queue \<Rightarrow> bool" where
  "shifts q added delivered lost q' \<longleftrightarrow> eq_maxSize q' = eq_maxSize q \<and>
     (\<exists>removed. eq_queue q @ added = removed @ eq_queue q' \<and> subseq delivered removed \<and>
        length removed + lost = length delivered + (eq_dropped q' - eq_dropped q) \<and> eq_dropped q \<le> eq_dropped q') \<and>
     (length (eq_queue q) \<le> eq_maxSize q \<longrightarrow> length (eq_queue q') \<le> eq_maxSize q)"

lemma shifts_push: "shifts q [e] [] 0 (push e q)"
proof -
  define l where "l = eq_queue q @ [e]"
  define k where "k = length l - eq_maxSize q"
  have q': "push e q = q\<lparr>eq_queue := drop k l, eq_dropped := eq_dropped q + k\<rparr>"
    by (simp add: push_def enforceLimit_eq l_def k_def)
  have "l = take k l @ drop k l" "length (take k l) = k" by (simp_all add: k_def)
  then show ?thesis
    unfolding shifts_def q' l_def[symmetric] by (intro conjI exI[of _ "take k l"]) (auto simp: k_def)
qed

lemma shifts_pop: "pop q = (d, q') \<Longrightarrow> shifts q [] (case d of None \<Rightarrow> [] | Some e \<Rightarrow> [e]) 0 q'"
  unfolding shifts_def pop_def by (auto split: list.splits)

lemma shifts_popBatch:
  assumes "popBatch events n q = (ok, events', q')"
  shows "\<exists>new. events' = events @ new \<and> shifts q [] new 0 q' \<and> (ok \<longleftrightarrow> events' \<noteq> [] \<and> eq_queue q \<noteq> []) \<and>
    length new = min (nat n) (length (eq_queue q))"
proof (cases "eq_queue q = []")
  case False
  with assms have "events' = events @ take (nat n) (eq_queue q)" "q' = q\<lparr>eq_queue := drop (nat n) (eq_queue q)\<rparr>" "ok = (events' \<noteq> [])"
    by (auto simp: popBatch_def take_batch_eq Let_def)
  then show ?thesis using False by (auto simp: shifts_def intro!: exI[of _ "take (nat n) (eq_queue q)"])
qed (use assms in \<open>auto simp: popBatch_def shifts_def\<close>)

lemma shifts_pushBatch:
  "shifts q (filter valid es) [] (length (filter (\<lambda>e. \<not> valid e) es)) (pushBatch valid es q)"
proof -
  define n where "n = (if eq_maxSize q < length (eq_queue q) + length es then length (eq_queue q) + length es - eq_maxSize q else 0)"
  define keep where "keep = drop n (eq_queue q) @ filter valid es"
  define k where "k = length keep - eq_maxSize q"
  have room: "(if eq_maxSize q < length (eq_queue q) + length es then make_room (length (eq_queue q) + length es - eq_maxSize q) q else q)
    = make_room n q" by (simp add: n_def)
  have q': "pushBatch valid es q = q\<lparr>eq_queue := drop k keep,
      eq_dropped := eq_dropped q + min n (length (eq_queue q)) + length (filter (\<lambda>e. \<not> valid e) es) + k\<rparr>"
    by (simp add: pushBatch_def room make_room_eq append_valid_eq enforceLimit_eq keep_def k_def)
  have "eq_queue q @ filter valid es = (take n (eq_queue q) @ take k keep) @ drop k keep"
  proof -
    have "take k keep @ drop k keep = drop n (eq_queue q) @ filter valid es" unfolding append_take_drop_id by (simp add: keep_def)
    then show ?thesis by (metis append_assoc append_take_drop_id)
  qed
  moreover have "length (take n (eq_queue q) @ take k keep) = min n (length (eq_queue q)) + k" by (simp add: k_def)
  ultimately show ?thesis unfolding shifts_def q'
    by (intro conjI exI[of _ "take n (eq_queue q) @ take k keep"]) (auto simp: k_def)
qed

section \<open>A bounded queue of a history\<close>

text \<open>
  The abstract queue: the history of the valid events pushed, of which a prefix has been removed. \<open>delivered\<close> are the
  events handed to consumers so far and \<open>dropped\<close> the total of the drop counter over its resets.
\<close>

inductive queue_run :: "'e event_queue \<Rightarrow> 'e list \<Rightarrow> 'e list \<Rightarrow> nat \<Rightarrow> nat \<Rightarrow> bool" where
  Start: "queue_run (new_queue m) [] [] 0 0"
| Push: "queue_run q hist delivered reported inval \<Longrightarrow> queue_run (push e q) (hist @ [e]) delivered reported inval"
| PushBatch: "queue_run q hist delivered reported inval \<Longrightarrow>
    queue_run (pushBatch valid es q) (hist @ filter valid es) delivered reported (inval + length (filter (\<lambda>e. \<not> valid e) es))"
| Pop: "queue_run q hist delivered reported inval \<Longrightarrow> pop q = (d, q') \<Longrightarrow>
    queue_run q' hist (delivered @ (case d of None \<Rightarrow> [] | Some e \<Rightarrow> [e])) reported inval"
| PopBatch: "queue_run q hist delivered reported inval \<Longrightarrow> popBatch [] n q = (ok, events, q') \<Longrightarrow>
    queue_run q' hist (delivered @ events) reported inval"
| Cleanup: "queue_run q hist delivered reported inval \<Longrightarrow> queue_run (forceCleanup q) hist delivered reported inval"
| Stop: "queue_run q hist delivered reported inval \<Longrightarrow> queue_run (stop q) hist delivered reported inval"
| Count: "queue_run q hist delivered reported inval \<Longrightarrow> getDroppedCount q = (n, q') \<Longrightarrow> queue_run q' hist delivered (reported + n) inval"

definition abstracts :: "'e event_queue \<Rightarrow> 'e list \<Rightarrow> 'e list \<Rightarrow> nat \<Rightarrow> nat \<Rightarrow> bool" where
  "abstracts q hist delivered reported inval \<longleftrightarrow> length (eq_queue q) \<le> eq_maxSize q \<and>
     (\<exists>removed. hist = removed @ eq_queue q \<and> subseq delivered removed \<and>
        length removed + inval = length delivered + reported + eq_dropped q)"

lemma abstracts_shift:
  assumes "abstracts q hist delivered reported inval" "shifts q added d lost q'"
  shows "abstracts q' (hist @ added) (delivered @ d) reported (inval + lost)"
proof -
  obtain r1 where r1: "hist = r1 @ eq_queue q" "subseq delivered r1" "length r1 + inval = length delivered + reported + eq_dropped q"
    using assms(1) unfolding abstracts_def by blast
  obtain r2 where r2: "eq_queue q @ added = r2 @ eq_queue q'" "subseq d r2"
    "length r2 + lost = length d + (eq_dropped q' - eq_dropped q)" "eq_dropped q \<le> eq_dropped q'"
    using assms(2) unfolding shifts_def by blast
  have "hist @ added = (r1 @ r2) @ eq_queue q'" using r1(1) r2(1) by simp
  moreover have "subseq (delivered @ d) (r1 @ r2)" using r1(2) r2(2) by (rule list_emb_append_mono)
  moreover have "length (r1 @ r2) + (inval + lost) = length (delivered @ d) + reported + eq_dropped q'"
    using r1(3) r2(3,4) by simp
  ultimately show ?thesis using assms unfolding abstracts_def shifts_def by auto
qed

lemma queue_run_abstracts: "queue_run q hist delivered reported inval \<Longrightarrow> abstracts q hist delivered reported inval"
proof (induction rule: queue_run.induct)
  case (Push q hist delivered reported inval e)
  from abstracts_shift[OF Push.IH shifts_push, of e] show ?case by simp
next
  case (PushBatch q hist delivered reported inval valid es)
  from abstracts_shift[OF PushBatch.IH shifts_pushBatch, of valid es] show ?case by simp
next
  case (Pop q hist delivered reported inval d q')
  from abstracts_shift[OF Pop.IH shifts_pop[OF Pop.hyps(2)]] show ?case by simp
next
  case (PopBatch q hist delivered reported inval n ok events q')
  from shifts_popBatch[OF PopBatch.hyps(2)] have "shifts q [] events 0 q'" by auto
  from abstracts_shift[OF PopBatch.IH this] show ?case by simp
qed (auto simp: abstracts_def new_queue_def forceCleanup_def stop_def getDroppedCount_def)

text \<open>C27: The queue is a bounded window on the history of events: it holds the newest part of it, never more than
  its limit; consumers get events in the order of the history and never twice; and every event that is neither delivered nor
  waiting has been counted as dropped, with the invalid ones.\<close>

theorem event_queue_fifo:
  assumes "queue_run q hist delivered reported inval"
  shows "length (eq_queue q) \<le> eq_maxSize q \<and>
    eq_queue q = drop (length hist - length (eq_queue q)) hist \<and>
    subseq delivered (take (length hist - length (eq_queue q)) hist) \<and>
    length hist + inval = length delivered + length (eq_queue q) + reported + eq_dropped q"
proof -
  obtain removed where r: "length (eq_queue q) \<le> eq_maxSize q" "hist = removed @ eq_queue q" "subseq delivered removed"
    "length removed + inval = length delivered + reported + eq_dropped q"
    using queue_run_abstracts[OF assms] unfolding abstracts_def by blast
  then show ?thesis by simp
qed

definition two_of_three :: "nat event_queue" where
  "two_of_three = push 3 (push 2 (push 1 (new_queue 2)))"

theorem event_queue_fifo_witness:
  "eq_queue two_of_three = [2, 3] \<and> eq_dropped two_of_three = 1 \<and> length (eq_queue two_of_three) \<le> eq_maxSize two_of_three"
proof -
  have "queue_run two_of_three [1, 2, 3] [] 0 0"
  proof -
    have "queue_run (push 1 (new_queue 2)) ([] @ [1 :: nat]) [] 0 0" by (rule queue_run.Push, rule queue_run.Start)
    then have "queue_run (push 2 (push 1 (new_queue 2))) (([] @ [1 :: nat]) @ [2]) [] 0 0" by (rule queue_run.Push)
    then have "queue_run two_of_three ((([] @ [1]) @ [2]) @ [3]) [] 0 0" unfolding two_of_three_def by (rule queue_run.Push)
    then show ?thesis by simp
  qed
  moreover have "eq_queue two_of_three = [2, 3]" "eq_dropped two_of_three = 1"
    by (simp_all add: two_of_three_def push_def enforceLimit_eq new_queue_def)
  ultimately show ?thesis using event_queue_fifo by force
qed

section \<open>Consumers that block\<close>

text \<open>
  \<^verbatim>\<open>cv.wait(lock, ready)\<close> tests the predicate with the mutex held and, when it fails, releases the mutex and
  falls asleep in one step. A consumer between the two is \<open>mo_checked\<close>: it holds the mutex, so that no producer can get in
  between, but \<^verbatim>\<open>stop\<close> can, because it stores its flag and notifies without the mutex. A notified consumer
  is awake and tests the predicate again when it gets the mutex; consumers may also wake up spuriously. The number
  of consumers that run elsewhere does not matter.
\<close>

record 'e monitor =
  mo_queue :: "'e event_queue"
  mo_checked :: bool
  mo_asleep :: nat
  mo_awake :: nat

definition notify_one :: "'e monitor \<Rightarrow> 'e monitor" where
  "notify_one m = (if 0 < mo_asleep m then m\<lparr>mo_asleep := mo_asleep m - 1, mo_awake := mo_awake m + 1\<rparr> else m)"

definition notify_all :: "'e monitor \<Rightarrow> 'e monitor" where
  "notify_all m = m\<lparr>mo_asleep := 0, mo_awake := mo_awake m + mo_asleep m\<rparr>"

text \<open>A consumer with the mutex: it takes a batch of at least one, or is told to stop, or is about to sleep.\<close>

definition consume_once :: "int \<Rightarrow> 'e monitor \<Rightarrow> 'e monitor" where
  "consume_once n m = (if ready (mo_queue m) then m\<lparr>mo_queue := snd (snd (popBatch [] n (mo_queue m)))\<rparr>
     else m\<lparr>mo_checked := True\<rparr>)"

inductive mon_step :: "'e monitor \<Rightarrow> 'e monitor \<Rightarrow> bool" where
  Push: "\<not> mo_checked m \<Longrightarrow> mon_step m (notify_one (m\<lparr>mo_queue := push e (mo_queue m)\<rparr>))"
| PushBatch: "\<not> mo_checked m \<Longrightarrow> mon_step m (notify_all (m\<lparr>mo_queue := pushBatch valid es (mo_queue m)\<rparr>))"
| Enter: "\<not> mo_checked m \<Longrightarrow> 0 < n \<Longrightarrow> mon_step m (consume_once n m)"
| Sleep: "mo_checked m \<Longrightarrow> mon_step m (m\<lparr>mo_checked := False, mo_asleep := mo_asleep m + 1\<rparr>)"
| Resume: "\<not> mo_checked m \<Longrightarrow> 0 < mo_awake m \<Longrightarrow> 0 < n \<Longrightarrow> mon_step m (consume_once n (m\<lparr>mo_awake := mo_awake m - 1\<rparr>))"
| Spurious: "0 < mo_asleep m \<Longrightarrow> mon_step m (m\<lparr>mo_asleep := mo_asleep m - 1, mo_awake := mo_awake m + 1\<rparr>)"
| StopStore: "mon_step m (m\<lparr>mo_queue := stop (mo_queue m)\<rparr>)"
| StopNotify: "eq_stopped (mo_queue m) \<Longrightarrow> mon_step m (notify_all m)"

inductive mon_run :: "'e monitor \<Rightarrow> bool" where
  Start: "mon_run \<lparr>mo_queue = new_queue limit, mo_checked = False, mo_asleep = 0, mo_awake = 0\<rparr>"
| Step: "mon_run m \<Longrightarrow> mon_step m m' \<Longrightarrow> mon_run m'"

text \<open>While a consumer sleeps, every waiting event has a consumer that is awake to take it.\<close>

definition attended :: "'e monitor \<Rightarrow> bool" where
  "attended m \<longleftrightarrow> (mo_checked m \<longrightarrow> eq_queue (mo_queue m) = []) \<and>
     (0 < mo_asleep m \<longrightarrow> length (eq_queue (mo_queue m)) \<le> mo_awake m)"

lemma length_push: "length (eq_queue (push e q)) \<le> Suc (length (eq_queue q))"
  by (simp add: push_def enforceLimit_eq)

lemma length_popBatch:
  "length (eq_queue (snd (snd (popBatch [] n q)))) = length (eq_queue q) - nat n"
  by (auto simp: popBatch_def take_batch_eq)

lemma attended_consume:
  assumes "\<not> mo_checked m" "0 < n"
    and "0 < mo_asleep m \<longrightarrow> length (eq_queue (mo_queue m)) \<le> mo_awake m + k" "k \<le> 1"
  shows "attended (consume_once n m)"
proof -
  have "1 \<le> nat n" using assms(2) by simp
  then show ?thesis using assms length_popBatch[of n "mo_queue m"]
    by (auto simp: attended_def consume_once_def ready_def)
qed

lemma mon_step_attended: "mon_step m m' \<Longrightarrow> attended m \<Longrightarrow> attended m'"
proof (induction rule: mon_step.induct)
  case (Push m e)
  then show ?case using length_push[of e "mo_queue m"] by (auto simp: attended_def notify_one_def)
next
  case (Enter m n) then show ?case by (intro attended_consume[where k = 0]) (auto simp: attended_def)
next
  case (Resume m n) then show ?case by (intro attended_consume[where k = 1]) (auto simp: attended_def)
qed (auto simp: attended_def notify_all_def stop_def)

lemma mon_run_attended: "mon_run m \<Longrightarrow> attended m"
proof (induction rule: mon_run.induct)
  case (Start cap) show ?case by (simp add: attended_def new_queue_def)
next
  case (Step m m') then show ?case using mon_step_attended by blast
qed

text \<open>C28: No event waits while everybody sleeps: in every interleaving of producers, consumers and \<^verbatim>\<open>stop\<close>, as
  long as some consumer is asleep there are at least as many consumers awake as events waiting, so a waiting event always has
  a consumer on its way to it.\<close>

theorem no_lost_wakeup:
  assumes "mon_run m"
  shows "0 < mo_asleep m \<longrightarrow> length (eq_queue (mo_queue m)) \<le> mo_awake m"
  using mon_run_attended[OF assms] by (simp add: attended_def)

definition sleeper :: "nat monitor" where
  "sleeper = \<lparr>mo_queue = new_queue 10, mo_checked = False, mo_asleep = 1, mo_awake = 0\<rparr>"

lemma sleeper_run: "mon_run sleeper"
proof -
  define m0 :: "nat monitor" where "m0 = \<lparr>mo_queue = new_queue 10, mo_checked = False, mo_asleep = 0, mo_awake = 0\<rparr>"
  have "mon_run m0" unfolding m0_def by (rule mon_run.Start)
  then have "mon_run (consume_once 1 m0)" by (rule mon_run.Step) (rule mon_step.Enter; simp add: m0_def)
  then have "mon_run (m0\<lparr>mo_checked := True\<rparr>)" by (simp add: consume_once_def ready_def m0_def new_queue_def)
  then have "mon_run (m0\<lparr>mo_checked := True\<rparr>\<lparr>mo_checked := False, mo_asleep := mo_asleep (m0\<lparr>mo_checked := True\<rparr>) + 1\<rparr>)"
    by (rule mon_run.Step) (rule mon_step.Sleep; simp)
  then show ?thesis by (simp add: sleeper_def m0_def)
qed

theorem no_lost_wakeup_witness: "mo_asleep sleeper = 1 \<and> length (eq_queue (mo_queue sleeper)) = 0"
  using no_lost_wakeup[OF sleeper_run] by (simp add: sleeper_def)

text \<open>
  The stop signal can be lost: it falls between the test of a consumer and its sleep, and the consumer sleeps on although the
  queue has been stopped and everybody has been notified.
\<close>

lemma stop_can_be_lost:
  "\<exists>m :: nat monitor. mon_run m \<and> eq_stopped (mo_queue m) \<and> mo_asleep m = 1 \<and> mo_awake m = 0 \<and>
     (\<exists>m1 m2. mon_run m1 \<and> mon_step m1 m2 \<and> m2 = notify_all m1 \<and> mon_step m2 m)"
proof -
  define m0 :: "nat monitor" where "m0 = \<lparr>mo_queue = new_queue 10, mo_checked = True, mo_asleep = 0, mo_awake = 0\<rparr>"
  have "mon_run \<lparr>mo_queue = new_queue 10, mo_checked = False, mo_asleep = 0, mo_awake = 0 :: nat\<rparr>" by (rule mon_run.Start)
  then have "mon_run m0"
    using mon_run.Step[OF _ mon_step.Enter[of "\<lparr>mo_queue = new_queue 10, mo_checked = False, mo_asleep = 0, mo_awake = 0\<rparr>" 1]]
    by (fastforce simp: consume_once_def ready_def m0_def new_queue_def)
  define m1 where "m1 = m0\<lparr>mo_queue := stop (mo_queue m0)\<rparr>"
  have r1: "mon_run m1" unfolding m1_def by (rule mon_run.Step[OF \<open>mon_run m0\<close> mon_step.StopStore])
  have s2: "mon_step m1 (notify_all m1)" by (rule mon_step.StopNotify) (simp add: m1_def stop_def)
  have s3: "mon_step (notify_all m1) (m1\<lparr>mo_checked := False, mo_asleep := 1\<rparr>)"
    using mon_step.Sleep[of "notify_all m1"] by (simp add: notify_all_def m1_def m0_def)
  have "mon_run (m1\<lparr>mo_checked := False, mo_asleep := 1\<rparr>)" by (rule mon_run.Step[OF mon_run.Step[OF r1 s2] s3])
  with r1 s2 s3 show ?thesis by (intro exI[of _ "m1\<lparr>mo_checked := False, mo_asleep := 1\<rparr>"]) (auto simp: m1_def m0_def stop_def)
qed

end
