(* ===== verification/Game_Zones.thy ===== *)
theory Game_Zones
  imports Game_Data Chunk_Floats "HOL-Library.Stream"
begin

text \<open>
  \<^verbatim>\<open>services/GameZoneManager.cpp\<close> and \<^verbatim>\<open>services/ZoneEventManager.cpp\<close>: the regions of
  the world, and the temporary events that multiply loot, spawn rate and mob speed in them. The readers see a snapshot that is
  rebuilt whenever an event starts or ends. \<open>now\<close> is the steady clock in nanoseconds, a stream holds the rolls
  of the manager's engine, and the notifications to a zone are collected in \<open>ze_out\<close>.
\<close>

section \<open>Game zones\<close>

datatype ZoneShape = RECT | CIRCLE | ANNULUS

record GameZoneStruct =
  gz_id :: int
  gz_slug :: string
  gz_name :: string
  gz_minLevel :: int
  gz_maxLevel :: int
  gz_isPvp :: bool
  gz_isSafeZone :: bool
  gz_minX :: float32
  gz_maxX :: float32
  gz_minY :: float32
  gz_maxY :: float32
  gz_shape :: ZoneShape
  gz_centerX :: float32
  gz_centerY :: float32
  gz_innerRadius :: float32
  gz_outerRadius :: float32
  gz_explorationXpReward :: int
  gz_championThresholdKills :: int

definition zone_contains :: "GameZoneStruct \<Rightarrow> float32 \<Rightarrow> float32 \<Rightarrow> bool" where
  "zone_contains z x y =
     (let dx = fl32 (x - gz_centerX z); dy = fl32 (y - gz_centerY z);
          d2 = fl32 (fl32 (dx * dx) + fl32 (dy * dy)) in
      case gz_shape z of
        CIRCLE \<Rightarrow> d2 \<le> fl32 (gz_outerRadius z * gz_outerRadius z)
      | ANNULUS \<Rightarrow> fl32 (gz_innerRadius z * gz_innerRadius z) \<le> d2 \<and> d2 \<le> fl32 (gz_outerRadius z * gz_outerRadius z)
      | RECT \<Rightarrow> gz_minX z \<le> x \<and> x \<le> gz_maxX z \<and> gz_minY z \<le> y \<and> y \<le> gz_maxY z)"

type_synonym game_zones = "GameZoneStruct list"

definition loadGameZones :: "GameZoneStruct list \<Rightarrow> game_zones \<Rightarrow> game_zones" where
  "loadGameZones new_zones zones = new_zones"

definition getZoneForPosition :: "game_zones \<Rightarrow> PositionStruct \<Rightarrow> GameZoneStruct option" where
  "getZoneForPosition zones pos = find (\<lambda>z. zone_contains z (positionX pos) (positionY pos)) zones"

section \<open>Zone events\<close>

record ZoneEventTemplate =
  zt_id :: int
  zt_slug :: string
  zt_gameZoneId :: int
  zt_triggerType :: string
  zt_durationSec :: int
  zt_lootMultiplier :: float32
  zt_spawnRateMultiplier :: float32
  zt_mobSpeedMultiplier :: float32
  zt_announceKey :: string
  zt_intervalHours :: int
  zt_randomChancePerHour :: float32
  zt_hasInvasionWave :: bool
  zt_invasionMobTemplateId :: int
  zt_invasionWaveCount :: int
  zt_invasionChampionTemplateId :: int
  zt_invasionChampionSlug :: string

record ActiveZoneEvent =
  az_slug :: string
  az_gameZoneId :: int
  az_lootMultiplier :: float32
  az_spawnRateMultiplier :: float32
  az_mobSpeedMultiplier :: float32
  az_endsAt :: int

record EventSnapshot =
  sn_byZone :: "int \<Rightarrow> ActiveZoneEvent option"
  sn_global :: "ActiveZoneEvent list"

datatype zone_note = ZoneEventStart int string int | ZoneEventEnd int string

record zone_events =
  ze_templates :: "ZoneEventTemplate list"
  ze_active :: "(string \<times> ActiveZoneEvent) list"
  ze_snapshot :: EventSnapshot
  ze_lastTriggerTime :: "string \<Rightarrow> int option"
  ze_hasServices :: bool
  ze_out :: "zone_note list"

definition empty_snapshot :: EventSnapshot where
  "empty_snapshot = \<lparr>sn_byZone = (\<lambda>_. None), sn_global = []\<rparr>"

definition new_zone_events :: "bool \<Rightarrow> zone_events" where
  "new_zone_events gs = \<lparr>ze_templates = [], ze_active = [], ze_snapshot = empty_snapshot,
     ze_lastTriggerTime = (\<lambda>_. None), ze_hasServices = gs, ze_out = []\<rparr>"

definition loadTemplates :: "ZoneEventTemplate list \<Rightarrow> zone_events \<Rightarrow> zone_events" where
  "loadTemplates ts ze = ze\<lparr>ze_templates := ts\<rparr>"

definition snapshot_add :: "string \<times> ActiveZoneEvent \<Rightarrow> EventSnapshot \<Rightarrow> EventSnapshot" where
  "snapshot_add e sn =
     (let ev = snd e in
      if az_gameZoneId ev = 0 then sn\<lparr>sn_global := sn_global sn @ [ev]\<rparr>
      else sn\<lparr>sn_byZone := (sn_byZone sn)(az_gameZoneId ev \<mapsto> ev)\<rparr>)"

definition rebuildSnapshot :: "zone_events \<Rightarrow> zone_events" where
  "rebuildSnapshot ze = ze\<lparr>ze_snapshot := fold snapshot_add (ze_active ze) empty_snapshot\<rparr>"

definition notify_zone :: "zone_note \<Rightarrow> zone_events \<Rightarrow> zone_events" where
  "notify_zone n ze = (if ze_hasServices ze then ze\<lparr>ze_out := ze_out ze @ [n]\<rparr> else ze)"

definition sec_to_ns :: "int \<Rightarrow> int" where
  "sec_to_ns s = s * 1000000000"

definition startEvent :: "int \<Rightarrow> string \<Rightarrow> int \<Rightarrow> zone_events \<Rightarrow> zone_events" where
  "startEvent now slug overrideGameZoneId ze =
     (case find (\<lambda>t. zt_slug t = slug) (ze_templates ze) of
        None \<Rightarrow> ze
      | Some t \<Rightarrow>
        let zoneId = (if overrideGameZoneId \<noteq> 0 then overrideGameZoneId else zt_gameZoneId t);
            ev = \<lparr>az_slug = slug, az_gameZoneId = zoneId, az_lootMultiplier = zt_lootMultiplier t,
                  az_spawnRateMultiplier = zt_spawnRateMultiplier t, az_mobSpeedMultiplier = zt_mobSpeedMultiplier t,
                  az_endsAt = now + sec_to_ns (zt_durationSec t)\<rparr>
        in notify_zone (ZoneEventStart zoneId slug (zt_durationSec t))
             (rebuildSnapshot (ze\<lparr>ze_active := umap_put slug ev (ze_active ze),
                ze_lastTriggerTime := (ze_lastTriggerTime ze)(slug \<mapsto> now)\<rparr>)))"

definition endEventInternal :: "string \<Rightarrow> zone_events \<Rightarrow> zone_events" where
  "endEventInternal slug ze =
     (case map_of (ze_active ze) slug of
        None \<Rightarrow> ze
      | Some ev \<Rightarrow>
        let ze1 = rebuildSnapshot (ze\<lparr>ze_active := omap_erase slug (ze_active ze)\<rparr>)
        in if 0 \<le> az_gameZoneId ev then notify_zone (ZoneEventEnd (az_gameZoneId ev) slug) ze1 else ze1)"

definition endEvent :: "string \<Rightarrow> zone_events \<Rightarrow> zone_events" where
  "endEvent slug ze = endEventInternal slug ze"

text \<open>The second half of a tick, template by template.\<close>

definition try_trigger :: "int \<Rightarrow> ZoneEventTemplate \<Rightarrow> float32 stream \<times> zone_events \<Rightarrow> float32 stream \<times> zone_events" where
  "try_trigger now t st =
     (case st of (g, ze) \<Rightarrow>
      if map_of (ze_active ze) (zt_slug t) \<noteq> None then (g, ze)
      else if zt_triggerType t = ''scheduled'' \<and> 0 < zt_intervalHours t then
        (case ze_lastTriggerTime ze (zt_slug t) of
           None \<Rightarrow> (g, startEvent now (zt_slug t) 0 ze)
         | Some prev \<Rightarrow> if sec_to_ns (zt_intervalHours t * 3600) \<le> now - prev
             then (g, startEvent now (zt_slug t) 0 ze) else (g, ze))
      else if zt_triggerType t = ''random'' \<and> 0 < zt_randomChancePerHour t then
        (stl g, if shd g < fl32 (zt_randomChancePerHour t / 120) then startEvent now (zt_slug t) 0 ze else ze)
      else (g, ze))"

definition expired_slugs :: "int \<Rightarrow> zone_events \<Rightarrow> string list" where
  "expired_slugs now ze = map fst (filter (\<lambda>(slug, ev). az_endsAt ev \<le> now) (ze_active ze))"

definition tickEventScheduler :: "int \<Rightarrow> float32 stream \<Rightarrow> zone_events \<Rightarrow> float32 stream \<times> zone_events" where
  "tickEventScheduler now g ze =
     (let ze1 = fold endEventInternal (expired_slugs now ze) ze
      in fold (try_trigger now) (ze_templates ze1) (g, ze1))"

definition multiplier :: "(ActiveZoneEvent \<Rightarrow> float32) \<Rightarrow> zone_events \<Rightarrow> int \<Rightarrow> float32" where
  "multiplier field ze gameZoneId =
     fold (\<lambda>ev mult. fl32 (mult * field ev)) (sn_global (ze_snapshot ze))
       (case sn_byZone (ze_snapshot ze) gameZoneId of None \<Rightarrow> 1 | Some ev \<Rightarrow> fl32 (1 * field ev))"

definition getLootMultiplier :: "zone_events \<Rightarrow> int \<Rightarrow> float32" where
  "getLootMultiplier ze z = multiplier az_lootMultiplier ze z"

definition getMobSpeedMultiplier :: "zone_events \<Rightarrow> int \<Rightarrow> float32" where
  "getMobSpeedMultiplier ze z = multiplier az_mobSpeedMultiplier ze z"

definition getSpawnRateMultiplier :: "zone_events \<Rightarrow> int \<Rightarrow> float32" where
  "getSpawnRateMultiplier ze z = multiplier az_spawnRateMultiplier ze z"

definition hasActiveEvent :: "zone_events \<Rightarrow> int \<Rightarrow> bool" where
  "hasActiveEvent ze z \<longleftrightarrow> sn_byZone (ze_snapshot ze) z \<noteq> None \<or> sn_global (ze_snapshot ze) \<noteq> []"

section \<open>The snapshot is never stale\<close>

text \<open>The events are filed under their slug, and the snapshot shows the events that are active.\<close>

definition events_ok :: "zone_events \<Rightarrow> bool" where
  "events_ok ze \<longleftrightarrow> distinct (map fst (ze_active ze)) \<and> list_all (\<lambda>(slug, ev). az_slug ev = slug) (ze_active ze) \<and>
     ze_snapshot ze = fold snapshot_add (ze_active ze) empty_snapshot"

lemma notify_zone_simps [simp]:
  "ze_active (notify_zone n ze) = ze_active ze" "ze_snapshot (notify_zone n ze) = ze_snapshot ze"
  "ze_templates (notify_zone n ze) = ze_templates ze"
  by (simp_all add: notify_zone_def)

lemma start_ok: "events_ok ze \<Longrightarrow> events_ok (startEvent now slug z ze)"
  by (auto simp: startEvent_def events_ok_def rebuildSnapshot_def Let_def intro!: list_all_umap_put split: option.split)

lemma end_ok: "events_ok ze \<Longrightarrow> events_ok (endEventInternal slug ze)"
  by (auto simp: endEventInternal_def events_ok_def rebuildSnapshot_def Let_def intro!: list_all_omap_erase split: option.split)

lemma trigger_ok: "events_ok (snd st) \<Longrightarrow> events_ok (snd (try_trigger now t st))"
  by (auto simp: try_trigger_def start_ok split: prod.splits option.splits)

lemma fold_end_ok: "events_ok ze \<Longrightarrow> events_ok (fold endEventInternal slugs ze)"
  by (induction slugs arbitrary: ze) (simp_all add: end_ok)

lemma fold_trigger_ok: "events_ok (snd st) \<Longrightarrow> events_ok (snd (fold (try_trigger now) ts st))"
  by (induction ts arbitrary: st) (simp_all add: trigger_ok)

lemma tick_ok: "events_ok ze \<Longrightarrow> events_ok (snd (tickEventScheduler now g ze))"
  by (simp add: tickEventScheduler_def Let_def fold_trigger_ok fold_end_ok)

inductive events_run :: "zone_events \<Rightarrow> bool" where
  New: "events_run (new_zone_events gs)"
| Load: "events_run ze \<Longrightarrow> events_run (loadTemplates ts ze)"
| Begin: "events_run ze \<Longrightarrow> events_run (startEvent now slug z ze)"
| Finish: "events_run ze \<Longrightarrow> events_run (endEvent slug ze)"
| Tick: "events_run ze \<Longrightarrow> events_run (snd (tickEventScheduler now g ze))"

lemma events_run_ok: "events_run ze \<Longrightarrow> events_ok ze"
proof (induction rule: events_run.induct)
  case (New gs) show ?case by (simp add: events_ok_def new_zone_events_def)
next
  case (Load ze ts) then show ?case by (simp add: events_ok_def loadTemplates_def)
qed (simp_all add: start_ok end_ok endEvent_def tick_ok)

lemma snapshot_global:
  "sn_global (fold snapshot_add l sn) = sn_global sn @ filter (\<lambda>ev. az_gameZoneId ev = 0) (map snd l)"
  by (induction l arbitrary: sn) (auto simp: snapshot_add_def Let_def)

lemma snapshot_byZone:
  "sn_byZone (fold snapshot_add l sn) z = (case find (\<lambda>ev. az_gameZoneId ev = z) (rev (map snd l)) of
     Some ev \<Rightarrow> if z = 0 then sn_byZone sn z else Some ev | None \<Rightarrow> sn_byZone sn z)"
  by (induction l arbitrary: sn) (auto simp: snapshot_add_def Let_def find_append split: option.splits)

lemma find_None_False: "find (\<lambda>_. False) l = None"
  by (induction l) auto

text \<open>What the readers see: every global event, and the event of a zone that comes last.\<close>

lemma multiplier_reads_active:
  assumes "events_run ze"
  shows "multiplier field ze z =
    fold (\<lambda>ev m. fl32 (m * field ev)) (filter (\<lambda>ev. az_gameZoneId ev = 0) (map snd (ze_active ze)))
      (case find (\<lambda>ev. az_gameZoneId ev = z \<and> z \<noteq> 0) (rev (map snd (ze_active ze))) of None \<Rightarrow> 1 | Some ev \<Rightarrow> fl32 (field ev))"
proof -
  have sn: "ze_snapshot ze = fold snapshot_add (ze_active ze) empty_snapshot"
    using events_run_ok[OF assms] by (simp add: events_ok_def)
  show ?thesis
    by (cases "z = 0") (simp_all add: multiplier_def sn snapshot_global snapshot_byZone find_None_False empty_snapshot_def split: option.split)
qed

section \<open>Ticks\<close>

definition running :: "int \<Rightarrow> zone_events \<Rightarrow> bool" where
  "running now ze \<longleftrightarrow> list_all (\<lambda>(slug, ev). now < az_endsAt ev) (ze_active ze)"

lemma end_active: "ze_active (endEventInternal slug ze) = omap_erase slug (ze_active ze)"
  by (auto simp: endEventInternal_def rebuildSnapshot_def Let_def omap_erase_def map_of_eq_None_iff
      intro!: filter_True[symmetric] split: option.split)

lemma fold_end_active: "ze_active (fold endEventInternal slugs ze) = filter (\<lambda>e. fst e \<notin> set slugs) (ze_active ze)"
  by (induction slugs arbitrary: ze) (auto simp: end_active omap_erase_def intro!: filter_cong)

lemma static_templates [simp]:
  "ze_templates (startEvent now slug z ze) = ze_templates ze" "ze_templates (endEventInternal slug ze) = ze_templates ze"
  by (auto simp: startEvent_def endEventInternal_def rebuildSnapshot_def Let_def split: option.split)

lemma fold_end_templates [simp]: "ze_templates (fold endEventInternal slugs ze) = ze_templates ze"
  by (induction slugs arbitrary: ze) simp_all

lemma start_running:
  assumes "running now ze" "list_all (\<lambda>t. 0 < zt_durationSec t) (ze_templates ze)"
  shows "running now (startEvent now slug z ze)"
proof (cases "find (\<lambda>t. zt_slug t = slug) (ze_templates ze)")
  case (Some t)
  then have "0 < zt_durationSec t" using assms(2) list_all_find by metis
  with Some assms(1) show ?thesis
    by (auto simp: running_def startEvent_def rebuildSnapshot_def Let_def sec_to_ns_def intro!: list_all_umap_put)
qed (use assms in \<open>simp add: startEvent_def\<close>)

lemma trigger_running:
  assumes "running now (snd st)" "list_all (\<lambda>t. 0 < zt_durationSec t) (ze_templates (snd st))"
  shows "running now (snd (try_trigger now t st)) \<and> ze_templates (snd (try_trigger now t st)) = ze_templates (snd st)"
  using assms by (auto simp: try_trigger_def start_running split: prod.splits option.splits)

lemma fold_trigger_running:
  assumes "running now (snd st)" "list_all (\<lambda>t. 0 < zt_durationSec t) (ze_templates (snd st))"
  shows "running now (snd (fold (try_trigger now) ts st))"
  using assms by (induction ts arbitrary: st) (simp_all add: trigger_running)

lemma expired_gone:
  assumes "events_ok ze"
  shows "ze_active (fold endEventInternal (expired_slugs now ze) ze) = filter (\<lambda>(slug, ev). now < az_endsAt ev) (ze_active ze)"
proof -
  have d: "distinct (map fst (ze_active ze))" using assms by (simp add: events_ok_def)
  have "fst e \<in> set (expired_slugs now ze) \<longleftrightarrow> az_endsAt (snd e) \<le> now" if e: "e \<in> set (ze_active ze)" for e
  proof
    assume "fst e \<in> set (expired_slugs now ze)"
    then obtain ev where ev: "(fst e, ev) \<in> set (ze_active ze)" "az_endsAt ev \<le> now" by (auto simp: expired_slugs_def)
    have "snd e = ev" using eq_key_imp_eq_value[OF d, of "fst e"] e ev(1) by simp
    with ev(2) show "az_endsAt (snd e) \<le> now" by simp
  next
    assume "az_endsAt (snd e) \<le> now"
    then have "e \<in> set (filter (\<lambda>(slug, ev). az_endsAt ev \<le> now) (ze_active ze))" using e by (simp add: case_prod_beta)
    then show "fst e \<in> set (expired_slugs now ze)" unfolding expired_slugs_def set_map by (rule imageI)
  qed
  then show ?thesis unfolding fold_end_active by (intro filter_cong) (simp_all add: case_prod_beta not_le)
qed

text \<open>A tick ends every event whose time is over and no other: afterwards every active event still has time to
  run, and an event that was running is still active unchanged. The multipliers readers see are always those of the active events.\<close>

lemma tick_ends_events:
  fixes now g
  assumes "events_run ze" "list_all (\<lambda>t. 0 < zt_durationSec t) (ze_templates ze)"
  defines "ze' \<equiv> snd (tickEventScheduler now g ze)"
  shows "list_all (\<lambda>(slug, ev). now < az_endsAt ev) (ze_active ze') \<and>
    (\<forall>slug ev. map_of (ze_active ze) slug = Some ev \<and> now < az_endsAt ev \<longrightarrow> map_of (ze_active ze') slug = Some ev) \<and>
    ze_snapshot ze' = fold snapshot_add (ze_active ze') empty_snapshot"
proof -
  define ze1 where "ze1 = fold endEventInternal (expired_slugs now ze) ze"
  have ok: "events_ok ze" using assms(1) by (rule events_run_ok)
  have a1: "ze_active ze1 = filter (\<lambda>(slug, ev). now < az_endsAt ev) (ze_active ze)"
    unfolding ze1_def by (rule expired_gone[OF ok])
  have "running now ze1" by (simp add: running_def a1 list_all_iff)
  then have "running now ze'"
    using fold_trigger_running[of now "(g, ze1)"] assms(2) by (simp add: ze'_def tickEventScheduler_def Let_def ze1_def)
  moreover have "map_of (ze_active ze') slug = Some ev" if "map_of (ze_active ze) slug = Some ev" "now < az_endsAt ev" for slug ev
  proof -
    have keep: "map_of (ze_active (snd (try_trigger now t st))) slug = Some ev" if "map_of (ze_active (snd st)) slug = Some ev" for t st
      using that by (auto simp: try_trigger_def startEvent_def rebuildSnapshot_def Let_def split: prod.splits option.splits)
    have "map_of (ze_active (snd (fold (try_trigger now) ts st))) slug = Some ev" if "map_of (ze_active (snd st)) slug = Some ev" for ts st
      using that by (induction ts arbitrary: st) (simp_all add: keep)
    moreover have "map_of (ze_active ze1) slug = Some ev"
    proof -
      have "(slug, ev) \<in> set (ze_active ze1)" using that map_of_SomeD by (fastforce simp: a1)
      moreover have "distinct (map fst (ze_active ze1))" using ok by (simp add: a1 events_ok_def distinct_map_filter)
      ultimately show ?thesis by simp
    qed
    ultimately show ?thesis by (simp add: ze'_def tickEventScheduler_def Let_def ze1_def)
  qed
  moreover have "events_ok ze'" unfolding ze'_def by (rule tick_ok[OF ok])
  ultimately show ?thesis by (auto simp: running_def events_ok_def)
qed

definition loot_hour :: ZoneEventTemplate where
  "loot_hour = \<lparr>zt_id = 1, zt_slug = ''loot_hour'', zt_gameZoneId = 3, zt_triggerType = ''scheduled'', zt_durationSec = 60,
     zt_lootMultiplier = 2, zt_spawnRateMultiplier = 1, zt_mobSpeedMultiplier = 1, zt_announceKey = [], zt_intervalHours = 1,
     zt_randomChancePerHour = 0, zt_hasInvasionWave = False, zt_invasionMobTemplateId = 0, zt_invasionWaveCount = 0,
     zt_invasionChampionTemplateId = 0, zt_invasionChampionSlug = []\<rparr>"

definition busy_zone :: zone_events where
  "busy_zone = startEvent 0 ''loot_hour'' 0 (loadTemplates [loot_hour] (new_zone_events True))"

text \<open>
  Two events in one zone: the header of the class promises aggregated multipliers, but one of the events shadows
  the other.
\<close>

definition double_zone :: zone_events where
  "double_zone = startEvent 0 ''more'' 0 (startEvent 0 ''loot_hour'' 0
     (loadTemplates [loot_hour, loot_hour\<lparr>zt_slug := ''more'', zt_lootMultiplier := 3\<rparr>] (new_zone_events True)))"

lemma events_of_a_zone_shadow: "length (ze_active double_zone) = 2 \<and> getLootMultiplier double_zone 3 = 3"
  using fl32_int[of 3] by (simp add: double_zone_def loadTemplates_def startEvent_def loot_hour_def new_zone_events_def rebuildSnapshot_def
      snapshot_add_def empty_snapshot_def getLootMultiplier_def multiplier_def Let_def)

end
