(* ===== verification/Random_Draws.thy ===== *)
theory Random_Draws
  imports Chunk_Floats "HOL-Library.Stream"
begin

text \<open>
  The distributions of \<^verbatim>\<open><random>\<close> that the managers draw from. An engine is the stream of the
  numbers \<^verbatim>\<open>generate_canonical\<close> is going to yield, each in [0, 1); a distribution scales one of them.
\<close>

definition uniform_real :: "float32 \<Rightarrow> float32 \<Rightarrow> float32 \<Rightarrow> float32" where
  "uniform_real a b u = fl32 (fl32 (u * fl32 (b - a)) + a)"

definition uniform_int :: "int \<Rightarrow> int \<Rightarrow> float32 \<Rightarrow> int" where
  "uniform_int a b u = a + \<lfloor>u * of_int (b - a + 1)\<rfloor>"

text \<open>\<^verbatim>\<open>static_cast<float>(2.0 * M_PI)\<close>\<close>

definition TWO_PI :: float32 where
  "TWO_PI = fl32 (6283185307179586 / 1000000000000000)"

lemma uniform_int_bounds:
  assumes "0 \<le> u" "u < 1" "a \<le> b"
  shows "a \<le> uniform_int a b u" "uniform_int a b u \<le> b"
proof -
  have n: "0 < (of_int (b - a + 1) :: rat)" using assms(3) by simp
  have lo: "0 \<le> u * of_int (b - a + 1)" using assms(1,3) by simp
  have "u * of_int (b - a + 1) < 1 * of_int (b - a + 1)" using assms(2) n by (rule mult_strict_right_mono)
  then have "\<lfloor>u * of_int (b - a + 1)\<rfloor> < b - a + 1" by (simp only: floor_less_iff mult_1)
  then show "uniform_int a b u \<le> b" by (simp add: uniform_int_def)
  have "0 \<le> \<lfloor>u * of_int (b - a + 1)\<rfloor>" using lo by simp
  then show "a \<le> uniform_int a b u" by (simp add: uniform_int_def)
qed

lemma uniform_real_ge: "0 \<le> u \<Longrightarrow> a \<le> b \<Longrightarrow> fl32 a = a \<Longrightarrow> a \<le> uniform_real a b u"
proof -
  assume u: "0 \<le> u" "a \<le> b" and a: "fl32 a = a"
  have "0 \<le> fl32 (u * fl32 (b - a))" using u by simp
  then have "fl32 a \<le> fl32 (fl32 (u * fl32 (b - a)) + a)" by (intro fl32_mono) simp
  then show ?thesis using a by (simp add: uniform_real_def)
qed

end
