(* ===== verification/Loot.thy ===== *)
theory Loot
  imports Pity Mob_Instances Game_Zones Equipment Characters Random_Draws
begin

text \<open>
  \<^verbatim>\<open>services/LootManager.cpp\<close> and the two handlers of \<^verbatim>\<open>ItemEventHandler.cpp\<close> that
  move items between an inventory and the ground. \<open>now\<close> is the steady clock in nanoseconds; the engine is the stream
  of the numbers it yields in [0, 1), from which the distributions compute their results; \<open>cos\<close> and
  \<open>sin\<close> of the drop angle are arguments. The messages to the game server and the events are collected in \<open>lw_out\<close>. A
  pick-up runs in three critical sections (look, give, take), which are separate definitions: the last section
  interleaves them.
\<close>

record DroppedItemStruct =
  di_uid :: int
  di_itemId :: int
  di_quantity :: int
  di_inventoryItemId :: int
  di_durabilityCurrent :: int
  di_position :: PositionStruct
  di_dropTime :: int
  di_droppedByMobUID :: int
  di_droppedByCharacterId :: int
  di_reservedForCharacterId :: int
  di_reservationExpiry :: int
  di_canBePickedUp :: bool

definition default_dropped :: DroppedItemStruct where
  "default_dropped = \<lparr>di_uid = 0, di_itemId = 0, di_quantity = 1, di_inventoryItemId = 0, di_durabilityCurrent = 0,
     di_position = default_position, di_dropTime = 0, di_droppedByMobUID = 0, di_droppedByCharacterId = 0,
     di_reservedForCharacterId = 0, di_reservationExpiry = 0, di_canBePickedUp = True\<rparr>"

datatype loot_out =
    ItemDrop "DroppedItemStruct list"
  | ItemRemove "int list"
  | TransferInventoryItem int int
  | NullifyItemOwner int int
  | DeleteInventoryItem int
  | PityOut pity_out

record loot_world =
  lw_droppedItems :: "(int \<times> DroppedItemStruct) list"
  lw_nextDroppedItemUID :: int
  lw_inventory :: "inventory_manager option"
  lw_pity :: "pity_manager option"
  lw_pitySaves :: bool
  lw_hasQueue :: bool
  lw_hasNullify :: bool
  lw_hasDelete :: bool
  lw_hasTransfer :: bool
  lw_out :: "loot_out list"

record loot_services =
  ls_mobs :: mob_instances
  ls_config :: game_config
  ls_zones :: game_zones
  ls_zoneEvents :: zone_events

record loot_env =
  lv_now :: int
  lv_items :: item_manager
  lv_services :: "loot_services option"
  lv_cos :: "float32 \<Rightarrow> float32"
  lv_sin :: "float32 \<Rightarrow> float32"

section \<open>Small steps\<close>

definition say :: "bool \<Rightarrow> loot_out list \<Rightarrow> loot_world \<Rightarrow> loot_world" where
  "say listening es w = (if listening then w\<lparr>lw_out := lw_out w @ es\<rparr> else w)"

definition generateDroppedItemUID :: "loot_world \<Rightarrow> int \<times> loot_world" where
  "generateDroppedItemUID w = (lw_nextDroppedItemUID w, w\<lparr>lw_nextDroppedItemUID := wrap32 (lw_nextDroppedItemUID w + 1)\<rparr>)"

definition put_dropped :: "DroppedItemStruct \<Rightarrow> loot_world \<Rightarrow> loot_world" where
  "put_dropped d w = w\<lparr>lw_droppedItems := omap_put (di_uid d) d (lw_droppedItems w)\<rparr>"

section \<open>Drops of a mob\<close>

definition loot_multiplier :: "loot_env \<Rightarrow> int \<Rightarrow> PositionStruct \<Rightarrow> float32" where
  "loot_multiplier env mobUID position =
     (case lv_services env of None \<Rightarrow> 1
      | Some gs \<Rightarrow>
        let inst = getMobInstance (ls_mobs gs) mobUID;
            m = (if 0 < mobUID \<and> mb_uid inst \<noteq> 0 then mb_lootMultiplier inst else 1)
        in case getZoneForPosition (ls_zones gs) position of None \<Rightarrow> m
           | Some z \<Rightarrow> fl32 (m * getLootMultiplier (ls_zoneEvents gs) (gz_id z)))"

definition pity_int :: "loot_env \<Rightarrow> string \<Rightarrow> int \<Rightarrow> int" where
  "pity_int env key d = (case lv_services env of None \<Rightarrow> d | Some gs \<Rightarrow> getInt (ls_config gs) key d)"

definition soft_bonus :: "loot_env \<Rightarrow> float32" where
  "soft_bonus env = (let d = fl32 (5 / 100000) in
     case lv_services env of None \<Rightarrow> d | Some gs \<Rightarrow> getFloat (ls_config gs) ''pity.soft_bonus_per_kill'' d)"

text \<open>Whether the drop is forced, and the chance otherwise.\<close>

definition effective_chance :: "loot_env \<Rightarrow> float32 \<Rightarrow> int \<Rightarrow> MobLootInfoStruct \<Rightarrow> loot_world \<Rightarrow> bool \<times> float32" where
  "effective_chance env lootMultiplier killerId e w =
     (let scaled_chance = fl32 (ml_dropChance e * lootMultiplier) in
      case lw_pity w of
        None \<Rightarrow> (False, scaled_chance)
      | Some pm \<Rightarrow>
        if killerId \<le> 0 then (False, scaled_chance)
        else if isHardPity pm killerId (ml_itemId e) (pity_int env ''pity.hard_pity_kills'' 800) then (True, scaled_chance)
        else (False, fl32 (ml_dropChance e
                + getExtraDropChance pm killerId (ml_itemId e) (pity_int env ''pity.soft_pity_kills'' 300) (soft_bonus env))))"

definition reset_pity :: "int \<Rightarrow> int \<Rightarrow> loot_world \<Rightarrow> loot_world" where
  "reset_pity killerId itemId w =
     (case lw_pity w of None \<Rightarrow> w
      | Some pm \<Rightarrow> if killerId \<le> 0 then w
          else (let (pm', out) = resetCounter (lw_pitySaves w) killerId itemId pm
                in say True (map PityOut out) (w\<lparr>lw_pity := Some pm'\<rparr>)))"

text \<open>The hint needs the notification service.\<close>

definition count_miss :: "loot_env \<Rightarrow> int \<Rightarrow> int \<Rightarrow> loot_world \<Rightarrow> loot_world" where
  "count_miss env killerId itemId w =
     (case lw_pity w of None \<Rightarrow> w
      | Some pm \<Rightarrow> if killerId \<le> 0 then w
          else (let (pm', out) = incrementCounter (lw_pitySaves w) killerId itemId (pity_int env ''pity.hint_threshold_kills'' 500) pm
                in say True (map PityOut (filter (\<lambda>p. p \<noteq> PityHint \<or> lv_services env \<noteq> None) out)) (w\<lparr>lw_pity := Some pm'\<rparr>)))"

definition make_drop ::
  "loot_env \<Rightarrow> int \<Rightarrow> PositionStruct \<Rightarrow> MobLootInfoStruct \<Rightarrow> float32 stream \<Rightarrow> loot_world
   \<Rightarrow> DroppedItemStruct \<times> float32 stream \<times> loot_world" where
  "make_drop env mobUID position e g w =
     (let (uid, w1) = generateDroppedItemUID w;
          (q, g1) = (if ml_minQuantity e < ml_maxQuantity e
                     then (uniform_int (ml_minQuantity e) (ml_maxQuantity e) (shd g), stl g) else (ml_minQuantity e, g));
          radius = uniform_real 15 50 (shd g1); angle = uniform_real 0 TWO_PI (shd (stl g1));
          p = position\<lparr>positionX := fl32 (positionX position + fl32 (radius * lv_cos env angle)),
                       positionY := fl32 (positionY position + fl32 (radius * lv_sin env angle))\<rparr>;
          d = default_dropped\<lparr>di_uid := uid, di_itemId := ml_itemId e, di_quantity := q, di_position := p,
                di_dropTime := lv_now env, di_droppedByMobUID := mobUID, di_canBePickedUp := True\<rparr>
      in (d, stl (stl g1), put_dropped d w1))"

fun roll_entries ::
  "loot_env \<Rightarrow> float32 \<Rightarrow> int \<Rightarrow> PositionStruct \<Rightarrow> int \<Rightarrow> MobLootInfoStruct list \<Rightarrow> float32 stream \<Rightarrow> loot_world
   \<Rightarrow> DroppedItemStruct list \<times> float32 stream \<times> loot_world" where
  "roll_entries env mult mobUID position killerId [] g w = ([], g, w)"
| "roll_entries env mult mobUID position killerId (e # es) g w =
     (if ml_isHarvestOnly e then roll_entries env mult mobUID position killerId es g w
      else
        let (forced, ch) = effective_chance env mult killerId e w in
        if forced \<or> shd g \<le> ch then
          (let (d, g1, w1) = make_drop env mobUID position e (stl g) (reset_pity killerId (ml_itemId e) w);
               (ds, g2, w2) = roll_entries env mult mobUID position killerId es g1 w1
           in (d # ds, g2, w2))
        else roll_entries env mult mobUID position killerId es (stl g) (count_miss env killerId (ml_itemId e) w))"

definition generateLootOnMobDeath ::
  "loot_env \<Rightarrow> int \<Rightarrow> int \<Rightarrow> PositionStruct \<Rightarrow> int \<Rightarrow> float32 stream \<Rightarrow> loot_world
   \<Rightarrow> DroppedItemStruct list \<times> float32 stream \<times> loot_world" where
  "generateLootOnMobDeath env mobId mobUID position killerId g w =
     (let (ds, g1, w1) = roll_entries env (loot_multiplier env mobUID position) mobUID position killerId
                           (getLootForMob (lv_items env) mobId) g w
      in (ds, g1, say (ds \<noteq> [] \<and> lw_hasQueue w) [ItemDrop ds] w1))"

section \<open>Look-up\<close>

definition getDroppedItemByUID :: "loot_world \<Rightarrow> int \<Rightarrow> DroppedItemStruct" where
  "getDroppedItemByUID w uid = (case map_of (lw_droppedItems w) uid of Some d \<Rightarrow> d | None \<Rightarrow> default_dropped)"

definition getAllDroppedItems :: "loot_world \<Rightarrow> (int \<times> DroppedItemStruct) list" where
  "getAllDroppedItems w = lw_droppedItems w"

definition getDroppedItemsNearPosition :: "loot_world \<Rightarrow> PositionStruct \<Rightarrow> float32 \<Rightarrow> DroppedItemStruct list" where
  "getDroppedItemsNearPosition w pos radius =
     sort_key (\<lambda>d. calculateDistance pos (di_position d))
       (filter (\<lambda>d. di_canBePickedUp d \<and> calculateDistance pos (di_position d) \<le> radius) (map snd (lw_droppedItems w)))"

section \<open>Picking up\<close>

definition reserved :: "int \<Rightarrow> DroppedItemStruct \<Rightarrow> bool" where
  "reserved now d \<longleftrightarrow> di_reservedForCharacterId d \<noteq> 0 \<and> now < di_reservationExpiry d"

definition pickup_look :: "int \<Rightarrow> int \<Rightarrow> int \<Rightarrow> PositionStruct \<Rightarrow> loot_world \<Rightarrow> DroppedItemStruct option" where
  "pickup_look now itemUID c pos w =
     (case map_of (lw_droppedItems w) itemUID of None \<Rightarrow> None
      | Some d \<Rightarrow>
        if \<not> di_canBePickedUp d then None
        else if di_reservedForCharacterId d \<noteq> 0 \<and> di_reservedForCharacterId d \<noteq> c \<and> now < di_reservationExpiry d then None
        else if 300 < calculateDistance pos (di_position d) then None
        else Some d)"

definition picked_row :: "int \<Rightarrow> DroppedItemStruct \<Rightarrow> PlayerInventoryItemStruct" where
  "picked_row c d = default_inv_item\<lparr>pi_id := di_inventoryItemId d, pi_characterId := c, pi_itemId := di_itemId d,
     pi_quantity := di_quantity d, pi_durabilityCurrent := di_durabilityCurrent d\<rparr>"

definition pickup_give :: "item_manager \<Rightarrow> int \<Rightarrow> DroppedItemStruct \<Rightarrow> loot_world \<Rightarrow> bool \<times> loot_world" where
  "pickup_give im c d w =
     (case lw_inventory w of None \<Rightarrow> (False, w)
      | Some ivm \<Rightarrow>
        if 0 < di_inventoryItemId d then
          (True, say (lw_hasTransfer w) [TransferInventoryItem c (di_inventoryItemId d)]
             (w\<lparr>lw_inventory := Some (addInstancedItemToInventory c (picked_row c d) ivm)\<rparr>))
        else
          (let (added, ivm') = addItemToInventory im c (di_itemId d) (di_quantity d) ivm
           in (added, w\<lparr>lw_inventory := Some ivm'\<rparr>)))"

text \<open>Taking the item off the ground, or giving back what was added when somebody else was faster.\<close>

definition pickup_take :: "int \<Rightarrow> int \<Rightarrow> DroppedItemStruct \<Rightarrow> loot_world \<Rightarrow> bool \<times> loot_world" where
  "pickup_take itemUID c d w =
     (if map_of (lw_droppedItems w) itemUID \<noteq> None
      then (True, w\<lparr>lw_droppedItems := omap_erase itemUID (lw_droppedItems w)\<rparr>)
      else (False, w\<lparr>lw_inventory :=
              map_option (\<lambda>ivm. snd (removeItemFromInventory c (di_itemId d) (di_quantity d) ivm)) (lw_inventory w)\<rparr>))"

definition pickupDroppedItem ::
  "item_manager \<Rightarrow> int \<Rightarrow> int \<Rightarrow> int \<Rightarrow> PositionStruct \<Rightarrow> loot_world \<Rightarrow> bool \<times> loot_world" where
  "pickupDroppedItem im now itemUID c pos w =
     (case pickup_look now itemUID c pos w of None \<Rightarrow> (False, w)
      | Some d \<Rightarrow>
        (let (added, w1) = pickup_give im c d w
         in if added then pickup_take itemUID c d w1 else (False, w1)))"

section \<open>Player drops and clean-up\<close>

definition stale :: "int \<Rightarrow> int \<Rightarrow> DroppedItemStruct \<Rightarrow> bool" where
  "stale now maxAgeSeconds d \<longleftrightarrow> sec_to_ns maxAgeSeconds < now - di_dropTime d \<and> \<not> reserved now d"

definition cleanupOldDroppedItems :: "int \<Rightarrow> int \<Rightarrow> loot_world \<Rightarrow> loot_world" where
  "cleanupOldDroppedItems now maxAgeSeconds w =
     (let gone = filter (\<lambda>(uid, d). stale now maxAgeSeconds d) (lw_droppedItems w);
          w1 = w\<lparr>lw_droppedItems := filter (\<lambda>(uid, d). \<not> stale now maxAgeSeconds d) (lw_droppedItems w)\<rparr>;
          rows = filter (\<lambda>i. 0 < i) (map (\<lambda>(uid, d). di_inventoryItemId d) gone)
      in if gone = [] then w1
         else say (lw_hasQueue w) [ItemRemove (map fst gone)] (say (lw_hasDelete w) (map DeleteInventoryItem rows) w1))"

definition dropItemByPlayer ::
  "int \<Rightarrow> int \<Rightarrow> int \<Rightarrow> int \<Rightarrow> int \<Rightarrow> PositionStruct \<Rightarrow> int \<Rightarrow> loot_world \<Rightarrow> DroppedItemStruct \<times> loot_world" where
  "dropItemByPlayer now c inventoryItemId itemId quantity position durabilityCurrent w =
     (let (uid, w1) = generateDroppedItemUID w;
          d = default_dropped\<lparr>di_uid := uid, di_itemId := itemId, di_quantity := quantity,
                di_inventoryItemId := inventoryItemId, di_durabilityCurrent := durabilityCurrent, di_position := position,
                di_dropTime := now, di_droppedByCharacterId := c, di_droppedByMobUID := 0,
                di_reservedForCharacterId := 0, di_canBePickedUp := True\<rparr>
      in (d, say (lw_hasQueue w) [ItemDrop [d]]
               (say (0 < inventoryItemId \<and> lw_hasNullify w) [NullifyItemOwner c inventoryItemId] (put_dropped d w1))))"

text \<open>
  \<^verbatim>\<open>ItemEventHandler::handleItemDropByPlayerEvent\<close>: the checks, the automatic
  unequipping, and then either the eviction of the row (a single piece with a row in the database) or a removal by quantity.
  The result says whether something was dropped.
\<close>

definition drop_allowed :: "item_manager \<Rightarrow> int \<Rightarrow> int \<Rightarrow> int \<Rightarrow> inventory_manager \<Rightarrow> bool" where
  "drop_allowed im c itemId quantity ivm \<longleftrightarrow> 0 < quantity \<and>
     (let info = getItemById im itemId in it_id info \<noteq> 0 \<and> \<not> it_isQuestItem info \<and> it_isTradable info) \<and>
     quantity \<le> getItemQuantity ivm c itemId"

definition auto_unequip :: "int \<Rightarrow> int \<Rightarrow> equipment_manager \<times> inventory_manager \<Rightarrow> equipment_manager \<times> inventory_manager" where
  "auto_unequip c itemId st =
     (case findSlotForItemId (fst st) c itemId of None \<Rightarrow> st
      | Some (slotSlug, _) \<Rightarrow> snd (unequipItem c slotSlug st))"

definition handleItemDropByPlayerEvent ::
  "item_manager \<Rightarrow> int \<Rightarrow> PositionStruct \<Rightarrow> int \<Rightarrow> int \<Rightarrow> int \<Rightarrow> inventory_manager \<Rightarrow> equipment_manager \<times> loot_world
   \<Rightarrow> bool \<times> equipment_manager \<times> loot_world" where
  "handleItemDropByPlayerEvent im now position c itemId quantity ivm st =
     (case st of (em, w) \<Rightarrow>
      if \<not> drop_allowed im c itemId quantity ivm then (False, em, w)
      else
        let (em1, ivm1) = auto_unequip c itemId (em, ivm);
            (rowId, durability) = (case find (\<lambda>r. pi_itemId r = itemId) (getPlayerInventory ivm1 c) of
               None \<Rightarrow> (0, 0) | Some r \<Rightarrow> (pi_id r, pi_durabilityCurrent r)) in
        if it_stackMax (getItemById im itemId) = 1 \<and> 0 < rowId then
          (True, em1, snd (dropItemByPlayer now c rowId itemId quantity position durability
                            (w\<lparr>lw_inventory := Some (evictFromMemory c rowId ivm1)\<rparr>)))
        else
          (let (removed, ivm2) = removeItemFromInventory c itemId quantity ivm1; w1 = w\<lparr>lw_inventory := Some ivm2\<rparr>
           in if removed then (True, em1, snd (dropItemByPlayer now c 0 itemId quantity position durability w1))
              else (False, em1, w1)))"

section \<open>Where the pieces are\<close>

definition ground :: "loot_world \<Rightarrow> int \<Rightarrow> int" where
  "ground w i = sum_list (map di_quantity (filter (\<lambda>d. di_itemId d = i) (map snd (lw_droppedItems w))))"

definition held :: "loot_world \<Rightarrow> int \<Rightarrow> int \<Rightarrow> int" where
  "held w c i = (case lw_inventory w of None \<Rightarrow> 0 | Some ivm \<Rightarrow> qty ivm c i)"

definition inventory_ok :: "loot_world \<Rightarrow> bool" where
  "inventory_ok w \<longleftrightarrow> (case lw_inventory w of None \<Rightarrow> True | Some ivm \<Rightarrow> wf_inventory ivm)"

definition ground_ok :: "loot_world \<Rightarrow> bool" where
  "ground_ok w \<longleftrightarrow> omap_sorted (lw_droppedItems w) \<and>
     list_all (\<lambda>(uid, d). di_uid d = uid \<and> uid < lw_nextDroppedItemUID w) (lw_droppedItems w) \<and> in_i32 (lw_nextDroppedItemUID w)"

lemma say_simps [simp]:
  "lw_droppedItems (say b es w) = lw_droppedItems w" "lw_inventory (say b es w) = lw_inventory w"
  "lw_nextDroppedItemUID (say b es w) = lw_nextDroppedItemUID w" "lw_pity (say b es w) = lw_pity w"
  by (simp_all add: say_def)

lemma held_cong: "lw_inventory w' = lw_inventory w \<Longrightarrow> held w' c i = held w c i"
  by (simp add: held_def)

lemma ground_cong: "lw_droppedItems w' = lw_droppedItems w \<Longrightarrow> ground w' i = ground w i"
  by (simp add: ground_def)

lemma ground_put_fresh:
  assumes "list_all (\<lambda>e. fst e \<noteq> di_uid d) (lw_droppedItems w)"
  shows "ground (put_dropped d w) i = ground w i + (if di_itemId d = i then di_quantity d else 0)"
proof -
  have "sum_list (map di_quantity (filter (\<lambda>d. di_itemId d = i) (map snd (omap_put (di_uid d) d m))))
    = sum_list (map di_quantity (filter (\<lambda>d. di_itemId d = i) (map snd m))) + (if di_itemId d = i then di_quantity d else 0)"
    if "list_all (\<lambda>e. fst e \<noteq> di_uid d) m" for m
    using that by (induction "di_uid d" d m rule: omap_put.induct) auto
  then show ?thesis using assms by (simp add: ground_def put_dropped_def)
qed

lemma ground_erase:
  assumes "omap_sorted (lw_droppedItems w)" "map_of (lw_droppedItems w) uid = Some d"
  shows "ground (w\<lparr>lw_droppedItems := omap_erase uid (lw_droppedItems w)\<rparr>) i = ground w i - (if di_itemId d = i then di_quantity d else 0)"
proof -
  have "sum_list (map di_quantity (filter (\<lambda>d. di_itemId d = i) (map snd (omap_erase uid m))))
    = sum_list (map di_quantity (filter (\<lambda>d. di_itemId d = i) (map snd m))) - (if di_itemId d = i then di_quantity d else 0)"
    if "distinct (map fst m)" "map_of m uid = Some d" for m
    using that
  proof (induction m)
    case (Cons e m)
    show ?case
    proof (cases "fst e = uid")
      case True
      have "filter (\<lambda>x. fst x \<noteq> uid) m = m" using Cons.prems(1) True by (intro filter_absent) auto
      then have "omap_erase uid (e # m) = m" using True by (simp add: omap_erase_def)
      then show ?thesis using True Cons.prems by auto
    next
      case False
      then show ?thesis using Cons by (auto simp: omap_erase_def)
    qed
  qed simp
  then show ?thesis using omap_sorted_distinct[OF assms(1)] assms(2) by (simp add: ground_def)
qed

section \<open>A pick-up moves the pieces\<close>

lemma pickup_look_on_ground:
  "pickup_look now uid c pos w = Some d \<Longrightarrow> map_of (lw_droppedItems w) uid = Some d"
  by (auto simp: pickup_look_def split: option.splits if_splits)

lemma pickup_give_ground [simp]: "lw_droppedItems (snd (pickup_give im c d w)) = lw_droppedItems w"
  by (auto simp: pickup_give_def split: option.split prod.split)

text \<open>What giving does to the inventories: a row of the database must not be in the inventory already.\<close>

lemma pickup_give_held:
  assumes "inventory_ok w" "pickup_give im c d w = (True, w')" "0 < di_quantity d"
    and "held w c (di_itemId d) + di_quantity d < INT_LIM"
    and "0 < di_inventoryItemId d \<longrightarrow> (\<forall>ivm. lw_inventory w = Some ivm \<longrightarrow> list_all (\<lambda>r. pi_id r \<noteq> di_inventoryItemId d) (rows ivm c))"
  shows "inventory_ok w'" "held w' c' i = held w c' i + (if c' = c \<and> i = di_itemId d then di_quantity d else 0)"
proof -
  obtain ivm where ivm: "lw_inventory w = Some ivm" using assms(2) by (auto simp: pickup_give_def split: option.splits)
  then have wf: "wf_inventory ivm" and b: "qty ivm c (di_itemId d) + di_quantity d < INT_LIM"
    using assms(1,4) by (simp_all add: inventory_ok_def held_def)
  have "inventory_ok w' \<and> held w' c' i = held w c' i + (if c' = c \<and> i = di_itemId d then di_quantity d else 0)"
  proof (cases "0 < di_inventoryItemId d")
    case True
    have f: "filter (\<lambda>r. pi_id r \<noteq> di_inventoryItemId d) (rows ivm c) = rows ivm c"
      using assms(5) True ivm by (auto simp: list_all_iff intro!: filter_True)
    have "wf_rows c (rows ivm c @ [picked_row c d])"
      using wf_inventory_rows[OF wf, of c] b assms(3) by (auto simp: wf_rows_def picked_row_def qty_def)
    then show ?thesis using True assms(2) ivm wf
      by (auto simp: pickup_give_def addInstancedItemToInventory_def f inventory_ok_def held_def inv_simps picked_row_def)
        (simp_all add: qty_def)
  next
    case False
    then have g: "addItemToInventory im c (di_itemId d) (di_quantity d) ivm = (True, the (lw_inventory w'))"
      "lw_inventory w' = Some (the (lw_inventory w'))"
      using assms(2) ivm by (auto simp: pickup_give_def split: prod.splits)
    have ok: "wf_inventory (the (lw_inventory w'))" using bag.give_ok[OF wf b, of im] g(1) by simp
    have h: "qty (the (lw_inventory w')) c' i = qty ivm c' i + (if c' = c \<and> i = di_itemId d then di_quantity d else 0)"
      using bag.give_holds[OF wf _ b, of im c' i] g(1) by simp
    show ?thesis
      unfolding inventory_ok_def held_def by (subst g(2), subst g(2)) (simp add: ivm ok h)
  qed
  then show "inventory_ok w'" "held w' c' i = held w c' i + (if c' = c \<and> i = di_itemId d then di_quantity d else 0)" by simp_all
qed

lemma pickup_give_refused: "pickup_give im c d w = (False, w') \<Longrightarrow> w' = w"
proof (cases "lw_inventory w")
  case (Some ivm)
  assume "pickup_give im c d w = (False, w')"
  with Some show "w' = w" using bag.give_refused[of im c "di_itemId d" "di_quantity d" ivm]
    by (auto simp: pickup_give_def split: if_splits prod.splits)
qed (simp add: pickup_give_def)

text \<open>C29: A pick-up either moves the dropped stack from the ground into the inventory of the character, piece for piece,
  or changes nothing anywhere: nothing is lost and nothing is created.\<close>

theorem pickup_moves:
  assumes "omap_sorted (lw_droppedItems w)" "inventory_ok w"
    and "\<forall>d. map_of (lw_droppedItems w) uid = Some d \<longrightarrow> 0 < di_quantity d \<and> held w c (di_itemId d) + di_quantity d < INT_LIM \<and>
      (0 < di_inventoryItemId d \<longrightarrow> (\<forall>ivm. lw_inventory w = Some ivm \<longrightarrow> list_all (\<lambda>r. pi_id r \<noteq> di_inventoryItemId d) (rows ivm c)))"
  shows "case pickupDroppedItem im now uid c pos w of (done, w') \<Rightarrow>
    if done then (\<exists>d. map_of (lw_droppedItems w) uid = Some d \<and> map_of (lw_droppedItems w') uid = None \<and>
      (\<forall>i. ground w' i = ground w i - (if i = di_itemId d then di_quantity d else 0)) \<and>
      (\<forall>c' i. held w' c' i = held w c' i + (if c' = c \<and> i = di_itemId d then di_quantity d else 0)))
    else w' = w"
proof (cases "pickup_look now uid c pos w")
  case (Some d)
  note on = pickup_look_on_ground[OF Some]
  obtain added w1 where g: "pickup_give im c d w = (added, w1)" by fastforce
  have d1: "lw_droppedItems w1 = lw_droppedItems w" using pickup_give_ground[of im c d w] g by simp
  show ?thesis
  proof (cases added)
    case True
    have gT: "pickup_give im c d w = (True, w1)" using g True by simp
    note h = pickup_give_held(2)[OF assms(2) gT]
    have held1: "held w1 c' i = held w c' i + (if c' = c \<and> i = di_itemId d then di_quantity d else 0)" for c' i
      using h assms(3) on by blast
    have "ground (w1\<lparr>lw_droppedItems := omap_erase uid (lw_droppedItems w1)\<rparr>) i = ground w i - (if di_itemId d = i then di_quantity d else 0)" for i
      using ground_erase[of w1 uid d i] assms(1) on d1 ground_cong[OF d1] by simp
    then show ?thesis
      using held1 by (auto simp: pickupDroppedItem_def Some g True pickup_take_def d1 on held_def)
  next
    case False
    then show ?thesis using pickup_give_refused g by (auto simp: pickupDroppedItem_def Some)
  qed
qed (simp add: pickupDroppedItem_def)

definition sword_on_ground :: loot_world where
  "sword_on_ground = \<lparr>lw_droppedItems = [(1, default_dropped\<lparr>di_uid := 1, di_itemId := 2, di_quantity := 1, di_inventoryItemId := 50\<rparr>)],
     lw_nextDroppedItemUID = 2, lw_inventory = Some sample_inv, lw_pity = Some (\<lambda>_. None), lw_pitySaves = True, lw_hasQueue = True,
     lw_hasNullify = True, lw_hasDelete = True, lw_hasTransfer = True, lw_out = []\<rparr>"

lemma sword_on_ground_simps [simp]:
  "lw_inventory sword_on_ground = Some sample_inv" "held sword_on_ground c i = qty sample_inv c i" "inventory_ok sword_on_ground"
  "lw_droppedItems sword_on_ground = [(1, default_dropped\<lparr>di_uid := 1, di_itemId := 2, di_quantity := 1, di_inventoryItemId := 50\<rparr>)]"
  by (simp_all add: sword_on_ground_def held_def inventory_ok_def)

theorem pickup_moves_witness:
  "case pickupDroppedItem sample_items 0 1 7 default_position sword_on_ground of (done, w') \<Rightarrow> done \<and> held w' 7 2 = 3"
proof -
  have look: "pickup_look 0 1 7 default_position sword_on_ground
      = Some (default_dropped\<lparr>di_uid := 1, di_itemId := 2, di_quantity := 1, di_inventoryItemId := 50\<rparr>)"
    by code_simp
  have "fst (pickupDroppedItem sample_items 0 1 7 default_position sword_on_ground)"
    by (simp add: pickupDroppedItem_def look pickup_give_def pickup_take_def)
  with pickup_moves[of sword_on_ground 1 7 sample_items 0 default_position] show ?thesis
    by (auto simp: omap_sorted_def default_dropped_def split: prod.splits)
qed

section \<open>Two players at one stack\<close>

text \<open>
  Pick-ups of one stack by several players, each in its three critical sections. \<open>pending\<close> are the players between
  giving and taking, \<open>won\<close> those who were told that they got it. Nothing else touches the inventories meanwhile.
\<close>

inductive race :: "item_manager \<Rightarrow> int \<Rightarrow> loot_world \<Rightarrow> loot_world \<Rightarrow> int list \<Rightarrow> int list \<Rightarrow> bool"
  for im :: item_manager and uid :: int and w0 :: loot_world where
  Start: "race im uid w0 w0 [] []"
| Give: "race im uid w0 w pending won \<Longrightarrow> pickup_look now uid c pos w = Some d \<Longrightarrow> pickup_give im c d w = (True, w') \<Longrightarrow>
    held w c (di_itemId d) + di_quantity d < INT_LIM \<Longrightarrow> race im uid w0 w' (c # pending) won"
| Take: "race im uid w0 w pending won \<Longrightarrow> c \<in> set pending \<Longrightarrow> pickup_take uid c d w = (done, w') \<Longrightarrow>
    map_of (lw_droppedItems w0) uid = Some d \<Longrightarrow> race im uid w0 w' (remove1 c pending) (if done then c # won else won)"

definition race_ok :: "int \<Rightarrow> DroppedItemStruct \<Rightarrow> loot_world \<Rightarrow> loot_world \<Rightarrow> int list \<Rightarrow> int list \<Rightarrow> bool" where
  "race_ok uid d w0 w pending won \<longleftrightarrow> inventory_ok w \<and> length won \<le> 1 \<and>
     map_of (lw_droppedItems w) uid = (if won = [] then Some d else None) \<and>
     (\<forall>c i. held w c i = held w0 c i + (if i = di_itemId d then di_quantity d * int (count_list pending c + count_list won c) else 0))"

lemma race_ok_take:
  assumes r: "race_ok uid d w0 w pending won" and c: "c \<in> set pending" and t: "pickup_take uid c d w = (done, w')"
    and d: "0 < di_quantity d" "inventory_ok w0"
  shows "race_ok uid d w0 w' (remove1 c pending) (if done then c # won else won)"
proof (cases "won = []")
  case True
  obtain k where "count_list pending c = Suc k" using c by (metis count_list_0_iff not0_implies_Suc)
  from True have "done" "w' = w\<lparr>lw_droppedItems := omap_erase uid (lw_droppedItems w)\<rparr>"
    using r t by (auto simp: race_ok_def pickup_take_def)
  then show ?thesis using True r c \<open>count_list pending c = Suc k\<close>
    by (auto simp: race_ok_def held_def inventory_ok_def algebra_simps)
next
  case False
  then have w': "\<not> done" "w' = w\<lparr>lw_inventory := map_option (\<lambda>ivm. snd (removeItemFromInventory c (di_itemId d) (di_quantity d) ivm)) (lw_inventory w)\<rparr>"
    using r t by (auto simp: race_ok_def pickup_take_def)
  have h0: "0 \<le> held w0 c (di_itemId d)" using d(2) qty_nonneg by (auto simp: held_def inventory_ok_def split: option.splits)
  obtain k where k: "count_list pending c = Suc k" using c by (metis count_list_0_iff not0_implies_Suc)
  then have one: "1 \<le> int (count_list pending c)" by simp
  have "held w c (di_itemId d) = held w0 c (di_itemId d) + di_quantity d * int (count_list pending c + count_list won c)"
    using r by (simp add: race_ok_def)
  moreover have "di_quantity d * 1 \<le> di_quantity d * int (count_list pending c + count_list won c)"
    using one d(1) by (intro mult_left_mono) auto
  ultimately have enough: "di_quantity d \<le> held w c (di_itemId d)" using h0 by simp
  then obtain ivm where ivm: "lw_inventory w = Some ivm" using d(1) by (cases "lw_inventory w") (auto simp: held_def)
  have wf: "wf_inventory ivm" using r ivm by (simp add: race_ok_def inventory_ok_def)
  have rem: "fst (removeItemFromInventory c (di_itemId d) (di_quantity d) ivm)"
    using enough ivm d(1) wf by (simp add: remove_iff held_def)
  have h: "held w' c' i = held w c' i - (if c' = c \<and> i = di_itemId d then di_quantity d else 0)" for c' i
    using remove_effect(2)[OF wf rem, of c' i] by (simp add: held_def w'(2) ivm)
  have before: "held w c' i = held w0 c' i + (if i = di_itemId d then di_quantity d * int (count_list pending c' + count_list won c') else 0)" for c' i
    using r by (simp add: race_ok_def)
  have "held w' c' i = held w0 c' i + (if i = di_itemId d then di_quantity d * int (count_list (remove1 c pending) c' + count_list won c') else 0)" for c' i
    unfolding h before by (cases "c' = c"; cases "i = di_itemId d"; simp add: k algebra_simps)
  moreover have "inventory_ok w'" using remove_effect(1)[OF wf rem] by (simp add: inventory_ok_def w'(2) ivm)
  moreover have "lw_droppedItems w' = lw_droppedItems w" by (simp add: w'(2))
  ultimately show ?thesis using r w'(1) by (simp add: race_ok_def)
qed

lemma race_invariant:
  assumes "race im uid w0 w pending won"
    and d: "map_of (lw_droppedItems w0) uid = Some d" "di_inventoryItemId d = 0" "0 < di_quantity d" "inventory_ok w0"
  shows "race_ok uid d w0 w pending won"
  using assms(1)
proof (induction rule: race.induct)
  case Start
  then show ?case using d by (simp add: race_ok_def)
next
  case (Give w pending won now c pos d' w')
  have "d' = d" using pickup_look_on_ground[OF Give.hyps(2)] Give.IH by (auto simp: race_ok_def split: if_splits)
  have ok: "inventory_ok w" using Give.IH by (simp add: race_ok_def)
  have inst: "0 < di_inventoryItemId d \<longrightarrow> (\<forall>ivm. lw_inventory w = Some ivm \<longrightarrow> list_all (\<lambda>r. pi_id r \<noteq> di_inventoryItemId d) (rows ivm c))"
    using d(2) by simp
  have "held w' c' i = held w c' i + (if c' = c \<and> i = di_itemId d then di_quantity d else 0)" "inventory_ok w'" for c' i
    using pickup_give_held[OF ok Give.hyps(3)[unfolded \<open>d' = d\<close>] d(3) Give.hyps(4)[unfolded \<open>d' = d\<close>] inst] by auto
  moreover have "lw_droppedItems w' = lw_droppedItems w" using pickup_give_ground[of im c d' w] Give.hyps(3) by simp
  ultimately show ?case using Give.IH by (auto simp: race_ok_def algebra_simps)
next
  case (Take w pending won c d' "done" w')
  then have "d' = d" using d(1) by simp
  with race_ok_take[OF Take.IH Take.hyps(2) _ d(3,4)] Take.hyps(3) show ?case by simp
qed


definition coins :: DroppedItemStruct where
  "coins = default_dropped\<lparr>di_uid := 1, di_itemId := 1, di_quantity := 5\<rparr>"

lemma coins_simps [simp]: "di_itemId coins = 1" "di_quantity coins = 5" "di_inventoryItemId coins = 0"
    "di_canBePickedUp coins" "di_reservedForCharacterId coins = 0" "di_position coins = default_position"
  by (simp_all add: coins_def default_dropped_def)

definition coins_on_ground :: loot_world where
  "coins_on_ground = sword_on_ground\<lparr>lw_droppedItems := [(1, coins)]\<rparr>"

definition given :: "int \<Rightarrow> loot_world \<Rightarrow> loot_world" where
  "given c w = snd (pickup_give sample_items c coins w)"

definition taken :: "int \<Rightarrow> loot_world \<Rightarrow> loot_world" where
  "taken c w = snd (pickup_take 1 c coins w)"


section \<open>Pity\<close>

text \<open>
  For a kill by a player the multiplier of a champion and of a zone event is thrown away: the pity branch starts again
  from the base chance. (A forced drop ignores the chance anyway.)
\<close>

lemma pity_some: "lw_pity w \<noteq> None \<Longrightarrow> lw_pity (count_miss env k i w) \<noteq> None \<and> lw_pity (reset_pity k i w) \<noteq> None"
  by (auto simp: count_miss_def reset_pity_def split: prod.split option.split)

lemma make_drop_pity: "make_drop env uid pos e g w = (d, g', w') \<Longrightarrow> lw_pity w' = lw_pity w"
  by (auto simp: make_drop_def generateDroppedItemUID_def put_dropped_def Let_def split: prod.splits)

lemma effective_chance_no_mult:
  assumes "lw_pity w \<noteq> None" "0 < killerId"
  shows "fst (effective_chance env m killerId e w) = fst (effective_chance env m' killerId e w) \<and>
    (\<not> fst (effective_chance env m killerId e w) \<longrightarrow> effective_chance env m killerId e w = effective_chance env m' killerId e w)"
  using assms by (auto simp: effective_chance_def Let_def split: option.split)

lemma multipliers_do_not_count:
  assumes "lw_pity w \<noteq> None" "0 < killerId"
  shows "roll_entries env m uid pos killerId es g w = roll_entries env m' uid pos killerId es g w"
  using assms
proof (induction es arbitrary: g w)
  case (Cons e es)
  obtain f ch where ec: "effective_chance env m killerId e w = (f, ch)" by fastforce
  obtain f' ch' where ec': "effective_chance env m' killerId e w = (f', ch')" by fastforce
  have same: "f' = f" "f \<or> ch' = ch" using effective_chance_no_mult[OF Cons.prems, of env m e m'] by (auto simp: ec ec')
  obtain d g1 w1 where md: "make_drop env uid pos e (stl g) (reset_pity killerId (ml_itemId e) w) = (d, g1, w1)" by (metis surj_pair)
  have p1: "lw_pity w1 \<noteq> None" using make_drop_pity[OF md] pity_some[OF Cons.prems(1)] by simp
  have p2: "lw_pity (count_miss env killerId (ml_itemId e) w) \<noteq> None" using pity_some[OF Cons.prems(1)] by simp
  show ?case
    using same Cons.IH[OF Cons.prems] Cons.IH[OF p1 Cons.prems(2)] Cons.IH[OF p2 Cons.prems(2)] by (auto simp: ec ec' md)
qed simp

text \<open>The pity counters of the other items are left alone.\<close>

lemma isHardPity_iff: "isHardPity pm c i n \<longleftrightarrow> (\<exists>k. pm (makeKey c i) = Some k \<and> n \<le> k)"
  by (simp add: isHardPity_def split: option.split)

definition at_hard_pity :: "loot_env \<Rightarrow> int \<Rightarrow> int \<Rightarrow> loot_world \<Rightarrow> bool" where
  "at_hard_pity env killerId itemId w \<longleftrightarrow>
     (\<exists>pm. lw_pity w = Some pm \<and> isHardPity pm killerId itemId (pity_int env ''pity.hard_pity_kills'' 800))"

lemma other_pity:
  assumes "at_hard_pity env k i w" "in_i32 k" "in_i32 i" "in_i32 j" "i \<noteq> j"
  shows "at_hard_pity env k i (count_miss env k j w)" "at_hard_pity env k i (reset_pity k j w)"
  using assms makeKey_inject[of k i k j]
  by (auto simp: at_hard_pity_def count_miss_def reset_pity_def isHardPity_iff incrementCounter_def resetCounter_def Let_def split: option.split)

lemma drop_itemId: "make_drop env uid pos e g w = (d, g', w') \<Longrightarrow> di_itemId d = ml_itemId e"
  by (auto simp: make_drop_def Let_def split: prod.splits)

text \<open>C31: Hard pity is a promise: a player who has missed an item often enough gets it at the next kill of any mob that can
  drop it, whatever the rolls, the order of the loot table and what else drops.\<close>

theorem hard_pity_drops:
  assumes "at_hard_pity env killerId itemId w" "0 < killerId" "in_i32 killerId"
    and "e \<in> set (getLootForMob (lv_items env) mobId)" "ml_itemId e = itemId" "\<not> ml_isHarvestOnly e"
    and "list_all (\<lambda>e. in_i32 (ml_itemId e)) (getLootForMob (lv_items env) mobId)"
  shows "itemId \<in> di_itemId ` set (fst (generateLootOnMobDeath env mobId mobUID position killerId g w))"
proof -
  have "itemId \<in> di_itemId ` set (fst (roll_entries env mult mobUID position killerId es g w))"
    if "at_hard_pity env killerId itemId w" "e \<in> set es" "list_all (\<lambda>e. in_i32 (ml_itemId e)) es" for mult es g w
    using that
  proof (induction es arbitrary: g w)
    case (Cons x es)
    obtain f ch where ec: "effective_chance env mult killerId x w = (f, ch)" by fastforce
    obtain d g1 w1 where md: "make_drop env mobUID position x (stl g) (reset_pity killerId (ml_itemId x) w) = (d, g1, w1)" by (metis surj_pair)
    show ?case
    proof (cases "ml_itemId x = itemId \<and> \<not> ml_isHarvestOnly x")
      case True
      then have f
        using Cons.prems(1) ec assms(2) by (auto simp: at_hard_pity_def effective_chance_def Let_def split: if_splits)
      obtain ds g2 w2 where r: "roll_entries env mult mobUID position killerId es g1 w1 = (ds, g2, w2)" by (metis surj_pair)
      have "roll_entries env mult mobUID position killerId (x # es) g w = (d # ds, g2, w2)"
        using \<open>f\<close> conjunct2[OF True] by (simp add: ec md r)
      with True show ?thesis using drop_itemId[OF md] by simp
    next
      case False
      then have e: "e \<in> set es" using Cons.prems(2) assms(5,6) by auto
      have all: "list_all (\<lambda>e. in_i32 (ml_itemId e)) es" "in_i32 (ml_itemId x)" "in_i32 itemId"
        using Cons.prems(3) e assms(5) by (auto simp: list_all_iff)
      note IH = Cons.IH[OF _ e all(1)]
      show ?thesis
      proof (cases "ml_isHarvestOnly x")
        case True then show ?thesis using IH[OF Cons.prems(1)] by simp
      next
        case False
        with \<open>\<not> (ml_itemId x = itemId \<and> \<not> ml_isHarvestOnly x)\<close> have n: "itemId \<noteq> ml_itemId x" by auto
        note p = other_pity[OF Cons.prems(1) assms(3) all(3,2) n]
        have "at_hard_pity env killerId itemId w1" using p(2) make_drop_pity[OF md] by (simp add: at_hard_pity_def)
        from IH[OF this, of g1] IH[OF p(1), of "stl g"] False show ?thesis by (auto simp: ec md split: prod.split)
      qed
    qed
  qed simp
  from this[OF assms(1,4,7)] show ?thesis by (simp add: generateLootOnMobDeath_def case_prod_beta)
qed

definition rare_table :: item_manager where
  "rare_table = setMobLootInfo
     [\<lparr>ml_id = 1, ml_mobId = 9, ml_itemId = 3, ml_dropChance = 1, ml_isHarvestOnly = False, ml_minQuantity = 1, ml_maxQuantity = 1, ml_lootTier = []\<rparr>,
      \<lparr>ml_id = 2, ml_mobId = 9, ml_itemId = 2, ml_dropChance = 0, ml_isHarvestOnly = False, ml_minQuantity = 1, ml_maxQuantity = 1, ml_lootTier = []\<rparr>]
     sample_items"

definition quiet_env :: loot_env where
  "quiet_env = \<lparr>lv_now = 0, lv_items = rare_table, lv_services = None, lv_cos = (\<lambda>_. 1), lv_sin = (\<lambda>_. 0)\<rparr>"

definition unlucky :: loot_world where
  "unlucky = sword_on_ground\<lparr>lw_pity := Some [makeKey 7 2 \<mapsto> 800]\<rparr>"

theorem hard_pity_drops_witness:
  "\<exists>d \<in> set (fst (generateLootOnMobDeath quiet_env 9 0 default_position 7 (sconst 1) unlucky)). di_itemId d = 2"
proof -
  have table: "getLootForMob (lv_items quiet_env) 9
    = [\<lparr>ml_id = 1, ml_mobId = 9, ml_itemId = 3, ml_dropChance = 1, ml_isHarvestOnly = False, ml_minQuantity = 1, ml_maxQuantity = 1, ml_lootTier = []\<rparr>,
      \<lparr>ml_id = 2, ml_mobId = 9, ml_itemId = 2, ml_dropChance = 0, ml_isHarvestOnly = False, ml_minQuantity = 1, ml_maxQuantity = 1, ml_lootTier = []\<rparr>]"
    by (simp add: quiet_env_def rare_table_def setMobLootInfo_def getLootForMob_def map_of_omap_group)
  have "at_hard_pity quiet_env 7 2 unlucky"
    by (simp add: at_hard_pity_def unlucky_def isHardPity_def pity_int_def quiet_env_def)
  from hard_pity_drops[OF this, where mobId = 9 and e = "getLootForMob (lv_items quiet_env) 9 ! 1"]
  have "2 \<in> di_itemId ` set (fst (generateLootOnMobDeath quiet_env 9 0 default_position 7 (sconst 1) unlucky))"
    unfolding table by (simp add: in_i32_def)
  then show ?thesis by (metis imageE)
qed

section \<open>A drop by a player\<close>

text \<open>Evicting the row with a database id takes that row and no other.\<close>

lemma evict_rows_qty:
  assumes "distinct (filter ((<) 0) (map pi_id v))" "r \<in> set v" "0 < pi_id r"
  shows "rows_qty j (filter (\<lambda>x. pi_id x \<noteq> pi_id r) v) = rows_qty j v - (if pi_itemId r = j then pi_quantity r else 0)"
  using assms
proof (induction v)
  case (Cons x v)
  show ?case
  proof (cases "pi_id x = pi_id r")
    case True
    then have "pi_id r \<notin> pi_id ` set v" using Cons.prems(1,3) by auto
    then have "r = x" "filter (\<lambda>x. pi_id x \<noteq> pi_id r) v = v" using Cons.prems(2) by (auto intro: filter_absent)
    then show ?thesis by simp
  next
    case False
    then show ?thesis using Cons by (auto split: if_splits)
  qed
qed simp

text \<open>Taking the equipment off does not move pieces.\<close>

lemma auto_unequip_rows:
  "\<exists>rid. rows (snd (auto_unequip c i (em, ivm))) c = rows ivm c \<or>
     rows (snd (auto_unequip c i (em, ivm))) c = upd_first (\<lambda>r. pi_id r = rid) (\<lambda>r. r\<lparr>pi_isEquipped := False\<rparr>) (rows ivm c)"
  by (auto simp: auto_unequip_def unequipItem_def setItemEquipped_def upd_row_def rows_def put_rows_def Let_def split: option.split)

lemma auto_unequip_qty:
  assumes "wf_inventory ivm"
  shows "wf_inventory (snd (auto_unequip c i (em, ivm)))" "qty (snd (auto_unequip c i (em, ivm))) c' j = qty ivm c' j"
proof -
  have "wf_inventory (setItemEquipped c rid False ivm) \<and> qty (setItemEquipped c rid False ivm) c' j = qty ivm c' j" for rid
    using assms by (simp add: setItemEquipped_def upd_row_wf)
  then show "wf_inventory (snd (auto_unequip c i (em, ivm)))" "qty (snd (auto_unequip c i (em, ivm))) c' j = qty ivm c' j"
    using assms by (auto simp: auto_unequip_def unequipItem_def Let_def split: option.split)
qed

definition single_pieces :: "inventory_manager \<Rightarrow> int \<Rightarrow> int \<Rightarrow> bool" where
  "single_pieces ivm c i \<longleftrightarrow> distinct (filter ((<) 0) (map pi_id (rows ivm c))) \<and>
     list_all (\<lambda>r. pi_itemId r = i \<longrightarrow> pi_quantity r = 1) (rows ivm c)"

lemma auto_unequip_single: "single_pieces ivm c i \<Longrightarrow> single_pieces (snd (auto_unequip c i (em, ivm))) c i"
  using auto_unequip_rows[of c i em ivm]
  by (auto simp: single_pieces_def map_upd_first_inv intro!: list_all_upd_first)

lemma dropped_world:
  assumes "ground_ok w" "(d, w') = dropItemByPlayer now c rowId itemId quantity pos dur w"
  shows "ground w' j = ground w j + (if j = itemId then quantity else 0)" "lw_inventory w' = lw_inventory w"
proof -
  define d0 where "d0 = default_dropped\<lparr>di_uid := lw_nextDroppedItemUID w, di_itemId := itemId, di_quantity := quantity,
                di_inventoryItemId := rowId, di_durabilityCurrent := dur, di_position := pos, di_dropTime := now,
                di_droppedByCharacterId := c, di_droppedByMobUID := 0, di_reservedForCharacterId := 0, di_canBePickedUp := True\<rparr>"
  define w1 where "w1 = snd (generateDroppedItemUID w)"
  have w1: "lw_droppedItems w1 = lw_droppedItems w" "lw_inventory w1 = lw_inventory w" by (simp_all add: w1_def generateDroppedItemUID_def)
  have w': "lw_droppedItems w' = lw_droppedItems (put_dropped d0 w1)" "lw_inventory w' = lw_inventory (put_dropped d0 w1)"
    using assms(2) by (simp_all add: dropItemByPlayer_def d0_def w1_def generateDroppedItemUID_def Let_def)
  have "list_all (\<lambda>e. fst e \<noteq> di_uid d0) (lw_droppedItems w1)"
    using assms(1) by (auto simp: w1 ground_ok_def d0_def list_all_iff)
  from ground_put_fresh[OF this, of j] show "ground w' j = ground w j + (if j = itemId then quantity else 0)"
    using ground_cong[OF w'(1), of j] ground_cong[OF w1(1), of j] by (simp add: d0_def default_dropped_def)
  show "lw_inventory w' = lw_inventory w" by (simp add: w'(2) w1 put_dropped_def)
qed

text \<open>A player who drops something parts with exactly what appears on the ground, and a refused drop moves
  nothing --- provided that what does not stack is dropped one at a time (see \<open>drop_duplicates\<close> for what happens otherwise).\<close>

lemma player_drop_moves:
  assumes wf: "wf_inventory ivm" and g: "ground_ok w" and i: "lw_inventory w = Some ivm"
    and single: "it_stackMax (getItemById im itemId) = 1 \<Longrightarrow> quantity = 1 \<and> single_pieces ivm c itemId"
  shows "case handleItemDropByPlayerEvent im now pos c itemId quantity ivm (em, w) of (done, em', w') \<Rightarrow>
    (done \<longleftrightarrow> drop_allowed im c itemId quantity ivm) \<and>
    (\<forall>c' j. held w' c' j = held w c' j - (if done \<and> c' = c \<and> j = itemId then quantity else 0)) \<and>
    (\<forall>j. ground w' j = ground w j + (if done \<and> j = itemId then quantity else 0))"
proof (cases "drop_allowed im c itemId quantity ivm")
  case True
  define ivm1 where "ivm1 = snd (auto_unequip c itemId (em, ivm))"
  note eq = auto_unequip_qty[OF wf, of c itemId em, folded ivm1_def]
  define found where "found = find (\<lambda>r. pi_itemId r = itemId) (getPlayerInventory ivm1 c)"
  define rowId where "rowId = (case found of None \<Rightarrow> 0 | Some r \<Rightarrow> pi_id r)"
  define dur where "dur = (case found of None \<Rightarrow> 0 | Some r \<Rightarrow> pi_durabilityCurrent r)"
  have rd: "(case found of None \<Rightarrow> (0, 0) | Some r \<Rightarrow> (pi_id r, pi_durabilityCurrent r)) = (rowId, dur)"
    by (simp add: rowId_def dur_def split: option.split)
  obtain em1 where au: "auto_unequip c itemId (em, ivm) = (em1, ivm1)" unfolding ivm1_def by (metis prod.collapse)
  have ground_inv: "ground_ok (w\<lparr>lw_inventory := x\<rparr>)" "ground (w\<lparr>lw_inventory := x\<rparr>) j = ground w j" for x j
    using g by (simp_all add: ground_ok_def ground_def)
  have q: "0 < quantity" "quantity \<le> qty ivm1 c itemId"
    using True by (simp_all add: drop_allowed_def getItemQuantity_exact wf eq)
  show ?thesis
  proof (cases "it_stackMax (getItemById im itemId) = 1 \<and> 0 < rowId")
    case inst: True
    then obtain r where r: "found = Some r" "pi_id r = rowId" by (auto simp: rowId_def split: option.splits)
    have one: "quantity = 1" "single_pieces ivm1 c itemId"
      using single inst auto_unequip_single[of ivm c itemId em] by (simp_all add: ivm1_def)
    have rows1: "getPlayerInventory ivm1 c = rows ivm1 c" by (simp add: getPlayerInventory_def rows_def split: option.split)
    have mem: "r \<in> set (rows ivm1 c)" "pi_itemId r = itemId" using r(1) find_SomeD by (fastforce simp: found_def rows1)+
    then have r1: "pi_quantity r = 1" using one(2) by (auto simp: single_pieces_def list_all_iff)
    obtain v where v: "iv_players ivm1 c = Some v" "rows ivm1 c = v" using mem(1) by (cases "iv_players ivm1 c") (auto simp: rows_def)
    have "rows_qty j (filter (\<lambda>x. pi_id x \<noteq> rowId) v) = rows_qty j v - (if itemId = j then 1 else 0)" for j
      using evict_rows_qty[of v r j] one(2) mem inst r r1 by (simp add: single_pieces_def v)
    then have ev: "qty (evictFromMemory c rowId ivm1) c' j = qty ivm c' j - (if c' = c \<and> j = itemId then 1 else 0)" for c' j
      using eq(2)[of c' j] v by (auto simp: evictFromMemory_def inv_simps qty_def)
    obtain d w' where dw: "(d, w') = dropItemByPlayer now c rowId itemId quantity pos dur (w\<lparr>lw_inventory := Some (evictFromMemory c rowId ivm1)\<rparr>)"
      by (metis surj_pair)
    have "handleItemDropByPlayerEvent im now pos c itemId quantity ivm (em, w) = (True, em1, w')"
      by (simp add: handleItemDropByPlayerEvent_def au True found_def[symmetric] rd inst dw[symmetric])
    then show ?thesis using dropped_world[OF ground_inv(1) dw] True one(1) ground_inv(2) ev
      by (simp add: held_def i)
  next
    case pile: False
    have rem: "fst (removeItemFromInventory c itemId quantity ivm1)" using q by (simp add: remove_iff[OF eq(1)])
    obtain ivm2 where ivm2: "removeItemFromInventory c itemId quantity ivm1 = (True, ivm2)" using rem by (metis prod.collapse)
    have rq: "qty ivm2 c' j = qty ivm c' j - (if c' = c \<and> j = itemId then quantity else 0)" for c' j
      using remove_effect(2)[OF eq(1) rem, of c' j] eq(2)[of c' j] by (simp add: ivm2)
    obtain d w' where dw: "(d, w') = dropItemByPlayer now c 0 itemId quantity pos dur (w\<lparr>lw_inventory := Some ivm2\<rparr>)"
      by (metis surj_pair)
    have "handleItemDropByPlayerEvent im now pos c itemId quantity ivm (em, w) = (True, em1, w')"
      using pile by (auto simp: handleItemDropByPlayerEvent_def au True found_def[symmetric] rd dw[symmetric] ivm2)
    then show ?thesis using dropped_world[OF ground_inv(1) dw] True ground_inv(2) rq
      by (simp add: held_def i)
  qed
qed (simp add: handleItemDropByPlayerEvent_def)

definition empty_ground :: loot_world where
  "empty_ground = sword_on_ground\<lparr>lw_droppedItems := []\<rparr>"

lemma empty_ground_ok [simp]: "ground_ok empty_ground" "lw_inventory empty_ground = Some sample_inv" "ground empty_ground i = 0"
  by (simp_all add: empty_ground_def ground_ok_def omap_sorted_def sword_on_ground_def in_i32_def ground_def)

text \<open>
  Two swords dropped at once: one row leaves the inventory, two pieces lie on the ground, and the player still has the other
  sword.
\<close>

lemma drop_duplicates:
  "case handleItemDropByPlayerEvent sample_items 0 default_position 7 2 2 sample_inv (Map.empty, empty_ground) of (done, em', w') \<Rightarrow>
     done \<and> held w' 7 2 = 1 \<and> ground w' 2 = 2"
proof -
  have a: "drop_allowed sample_items 7 2 2 sample_inv"
    by (simp add: drop_allowed_def getItemQuantity_exact sample_item_defs default_item_def)
  have u: "auto_unequip 7 2 (Map.empty, sample_inv) = (Map.empty, sample_inv)" by (simp add: auto_unequip_def findSlotForItemId_def)
  have r: "getPlayerInventory sample_inv 7 = rows sample_inv 7" "iv_players sample_inv 7 = Some (rows sample_inv 7)"
    by (simp_all add: sample_inv_def getPlayerInventory_def rows_def)
  have q: "qty (evictFromMemory 7 12 sample_inv) 7 2 = 1" by (simp add: evictFromMemory_def r inv_simps)
  have s: "getItemById sample_items 2 = iron_sword" "it_stackMax iron_sword = 1" by (simp_all add: sample_item_defs)
  have go: "ground_ok (empty_ground\<lparr>lw_inventory := x\<rparr>)" "ground (empty_ground\<lparr>lw_inventory := x\<rparr>) j = 0" for x j
    using empty_ground_ok(1,3) by (simp_all add: ground_ok_def ground_def)
  obtain d w' where dw: "(d, w') = dropItemByPlayer 0 7 12 2 2 default_position 0
      (empty_ground\<lparr>lw_inventory := Some (evictFromMemory 7 12 sample_inv)\<rparr>)" by (metis surj_pair)
  have "handleItemDropByPlayerEvent sample_items 0 default_position 7 2 2 sample_inv (Map.empty, empty_ground) = (True, Map.empty, w')"
    by (simp add: handleItemDropByPlayerEvent_def a u r s dw[symmetric] sample_row_def default_inv_item_def)
  then show ?thesis using dropped_world[OF go(1) dw] go(2) q by (simp add: held_def)
qed

section \<open>Clean-up\<close>

text \<open>Only what is old and not reserved goes, and the game server is told to delete exactly the rows that went with it.\<close>

lemma cleanup_effect:
  assumes "distinct (map fst (lw_droppedItems w))"
  shows "map_of (lw_droppedItems (cleanupOldDroppedItems now age w)) uid
    = (case map_of (lw_droppedItems w) uid of Some d \<Rightarrow> if stale now age d then None else Some d | None \<Rightarrow> None)"
proof -
  have "map_of (filter (\<lambda>(uid, d). \<not> P d) m) uid = (case map_of m uid of Some d \<Rightarrow> if P d then None else Some d | None \<Rightarrow> None)"
    if "distinct (map fst m)" for m :: "(int \<times> DroppedItemStruct) list" and P
    using that by (induction m) (auto simp: map_of_eq_None_iff split: option.split)
  then show ?thesis using assms by (simp add: cleanupOldDroppedItems_def Let_def)
qed

text \<open>
  The roll-back of a pick-up that came too late removes by item, not by row: for a stack with a database row the loser is relieved of
  a sword of his own and keeps the row that the winner holds.
\<close>

lemma late_loser_keeps_row:
  "case pickup_give sample_items 7 (default_dropped\<lparr>di_uid := 1, di_itemId := 2, di_quantity := 1, di_inventoryItemId := 50\<rparr>) empty_ground of
     (added, w1) \<Rightarrow> (case pickup_take 1 7 (default_dropped\<lparr>di_uid := 1, di_itemId := 2, di_quantity := 1, di_inventoryItemId := 50\<rparr>) w1 of
       (done, w2) \<Rightarrow> \<not> done \<and> map_option (\<lambda>ivm. map pi_id (rows ivm 7)) (lw_inventory w2) = Some [11, 13, 14, 50])"
  by code_simp

section \<open>The ground\<close>

text \<open>Drops get fresh uids as long as the counter has not run through all integers.\<close>

lemma put_fresh_ok:
  assumes "ground_ok w" "lw_nextDroppedItemUID w < INT_LIM - 1" "generateDroppedItemUID w = (uid, w1)" "di_uid d = uid"
  shows "ground_ok (put_dropped d w1)" "map_of (lw_droppedItems w) uid = None"
proof -
  have u: "uid = lw_nextDroppedItemUID w" "lw_nextDroppedItemUID w1 = uid + 1" "lw_droppedItems w1 = lw_droppedItems w"
    using assms(1-3) by (auto simp: generateDroppedItemUID_def ground_ok_def in_i32_def)
  have "list_all (\<lambda>(k, d). di_uid d = k \<and> k < uid + 1) (lw_droppedItems w)"
    using assms(1) u(1) by (auto simp: ground_ok_def list_all_iff)
  then have "list_all (\<lambda>(k, d). di_uid d = k \<and> k < uid + 1) (omap_put uid d (lw_droppedItems w))"
    using assms(4) by (intro list_all_omap_put) auto
  then show "ground_ok (put_dropped d w1)"
    using assms u by (simp add: ground_ok_def put_dropped_def in_i32_def)
  show "map_of (lw_droppedItems w) uid = None"
  proof (rule ccontr)
    assume "map_of (lw_droppedItems w) uid \<noteq> None"
    then obtain d' where "(uid, d') \<in> set (lw_droppedItems w)" by (auto dest: map_of_SomeD)
    then show False using assms(1) u(1) by (auto simp: ground_ok_def list_all_iff)
  qed
qed

lemma ground_erase_ok: "ground_ok w \<Longrightarrow> ground_ok (w\<lparr>lw_droppedItems := omap_erase uid (lw_droppedItems w)\<rparr>)"
  by (simp add: ground_ok_def list_all_omap_erase)

end
