(* ===== verification/Spawn_Zones.thy ===== *)
theory Spawn_Zones
  imports Mob_Instances Mob_Templates Game_Zones Random_Draws
begin

text \<open>
  \<^verbatim>\<open>services/SpawnZoneManager.cpp\<close>: the zones where mobs spawn, their quotas per mob type and the placing of
  new mobs, and the two periodic tasks of \<^verbatim>\<open>ChunkServer.cpp\<close> that refill zones and remove corpses. The mob
  instances are part of the state because every spawn registers its mob there. \<open>epoch\<close> is the system clock in seconds; the
  cosine and sine of an angle are arguments.
\<close>

record SpawnZoneMobEntry =
  se_szmId :: int
  se_mobId :: int
  se_maxCount :: int
  se_respawnTime :: int

record SpawnZoneStruct =
  sz_zoneId :: int
  sz_zoneName :: string
  sz_shape :: ZoneShape
  sz_minX :: float32
  sz_maxX :: float32
  sz_minY :: float32
  sz_maxY :: float32
  sz_minZ :: float32
  sz_maxZ :: float32
  sz_centerX :: float32
  sz_centerY :: float32
  sz_innerRadius :: float32
  sz_outerRadius :: float32
  sz_exclusionGameZoneId :: int
  sz_mobEntries :: "SpawnZoneMobEntry list"
  sz_spawnEnabled :: bool
  sz_spawnedMobsCount :: int
  sz_spawnedMobsUIDList :: "int list"
  sz_spawnedMobsList :: "MobDataStruct list"

definition default_spawn_zone :: SpawnZoneStruct where
  "default_spawn_zone = \<lparr>sz_zoneId = 0, sz_zoneName = [], sz_shape = RECT, sz_minX = 0, sz_maxX = 0, sz_minY = 0, sz_maxY = 0,
     sz_minZ = 0, sz_maxZ = 0, sz_centerX = 0, sz_centerY = 0, sz_innerRadius = 0, sz_outerRadius = 0,
     sz_exclusionGameZoneId = 0, sz_mobEntries = [], sz_spawnEnabled = True, sz_spawnedMobsCount = 0,
     sz_spawnedMobsUIDList = [], sz_spawnedMobsList = []\<rparr>"

definition totalSpawnCount :: "SpawnZoneStruct \<Rightarrow> int" where
  "totalSpawnCount z = sum_i32 0 (map se_maxCount (sz_mobEntries z))"

definition hasSpawnConfig :: "SpawnZoneStruct \<Rightarrow> bool" where
  "hasSpawnConfig z \<longleftrightarrow> sz_mobEntries z \<noteq> []"

definition minRespawnTime :: "SpawnZoneStruct \<Rightarrow> int" where
  "minRespawnTime z = fold (\<lambda>e best. min best (se_respawnTime e)) (sz_mobEntries z) 3600"

record spawn_world =
  zw_zones :: "(int \<times> SpawnZoneStruct) list"
  zw_instances :: "mob_instances option"
  zw_nextMobUID :: int

record spawn_env =
  sv_templates :: mob_manager
  sv_epoch :: int
  sv_cos :: "float32 \<Rightarrow> float32"
  sv_sin :: "float32 \<Rightarrow> float32"

section \<open>Loading and look-up\<close>

definition loadMobSpawnZones :: "SpawnZoneStruct list \<Rightarrow> spawn_world \<Rightarrow> spawn_world" where
  "loadMobSpawnZones rows w = w\<lparr>zw_zones := fold (\<lambda>row. omap_put (sz_zoneId row)
     (row\<lparr>sz_spawnEnabled := True, sz_spawnedMobsCount := 0, sz_spawnedMobsUIDList := [], sz_spawnedMobsList := []\<rparr>)) rows (zw_zones w)\<rparr>"

text \<open>The fields of a row that are copied; the zone id is not among them.\<close>

definition loaded_mob :: "MobDataStruct \<Rightarrow> MobDataStruct" where
  "loaded_mob row = default_mob\<lparr>mb_id := mb_id row, mb_name := mb_name row, mb_level := mb_level row,
     mb_raceName := mb_raceName row, mb_currentHealth := mb_currentHealth row, mb_currentMana := mb_currentMana row,
     mb_isAggressive := mb_isAggressive row, mb_isDead := mb_isDead row, mb_aggroRange := mb_aggroRange row,
     mb_attackRange := mb_attackRange row, mb_attackCooldown := mb_attackCooldown row,
     mb_chaseMultiplier := mb_chaseMultiplier row, mb_patrolSpeed := mb_patrolSpeed row, mb_isSocial := mb_isSocial row,
     mb_chaseDuration := mb_chaseDuration row, mb_canEvolve := mb_canEvolve row, mb_isRare := mb_isRare row,
     mb_rareSpawnChance := mb_rareSpawnChance row, mb_rareSpawnCondition := mb_rareSpawnCondition row,
     mb_factionSlug := mb_factionSlug row, mb_repDeltaPerKill := mb_repDeltaPerKill row\<rparr>"

definition zone_or_new :: "int \<Rightarrow> (int \<times> SpawnZoneStruct) list \<Rightarrow> SpawnZoneStruct" where
  "zone_or_new k zs = (case map_of zs k of Some z \<Rightarrow> z | None \<Rightarrow> default_spawn_zone)"

definition loadMobsInSpawnZones :: "MobDataStruct list \<Rightarrow> spawn_world \<Rightarrow> spawn_world" where
  "loadMobsInSpawnZones rows w = w\<lparr>zw_zones := fold (\<lambda>row zs.
     let m = loaded_mob row; z = zone_or_new (mb_zoneId m) zs
     in omap_put (mb_zoneId m) (z\<lparr>sz_spawnedMobsList := sz_spawnedMobsList z @ [m]\<rparr>) zs) rows (zw_zones w)\<rparr>"

definition getMobSpawnZones :: "spawn_world \<Rightarrow> (int \<times> SpawnZoneStruct) list" where
  "getMobSpawnZones w = zw_zones w"

definition getMobSpawnZoneByID :: "spawn_world \<Rightarrow> int \<Rightarrow> SpawnZoneStruct" where
  "getMobSpawnZoneByID w zoneId = zone_or_new zoneId (zw_zones w)"

definition getMobsInZone :: "spawn_world \<Rightarrow> int \<Rightarrow> MobDataStruct list" where
  "getMobsInZone w zoneId = (case map_of (zw_zones w) zoneId of Some z \<Rightarrow> sz_spawnedMobsList z | None \<Rightarrow> [])"

definition getMobByUID :: "spawn_world \<Rightarrow> int \<Rightarrow> MobDataStruct" where
  "getMobByUID w uid =
     (case zw_instances w of
        Some mi \<Rightarrow> getMobInstance mi uid
      | None \<Rightarrow> (case find (\<lambda>m. mb_uid m = uid) (concat (map (\<lambda>(k, z). sz_spawnedMobsList z) (zw_zones w))) of
          Some m \<Rightarrow> m | None \<Rightarrow> default_mob))"

section \<open>Sampling a position\<close>

definition UNIT_MAX :: float32 where
  "UNIT_MAX = 16777215 / 16777216"

text \<open>A point at a distance from the centre, in the direction of an angle.\<close>

definition polar :: "spawn_env \<Rightarrow> SpawnZoneStruct \<Rightarrow> float32 \<Rightarrow> float32 \<Rightarrow> float32 \<times> float32" where
  "polar env z r angle = (fl32 (sz_centerX z + fl32 (r * sv_cos env angle)), fl32 (sz_centerY z + fl32 (r * sv_sin env angle)))"

definition annulus_radius :: "SpawnZoneStruct \<Rightarrow> float32 \<Rightarrow> float32" where
  "annulus_radius z u =
     (let r2in = fl32 (sz_innerRadius z * sz_innerRadius z); r2out = fl32 (sz_outerRadius z * sz_outerRadius z)
      in sqrt32 (fl32 (r2in + fl32 (u * fl32 (r2out - r2in)))))"

definition sampleRect :: "SpawnZoneStruct \<Rightarrow> float32 stream \<Rightarrow> (float32 \<times> float32) \<times> float32 stream" where
  "sampleRect z g =
     ((fl32 (sz_minX z + fl32 (uniform_real 0 UNIT_MAX (shd g) * fl32 (sz_maxX z - sz_minX z))),
       fl32 (sz_minY z + fl32 (uniform_real 0 UNIT_MAX (shd (stl g)) * fl32 (sz_maxY z - sz_minY z)))), stl (stl g))"

definition sampleCircle :: "spawn_env \<Rightarrow> SpawnZoneStruct \<Rightarrow> float32 stream \<Rightarrow> (float32 \<times> float32) \<times> float32 stream" where
  "sampleCircle env z g =
     (let angle = uniform_real 0 TWO_PI (shd g); r = fl32 (sz_outerRadius z * sqrt32 (uniform_real 0 UNIT_MAX (shd (stl g))))
      in (polar env z r angle, stl (stl g)))"

definition sampleAnnulus :: "spawn_env \<Rightarrow> SpawnZoneStruct \<Rightarrow> float32 stream \<Rightarrow> (float32 \<times> float32) \<times> float32 stream" where
  "sampleAnnulus env z g =
     (let angle = uniform_real 0 TWO_PI (shd g); r = annulus_radius z (uniform_real 0 UNIT_MAX (shd (stl g)))
      in (polar env z r angle, stl (stl g)))"

definition sampleAnnulusStratified ::
  "spawn_env \<Rightarrow> SpawnZoneStruct \<Rightarrow> int \<Rightarrow> int \<Rightarrow> float32 stream \<Rightarrow> (float32 \<times> float32) \<times> float32 stream" where
  "sampleAnnulusStratified env z slotIdx totalSlots g =
     (let sectorSize = fl32 (TWO_PI / fl32 (of_int totalSlots));
          sectorStart = fl32 (fl32 (of_int slotIdx) * sectorSize);
          angle = fl32 (sectorStart + uniform_real 0 sectorSize (shd g));
          r = annulus_radius z (uniform_real 0 UNIT_MAX (shd (stl g)))
      in (polar env z r angle, stl (stl g)))"

definition sample_point ::
  "spawn_env \<Rightarrow> SpawnZoneStruct \<Rightarrow> int \<Rightarrow> int \<Rightarrow> bool \<Rightarrow> float32 stream \<Rightarrow> (float32 \<times> float32) \<times> float32 stream" where
  "sample_point env z i needed first g =
     (case sz_shape z of
        CIRCLE \<Rightarrow> sampleCircle env z g
      | ANNULUS \<Rightarrow> if 1 < needed \<and> first then sampleAnnulusStratified env z i needed g else sampleAnnulus env z g
      | RECT \<Rightarrow> sampleRect z g)"

definition too_close :: "float32 \<Rightarrow> float32 \<times> float32 \<Rightarrow> PositionStruct \<Rightarrow> bool" where
  "too_close sep c occ =
     (let ddx = fl32 (fst c - positionX occ); ddy = fl32 (snd c - positionY occ)
      in fl32 (fl32 (ddx * ddx) + fl32 (ddy * ddy)) < fl32 (sep * sep))"

fun find_position ::
  "spawn_env \<Rightarrow> SpawnZoneStruct \<Rightarrow> int \<Rightarrow> int \<Rightarrow> float32 \<Rightarrow> PositionStruct list \<Rightarrow> nat \<Rightarrow> bool \<Rightarrow> float32 stream
   \<Rightarrow> (float32 \<times> float32) option \<times> float32 stream" where
  "find_position env z i needed sep occupied 0 first g = (None, g)"
| "find_position env z i needed sep occupied (Suc n) first g =
     (let (c, g1) = sample_point env z i needed first g in
      if list_ex (too_close sep c) occupied then find_position env z i needed sep occupied n False g1 else (Some c, g1))"

section \<open>Spawning\<close>

definition MAX_SPAWN_ATTEMPTS :: nat where
  "MAX_SPAWN_ATTEMPTS = 20"

definition separation :: "MobDataStruct \<Rightarrow> float32" where
  "separation m = (if 0 < mb_radius m then fl32 (fl32 (fl32 (of_int (mb_radius m)) * 2) + 50) else 140)"

definition generateUniqueMobUID :: "spawn_world \<Rightarrow> int \<times> spawn_world" where
  "generateUniqueMobUID w = (zw_nextMobUID w, w\<lparr>zw_nextMobUID := wrap32 (zw_nextMobUID w + 1)\<rparr>)"

definition register_in :: "MobDataStruct \<Rightarrow> spawn_world \<Rightarrow> spawn_world" where
  "register_in m w = w\<lparr>zw_instances := map_option (\<lambda>mi. snd (registerMobInstance m mi)) (zw_instances w)\<rparr>"

definition in_zone_lists :: "int \<Rightarrow> MobDataStruct \<Rightarrow> spawn_world \<Rightarrow> spawn_world" where
  "in_zone_lists zoneId m w = w\<lparr>zw_zones := umap_modify zoneId (\<lambda>z.
     z\<lparr>sz_spawnedMobsUIDList := sz_spawnedMobsUIDList z @ [mb_uid m], sz_spawnedMobsList := sz_spawnedMobsList z @ [m],
       sz_spawnedMobsCount := wrap32 (sz_spawnedMobsCount z + 1)\<rparr>) (zw_zones w)\<rparr>"

text \<open>What the loop carries: the engine, the occupied positions, the mobs spawned so far and the world.\<close>

type_synonym spawning = "float32 stream \<times> PositionStruct list \<times> MobDataStruct list \<times> spawn_world"

definition placed_mob ::
  "spawn_env \<Rightarrow> SpawnZoneStruct \<Rightarrow> int \<Rightarrow> MobDataStruct \<Rightarrow> float32 \<times> float32 \<Rightarrow> int \<Rightarrow> float32 \<Rightarrow> MobDataStruct" where
  "placed_mob env z zoneId template c uid r = template\<lparr>mb_zoneId := zoneId,
     mb_position := (mb_position template)\<lparr>positionX := fst c, positionY := snd c,
       positionZ := fl32 (fl32 (sz_minZ z + sz_maxZ z) * (1 / 2)), rotationZ := uniform_real 0 360 r\<rparr>,
     mb_uid := uid, mb_spawnEpochSec := sv_epoch env\<rparr>"

definition place_mob ::
  "spawn_env \<Rightarrow> SpawnZoneStruct \<Rightarrow> int \<Rightarrow> MobDataStruct \<Rightarrow> float32 \<times> float32 \<Rightarrow> spawning \<Rightarrow> spawning" where
  "place_mob env z zoneId template c st =
     (case st of (g, occupied, mobs, w) \<Rightarrow>
        let (uid, w1) = generateUniqueMobUID w; m = placed_mob env z zoneId template c uid (shd g)
        in (stl g, occupied @ [mb_position m], mobs @ [m], register_in m (in_zone_lists zoneId m w1)))"

lemma placed_mob_simps [simp]:
  "mb_uid (placed_mob env z zoneId t c uid r) = uid" "mb_zoneId (placed_mob env z zoneId t c uid r) = zoneId"
  "mb_id (placed_mob env z zoneId t c uid r) = mb_id t" "separation (placed_mob env z zoneId t c uid r) = separation t"
  "positionX (mb_position (placed_mob env z zoneId t c uid r)) = fst c"
  "positionY (mb_position (placed_mob env z zoneId t c uid r)) = snd c"
  by (simp_all add: placed_mob_def separation_def)

lemma place_mob_eq:
  "place_mob env z zoneId template c (g, occ, mobs, w) =
     (let m = placed_mob env z zoneId template c (zw_nextMobUID w) (shd g) in
      (stl g, occ @ [mb_position m], mobs @ [m],
       register_in m (in_zone_lists zoneId m (w\<lparr>zw_nextMobUID := wrap32 (zw_nextMobUID w + 1)\<rparr>))))"
  by (simp add: place_mob_def generateUniqueMobUID_def Let_def)

text \<open>\<open>left\<close> of the \<open>needed\<close> mobs of one entry are still to come; the flag says that the template is missing.\<close>

fun spawn_entry ::
  "spawn_env \<Rightarrow> SpawnZoneStruct \<Rightarrow> int \<Rightarrow> SpawnZoneMobEntry \<Rightarrow> int \<Rightarrow> nat \<Rightarrow> spawning \<Rightarrow> bool \<times> spawning" where
  "spawn_entry env z zoneId e needed 0 st = (False, st)"
| "spawn_entry env z zoneId e needed (Suc left) st =
     (let template = getMobById (sv_templates env) (se_mobId e) in
      if mb_id template = 0 \<or> mb_name template = [] then (True, st)
      else
        case st of (g, occupied, mobs, w) \<Rightarrow>
          (case find_position env z (needed - int (Suc left)) needed (separation template) occupied MAX_SPAWN_ATTEMPTS True g of
             (None, g1) \<Rightarrow> spawn_entry env z zoneId e needed left (g1, occupied, mobs, w)
           | (Some c, g1) \<Rightarrow> spawn_entry env z zoneId e needed left (place_mob env z zoneId template c (g1, occupied, mobs, w))))"

fun spawn_entries ::
  "spawn_env \<Rightarrow> SpawnZoneStruct \<Rightarrow> int \<Rightarrow> (int \<Rightarrow> int) \<Rightarrow> SpawnZoneMobEntry list \<Rightarrow> spawning \<Rightarrow> spawning" where
  "spawn_entries env z zoneId aliveByType [] st = st"
| "spawn_entries env z zoneId aliveByType (e # es) st =
     (let needed = wrap32 (se_maxCount e - aliveByType (se_mobId e));
          (missing, st') = spawn_entry env z zoneId e needed (nat needed) st
      in if missing then st' else spawn_entries env z zoneId aliveByType es st')"

definition alive_of_type :: "MobDataStruct list \<Rightarrow> int \<Rightarrow> int" where
  "alive_of_type ms t = int (length (filter (\<lambda>m. alive m \<and> mb_id m = t) ms))"

definition mobs_of_zone :: "spawn_world \<Rightarrow> int \<Rightarrow> MobDataStruct list" where
  "mobs_of_zone w zoneId = (case zw_instances w of Some mi \<Rightarrow> getMobInstancesInZone mi zoneId
     | None \<Rightarrow> (case map_of (zw_zones w) zoneId of Some z \<Rightarrow> sz_spawnedMobsList z | None \<Rightarrow> []))"

definition spawnMobsInZone ::
  "spawn_env \<Rightarrow> int \<Rightarrow> float32 stream \<Rightarrow> spawn_world \<Rightarrow> MobDataStruct list \<times> spawn_world" where
  "spawnMobsInZone env zoneId g w =
     (case map_of (zw_zones w) zoneId of None \<Rightarrow> ([], w)
      | Some z \<Rightarrow>
        let occupied = (case zw_instances w of None \<Rightarrow> [] | Some mi \<Rightarrow> map snd (getMobPositionsInZone mi zoneId));
            (g', occ', mobs, w') = spawn_entries env z zoneId (alive_of_type (mobs_of_zone w zoneId)) (sz_mobEntries z) (g, occupied, [], w)
        in (mobs, w'))"

section \<open>Deaths\<close>

text \<open>The search stops at the first zone that lists the uid.\<close>

definition forget_mob :: "int \<Rightarrow> SpawnZoneStruct \<Rightarrow> SpawnZoneStruct" where
  "forget_mob uid z = z\<lparr>sz_spawnedMobsList := del_first (\<lambda>m. mb_uid m = uid) (sz_spawnedMobsList z),
     sz_spawnedMobsUIDList := del_first (\<lambda>u. u = uid) (sz_spawnedMobsUIDList z)\<rparr>"

definition removeMobByUIDInternal :: "int \<Rightarrow> spawn_world \<Rightarrow> spawn_world" where
  "removeMobByUIDInternal uid w = w\<lparr>zw_zones :=
     upd_first (\<lambda>(k, z). list_ex (\<lambda>m. mb_uid m = uid) (sz_spawnedMobsList z)) (\<lambda>(k, z). (k, forget_mob uid z)) (zw_zones w)\<rparr>"

definition unregister_in :: "int \<Rightarrow> spawn_world \<Rightarrow> spawn_world" where
  "unregister_in uid w = w\<lparr>zw_instances := map_option (unregisterMobInstance uid) (zw_instances w)\<rparr>"

definition removeMobByUID :: "int \<Rightarrow> spawn_world \<Rightarrow> spawn_world" where
  "removeMobByUID uid w = unregister_in uid (removeMobByUIDInternal uid w)"

definition mobDied :: "int \<Rightarrow> int \<Rightarrow> spawn_world \<Rightarrow> spawn_world" where
  "mobDied zoneId uid w =
     (let w1 = (if map_of (zw_zones w) zoneId = None then w
                else (let w0 = removeMobByUIDInternal uid w
                      in w0\<lparr>zw_zones := umap_modify zoneId (\<lambda>z. z\<lparr>sz_spawnedMobsCount := wrap32 (sz_spawnedMobsCount z - 1)\<rparr>) (zw_zones w0)\<rparr>))
      in unregister_in uid w1)"

section \<open>The periodic tasks\<close>

text \<open>\<^verbatim>\<open>respawnMobTask\<close>: every zone that is not full is refilled, whatever its respawn times say.\<close>

definition respawn_zone :: "spawn_env \<Rightarrow> float32 stream \<Rightarrow> int \<times> SpawnZoneStruct \<Rightarrow> spawn_world \<Rightarrow> spawn_world" where
  "respawn_zone env g kz w =
     (let z = snd kz in
      if \<not> sz_spawnEnabled z \<or> \<not> hasSpawnConfig z then w
      else case zw_instances w of None \<Rightarrow> w
        | Some mi \<Rightarrow> if getAliveMobCountInZone mi (sz_zoneId z) < totalSpawnCount z
            then snd (spawnMobsInZone env (sz_zoneId z) g w) else w)"

definition respawnMobTask :: "spawn_env \<Rightarrow> (int \<Rightarrow> float32 stream) \<Rightarrow> spawn_world \<Rightarrow> spawn_world" where
  "respawnMobTask env engine w = fold (\<lambda>kz. respawn_zone env (engine (fst kz)) kz) (zw_zones w) w"

text \<open>\<^verbatim>\<open>deadMobCleanupTask\<close>: corpses go after a minute.\<close>

definition CORPSE_DURATION_MS :: int where
  "CORPSE_DURATION_MS = 60000"

definition corpse_over :: "int \<Rightarrow> MobDataStruct \<Rightarrow> bool" where
  "corpse_over now m \<longleftrightarrow> \<not> alive m \<and>
     \<not> (mb_deathTimestamp m \<noteq> 0 \<and> (now - mb_deathTimestamp m) div 1000000 < CORPSE_DURATION_MS)"

definition clean_zone :: "int \<Rightarrow> int \<times> SpawnZoneStruct \<Rightarrow> spawn_world \<Rightarrow> spawn_world" where
  "clean_zone now kz w =
     (if \<not> sz_spawnEnabled (snd kz) then w
      else case zw_instances w of None \<Rightarrow> w
        | Some mi \<Rightarrow> fold (\<lambda>m. mobDied (sz_zoneId (snd kz)) (mb_uid m))
            (filter (corpse_over now) (getMobInstancesInZone mi (sz_zoneId (snd kz)))) w)"

definition deadMobCleanupTask :: "int \<Rightarrow> spawn_world \<Rightarrow> spawn_world" where
  "deadMobCleanupTask now w = fold (clean_zone now) (zw_zones w) w"

section \<open>The instances of a zone\<close>

definition lookup_mobs :: "mob_instances \<Rightarrow> int list \<Rightarrow> MobDataStruct list" where
  "lookup_mobs mi uids = concat (map (\<lambda>uid. case map_of (mi_mobInstances mi) uid of Some m \<Rightarrow> [m] | None \<Rightarrow> []) uids)"

lemma instances_lookup: "getMobInstancesInZone mi z = lookup_mobs mi (zone_uids mi z)"
  by (simp add: getMobInstancesInZone_def lookup_mobs_def)

lemma register_zone:
  assumes "mobs_ok mi" "map_of (mi_mobInstances mi) (mb_uid m) = None" "mb_zoneId m \<noteq> 0" "z \<noteq> 0"
  defines "mi' \<equiv> snd (registerMobInstance m mi)"
  shows "getMobInstancesInZone mi' z = getMobInstancesInZone mi z @ (if mb_zoneId m = z then [m] else [])"
    and "mobs_ok mi'" "map_of (mi_mobInstances mi') = (map_of (mi_mobInstances mi))(mb_uid m \<mapsto> m)"
proof -
  have mi': "mi' = mi\<lparr>mi_mobInstances := umap_put (mb_uid m) m (mi_mobInstances mi),
      mi_mobsByZone := updateZoneIndex (mb_uid m) 0 (mb_zoneId m) (mi_mobsByZone mi)\<rparr>"
    using assms(2) by (simp add: mi'_def registerMobInstance_def)
  show "mobs_ok mi'" using register_ok[OF assms(1), of m True mi'] assms(2) by (simp add: mi'_def registerMobInstance_def)
  show "map_of (mi_mobInstances mi') = (map_of (mi_mobInstances mi))(mb_uid m \<mapsto> m)" by (simp add: mi')
  have uids: "zone_uids mi' z = zone_uids mi z @ (if mb_zoneId m = z then [mb_uid m] else [])"
    using assms(3,4) by (auto simp: mi' zone_uids_def updateZoneIndex_def Let_def split: option.split)
  have "mb_uid m \<notin> set (zone_uids mi z)" using assms(1,2,4) by (auto simp: mobs_ok_def in_zone_def)
  then have "lookup_mobs mi' (zone_uids mi z) = lookup_mobs mi (zone_uids mi z)"
    unfolding lookup_mobs_def mi' by (intro arg_cong[where f = concat] map_cong) auto
  then show "getMobInstancesInZone mi' z = getMobInstancesInZone mi z @ (if mb_zoneId m = z then [m] else [])"
    by (simp add: instances_lookup uids) (simp add: lookup_mobs_def mi')
qed

lemma unregister_zone:
  assumes "mobs_ok mi" "z \<noteq> 0"
  shows "getMobInstancesInZone (unregisterMobInstance uid mi) z = filter (\<lambda>m. mb_uid m \<noteq> uid) (getMobInstancesInZone mi z)"
proof (cases "map_of (mi_mobInstances mi) uid")
  case None
  have "filter (\<lambda>m. mb_uid m \<noteq> uid) (lookup_mobs mi l) = lookup_mobs mi l" for l
    using assms(1) None by (intro filter_absent) (auto simp: lookup_mobs_def mobs_ok_def split: option.splits)
  with None show ?thesis by (simp add: unregisterMobInstance_def instances_lookup)
next
  case (Some m)
  have m: "map_of (mi_mobInstances mi) u = Some x \<Longrightarrow> mb_uid x = u" for u x using assms(1) by (simp add: mobs_ok_def)
  define mi' where "mi' = unregisterMobInstance uid mi"
  have mi': "mi' = mi\<lparr>mi_mobsByZone := updateZoneIndex uid (mb_zoneId m) 0 (mi_mobsByZone mi), mi_mobInstances := omap_erase uid (mi_mobInstances mi)\<rparr>"
    using Some by (simp add: mi'_def unregisterMobInstance_def)
  have l: "set (zone_uids mi z) = in_zone mi z" using assms by (simp add: mobs_ok_def)
  have "uid \<notin> set (zone_uids mi z)" if "mb_zoneId m \<noteq> z" using that Some by (simp add: l in_zone_def)
  then have "zone_uids mi' z = filter (\<lambda>u. u \<noteq> uid) (zone_uids mi z)"
    using assms(2) by (cases "mb_zoneId m = z")
      (auto simp: mi' zone_uids_def updateZoneIndex_def Let_def filter_absent[where f = id, simplified] split: option.splits)
  moreover have "lookup_mobs mi' (filter (\<lambda>u. u \<noteq> uid) us) = filter (\<lambda>m. mb_uid m \<noteq> uid) (lookup_mobs mi us)" for us
    unfolding lookup_mobs_def by (induction us) (auto simp: mi' dest: m split: option.split)
  ultimately show ?thesis by (simp add: instances_lookup flip: mi'_def)
qed

section \<open>Quotas\<close>

text \<open>The state of a spawning loop: everything spawned so far is registered, after the mobs that were there.\<close>

definition spawn_inv :: "MobDataStruct list \<Rightarrow> int \<Rightarrow> int \<Rightarrow> spawning \<Rightarrow> bool" where
  "spawn_inv old first zoneId st \<longleftrightarrow> (case st of (g, occupied, mobs, w) \<Rightarrow>
     (\<exists>mi. zw_instances w = Some mi \<and> mobs_ok mi \<and> getMobInstancesInZone mi zoneId = old @ mobs \<and>
        (\<forall>uid. map_of (mi_mobInstances mi) uid \<noteq> None \<longrightarrow> uid < zw_nextMobUID w)) \<and>
     zw_nextMobUID w = first + int (length mobs))"

lemma spawn_inv_engine: "spawn_inv old first zoneId (g, occ, mobs, w) = spawn_inv old first zoneId (g', occ', mobs, w)"
  unfolding spawn_inv_def prod.case by (rule refl)

lemma place_inv:
  assumes "spawn_inv old first zoneId (g, occ, mobs, w)" "zoneId \<noteq> 0" "- INT_LIM \<le> first" "first + int (length mobs) + 1 < INT_LIM"
  shows "spawn_inv old first zoneId (place_mob env z zoneId template c (g, occ, mobs, w))"
proof -
  obtain mi where mi: "zw_instances w = Some mi" "mobs_ok mi" "getMobInstancesInZone mi zoneId = old @ mobs"
    "\<And>uid. map_of (mi_mobInstances mi) uid \<noteq> None \<Longrightarrow> uid < zw_nextMobUID w" and n: "zw_nextMobUID w = first + int (length mobs)"
    using assms(1) by (auto simp: spawn_inv_def)
  define m where "m = placed_mob env z zoneId template c (zw_nextMobUID w) (shd g)"
  have st: "place_mob env z zoneId template c (g, occ, mobs, w)
      = (stl g, occ @ [mb_position m], mobs @ [m], register_in m (in_zone_lists zoneId m (w\<lparr>zw_nextMobUID := wrap32 (zw_nextMobUID w + 1)\<rparr>)))"
    unfolding m_def by (simp add: place_mob_eq Let_def)
  have fresh: "map_of (mi_mobInstances mi) (mb_uid m) = None" by (rule ccontr) (use mi(4)[of "mb_uid m"] in \<open>simp add: m_def\<close>)
  have z: "mb_zoneId m = zoneId" by (simp add: m_def)
  have w: "wrap32 (zw_nextMobUID w + 1) = zw_nextMobUID w + 1" using assms(3,4) n by (intro wrap32_id) (simp add: in_i32_def)
  note r = register_zone[OF mi(2) fresh, of zoneId, unfolded z, OF assms(2,2)]
  define mi' where "mi' = snd (registerMobInstance m mi)"
  have get': "map_of (mi_mobInstances mi') uid = (if uid = mb_uid m then Some m else map_of (mi_mobInstances mi) uid)" for uid
    by (simp add: mi'_def r(3))
  have uid: "mb_uid m = zw_nextMobUID w" by (simp add: m_def)
  have below: "uid < zw_nextMobUID w + 1" if "map_of (mi_mobInstances mi') uid \<noteq> None" for uid
    using that mi(4)[of uid] unfolding get' uid by (cases "uid = zw_nextMobUID w") auto
  have w': "zw_instances (register_in m (in_zone_lists zoneId m (w\<lparr>zw_nextMobUID := wrap32 (zw_nextMobUID w + 1)\<rparr>))) = Some mi'"
    "zw_nextMobUID (register_in m (in_zone_lists zoneId m (w\<lparr>zw_nextMobUID := wrap32 (zw_nextMobUID w + 1)\<rparr>))) = zw_nextMobUID w + 1"
    by (simp_all add: register_in_def in_zone_lists_def mi(1) mi'_def w)
  show ?thesis
    unfolding st spawn_inv_def prod.case w' using r(1,2) below by (simp add: mi(3) n flip: mi'_def)
qed

text \<open>One entry spawns at most what is left, all of its own type.\<close>

lemma place_mobs: "snd (snd (place_mob env z zoneId template c (g, occ, mobs, w))) = (mobs', w') \<Longrightarrow>
    \<exists>m. mobs' = mobs @ [m] \<and> mb_id m = mb_id template"
  by (auto simp: place_mob_eq Let_def)

lemma spawn_entry_effect:
  assumes "spawn_entry env z zoneId e needed left (g, occ, mobs, w) = (missing, g', occ', mobs', w')"
    and "templates_ok (sv_templates env)"
  shows "\<exists>new. mobs' = mobs @ new \<and> length new \<le> left \<and> list_all (\<lambda>m. mb_id m = se_mobId e) new"
  using assms(1)
proof (induction left arbitrary: g occ mobs w)
  case (Suc left)
  let ?t = "getMobById (sv_templates env) (se_mobId e)"
  show ?case
  proof (cases "mb_id ?t = 0 \<or> mb_name ?t = []")
    case False
    have id: "mb_id ?t = se_mobId e"
    proof -
      have "map_of (mm_mobs (sv_templates env)) (se_mobId e) = Some ?t" using False by (auto simp: getMobById_def default_mob_def split: option.splits)
      moreover have "list_all (\<lambda>(k, m). mb_id m = k) (mm_mobs (sv_templates env))" using assms(2) by (simp add: templates_ok_def)
      ultimately show ?thesis using list_all_map_of[where P = "\<lambda>k m. mb_id m = k"] by blast
    qed
    obtain c g1 where f: "find_position env z (needed - int (Suc left)) needed (separation ?t) occ MAX_SPAWN_ATTEMPTS True g = (c, g1)" by fastforce
    show ?thesis
    proof (cases c)
      case None
      with Suc.prems f False have "spawn_entry env z zoneId e needed left (g1, occ, mobs, w) = (missing, g', occ', mobs', w')" by simp
      from Suc.IH[OF this] show ?thesis by fastforce
    next
      case (Some p)
      obtain g2 occ2 mobs2 w2 where pl: "place_mob env z zoneId ?t p (g1, occ, mobs, w) = (g2, occ2, mobs2, w2)" by (metis surj_pair)
      obtain m where m: "mobs2 = mobs @ [m]" "mb_id m = mb_id ?t" using place_mobs[of env z zoneId ?t p g1 occ mobs w mobs2 w2] pl by auto
      have "spawn_entry env z zoneId e needed left (g2, occ2, mobs2, w2) = (missing, g', occ', mobs', w')"
        using Suc.prems f False Some pl by simp
      from Suc.IH[OF this] show ?thesis using m id by fastforce
    qed
  qed (use Suc.prems in auto)
qed simp

lemma spawn_entry_inv:
  assumes "spawn_inv old first zoneId st" "zoneId \<noteq> 0" "- INT_LIM \<le> first"
    and "first + int (length (fst (snd (snd st)))) + int left < INT_LIM"
  shows "spawn_inv old first zoneId (snd (spawn_entry env z zoneId e needed left st))"
  using assms(1,4)
proof (induction left arbitrary: st)
  case (Suc left)
  obtain g occ mobs w where st: "st = (g, occ, mobs, w)" by (metis surj_pair)
  let ?t = "getMobById (sv_templates env) (se_mobId e)"
  obtain c g1 where f: "find_position env z (needed - int (Suc left)) needed (separation ?t) occ MAX_SPAWN_ATTEMPTS True g = (c, g1)" by fastforce
  have i1: "spawn_inv old first zoneId (g1, occ, mobs, w)" using Suc.prems(1) spawn_inv_engine unfolding st by metis
  have none: "spawn_inv old first zoneId (snd (spawn_entry env z zoneId e needed left (g1, occ, mobs, w)))"
    using Suc.IH[OF i1] Suc.prems(2) by (simp add: st)
  have some: "spawn_inv old first zoneId (snd (spawn_entry env z zoneId e needed left (place_mob env z zoneId ?t p (g1, occ, mobs, w))))" for p
  proof (rule Suc.IH)
    show "spawn_inv old first zoneId (place_mob env z zoneId ?t p (g1, occ, mobs, w))"
      using i1 assms(2,3) Suc.prems(2) by (intro place_inv) (simp_all add: st)
    show "first + int (length (fst (snd (snd (place_mob env z zoneId ?t p (g1, occ, mobs, w)))))) + int left < INT_LIM"
      using Suc.prems(2) by (simp add: st place_mob_def generateUniqueMobUID_def Let_def)
  qed
  show ?case using Suc.prems(1) none some by (auto simp: st f[simplified] Let_def split: option.split)
qed simp

definition quota :: "SpawnZoneMobEntry list \<Rightarrow> int \<Rightarrow> int" where
  "quota es t = (case find (\<lambda>e. se_mobId e = t) es of Some e \<Rightarrow> se_maxCount e | None \<Rightarrow> 0)"

lemma alive_of_type_nonneg [simp]: "0 \<le> alive_of_type ms t"
  by (simp add: alive_of_type_def)

lemma alive_of_type_append: "alive_of_type (xs @ ys) t = alive_of_type xs t + alive_of_type ys t"
  by (simp add: alive_of_type_def)

lemma alive_of_type_le: "list_all (\<lambda>m. mb_id m = i) xs \<Longrightarrow> alive_of_type xs t \<le> (if t = i then int (length xs) else 0)"
  by (auto simp: alive_of_type_def list_all_iff intro: length_filter_le)

text \<open>What a whole pass may add, and that it keeps the books.\<close>

definition vacancies :: "(int \<Rightarrow> int) \<Rightarrow> SpawnZoneMobEntry list \<Rightarrow> nat" where
  "vacancies aliveByType es = sum_list (map (\<lambda>e. nat (se_maxCount e - aliveByType (se_mobId e))) es)"

lemma spawn_entries_effect:
  assumes "spawn_inv old first zoneId st" "zoneId \<noteq> 0" "- INT_LIM \<le> first" "templates_ok (sv_templates env)"
    and "first + int (length (fst (snd (snd st)))) + int (vacancies aliveByType es) < INT_LIM"
    and "list_all (\<lambda>e. in_i32 (se_maxCount e - aliveByType (se_mobId e))) es" "distinct (map se_mobId es)"
    and counts: "\<And>t. 0 \<le> aliveByType t"
  shows "spawn_inv old first zoneId (spawn_entries env z zoneId aliveByType es st) \<and>
    (\<exists>new. fst (snd (snd (spawn_entries env z zoneId aliveByType es st))) = fst (snd (snd st)) @ new \<and>
      (\<forall>t. alive_of_type new t \<le> max 0 (quota es t - aliveByType t)))"
  using assms(1,5-7)
proof (induction es arbitrary: st)
  case Nil
  then show ?case by (auto simp: alive_of_type_def)
next
  case (Cons e es)
  define needed where "needed = se_maxCount e - aliveByType (se_mobId e)"
  have nw: "wrap32 (se_maxCount e - aliveByType (se_mobId e)) = needed" using Cons.prems(3) by (simp add: needed_def)
  obtain g occ mobs w where st: "st = (g, occ, mobs, w)" by (metis surj_pair)
  obtain missing g' occ' mobs' w' where se: "spawn_entry env z zoneId e needed (nat needed) st = (missing, g', occ', mobs', w')" by (metis surj_pair)
  obtain new where new: "mobs' = mobs @ new" "length new \<le> nat needed" "list_all (\<lambda>m. mb_id m = se_mobId e) new"
    using spawn_entry_effect[of env z zoneId e needed "nat needed" g occ mobs w] se assms(4) by (auto simp: st)
  have v: "vacancies aliveByType (e # es) = nat needed + vacancies aliveByType es" by (simp add: vacancies_def needed_def)
  have "spawn_inv old first zoneId (snd (spawn_entry env z zoneId e needed (nat needed) st))"
    using Cons.prems(1,2) assms(2,3) by (intro spawn_entry_inv) (simp_all add: v)
  then have inv1: "spawn_inv old first zoneId (g', occ', mobs', w')" by (simp add: se)
  have alive1: "alive_of_type new t \<le> (if t = se_mobId e then max 0 (quota (e # es) t - aliveByType t) else 0)" for t
    using alive_of_type_le[OF new(3), of t] new(2) by (auto simp: quota_def needed_def split: if_splits)
  show ?case
  proof (cases missing)
    case True
    then have "spawn_entries env z zoneId aliveByType (e # es) st = (g', occ', mobs', w')" by (simp add: nw se)
    then show ?thesis using inv1 new(1) alive1 by (force simp: st split: if_splits)
  next
    case False
    then have step: "spawn_entries env z zoneId aliveByType (e # es) st = spawn_entries env z zoneId aliveByType es (g', occ', mobs', w')"
      by (simp add: nw se)
    have room: "first + int (length (mobs @ new)) + int (vacancies aliveByType es) < INT_LIM"
      using Cons.prems(2) of_nat_mono[OF new(2), where 'a = int] by (simp add: v st del: int_nat_eq)
    have "spawn_inv old first zoneId (spawn_entries env z zoneId aliveByType es (g', occ', mobs', w')) \<and>
      (\<exists>new. fst (snd (snd (spawn_entries env z zoneId aliveByType es (g', occ', mobs', w')))) = fst (snd (snd (g', occ', mobs', w'))) @ new \<and>
        (\<forall>t. alive_of_type new t \<le> max 0 (quota es t - aliveByType t)))"
      using inv1 Cons.prems(3,4) room by (intro Cons.IH) (simp_all add: new(1))
    then obtain new2 where new2: "spawn_inv old first zoneId (spawn_entries env z zoneId aliveByType es (g', occ', mobs', w'))"
      "fst (snd (snd (spawn_entries env z zoneId aliveByType es (g', occ', mobs', w')))) = mobs' @ new2"
      "\<And>t. alive_of_type new2 t \<le> max 0 (quota es t - aliveByType t)" by auto
    have "find (\<lambda>x. se_mobId x = se_mobId e) es = None" using Cons.prems(4) by (auto simp: find_None_iff) (metis imageI)
    then have q: "quota es (se_mobId e) = 0" by (simp add: quota_def)
    have "alive_of_type (new @ new2) t \<le> max 0 (quota (e # es) t - aliveByType t)" for t
    proof (cases "t = se_mobId e")
      case True
      then show ?thesis using alive1[of t] new2(3)[of t] q counts[of t]
        by (simp add: alive_of_type_append quota_def)
    next
      case False
      then show ?thesis using alive1[of t] new2(3)[of t] by (simp add: alive_of_type_append quota_def)
    qed
    then show ?thesis unfolding step using new2(1,2) new(1) by (auto simp: st)
  qed
qed

lemma spawn_pass:
  assumes "map_of (zw_zones w) zoneId = Some z" "zw_instances w = Some mi" "mobs_ok mi" "zoneId \<noteq> 0"
    and "\<forall>uid. map_of (mi_mobInstances mi) uid \<noteq> None \<longrightarrow> uid < zw_nextMobUID w" "- INT_LIM \<le> zw_nextMobUID w"
    and "templates_ok (sv_templates env)" "distinct (map se_mobId (sz_mobEntries z))"
    and "zw_nextMobUID w + int (vacancies (alive_of_type (getMobInstancesInZone mi zoneId)) (sz_mobEntries z)) < INT_LIM"
    and "list_all (\<lambda>e. in_i32 (se_maxCount e - alive_of_type (getMobInstancesInZone mi zoneId) (se_mobId e))) (sz_mobEntries z)"
    and "spawnMobsInZone env zoneId g w = (mobs, w')"
  shows "\<exists>mi'. zw_instances w' = Some mi' \<and> mobs_ok mi' \<and> getMobInstancesInZone mi' zoneId = getMobInstancesInZone mi zoneId @ mobs \<and>
     (\<forall>t. alive_of_type mobs t \<le> max 0 (quota (sz_mobEntries z) t - alive_of_type (getMobInstancesInZone mi zoneId) t))"
proof -
  define old where "old = getMobInstancesInZone mi zoneId"
  define occ where "occ = map snd (getMobPositionsInZone mi zoneId)"
  have zone: "mobs_of_zone w zoneId = old" by (simp add: mobs_of_zone_def assms(2) old_def)
  obtain g' occ' mobs1 w1 where se: "spawn_entries env z zoneId (alive_of_type old) (sz_mobEntries z) (g, occ, [], w) = (g', occ', mobs1, w1)"
    by (metis surj_pair)
  have r: "mobs1 = mobs" "w1 = w'" using assms(11) by (simp_all add: spawnMobsInZone_def assms(1,2) zone se occ_def[symmetric])
  have "spawn_inv old (zw_nextMobUID w) zoneId (g, occ, [], w)"
    using assms(2,3,5) by (simp add: spawn_inv_def old_def)
  then have "spawn_inv old (zw_nextMobUID w) zoneId (g', occ', mobs, w') \<and>
      (\<exists>new. mobs = [] @ new \<and> (\<forall>t. alive_of_type new t \<le> max 0 (quota (sz_mobEntries z) t - alive_of_type old t)))"
    using spawn_entries_effect[of old "zw_nextMobUID w" zoneId "(g, occ, [], w)" env "alive_of_type old" "sz_mobEntries z" z] assms(4,6-10)
    by (simp add: se r flip: old_def)
  then show ?thesis unfolding spawn_inv_def prod.case old_def by auto
qed

text \<open>C32: A spawning pass fills the vacancies of a zone and never more: afterwards each mob type has at most as many living
  mobs as its quota, or as many as it had before if that was more; the mobs that were there stay, the new ones are
  registered in the zone, and the books of the instance manager stay exact.\<close>

theorem spawn_keeps_quota:
  assumes "map_of (zw_zones w) zoneId = Some z" "zw_instances w = Some mi" "mobs_ok mi" "zoneId \<noteq> 0"
    and "\<forall>uid. map_of (mi_mobInstances mi) uid \<noteq> None \<longrightarrow> uid < zw_nextMobUID w" "- INT_LIM \<le> zw_nextMobUID w"
    and "templates_ok (sv_templates env)" "distinct (map se_mobId (sz_mobEntries z))"
    and "zw_nextMobUID w + int (vacancies (alive_of_type (getMobInstancesInZone mi zoneId)) (sz_mobEntries z)) < INT_LIM"
    and "list_all (\<lambda>e. in_i32 (se_maxCount e - alive_of_type (getMobInstancesInZone mi zoneId) (se_mobId e))) (sz_mobEntries z)"
    and "spawnMobsInZone env zoneId g w = (mobs, w')"
  shows "\<exists>mi'. zw_instances w' = Some mi' \<and> mobs_ok mi' \<and> getMobInstancesInZone mi' zoneId = getMobInstancesInZone mi zoneId @ mobs \<and>
     (\<forall>t. alive_of_type (getMobInstancesInZone mi' zoneId) t
        \<le> max (alive_of_type (getMobInstancesInZone mi zoneId) t) (quota (sz_mobEntries z) t))"
proof -
  from spawn_pass[OF assms] obtain mi' where mi': "zw_instances w' = Some mi'" "mobs_ok mi'"
    "getMobInstancesInZone mi' zoneId = getMobInstancesInZone mi zoneId @ mobs"
    "\<forall>t. alive_of_type mobs t \<le> max 0 (quota (sz_mobEntries z) t - alive_of_type (getMobInstancesInZone mi zoneId) t)" by blast
  have "alive_of_type (getMobInstancesInZone mi' zoneId) t
      \<le> max (alive_of_type (getMobInstancesInZone mi zoneId) t) (quota (sz_mobEntries z) t)" for t
    using mi'(4)[rule_format, of t] by (simp add: mi'(3) alive_of_type_append max_def split: if_splits)
  with mi'(1-3) show ?thesis by blast
qed

definition wolf_zone :: SpawnZoneStruct where
  "wolf_zone = default_spawn_zone\<lparr>sz_zoneId := 5, sz_maxX := 1000, sz_maxY := 1000,
     sz_mobEntries := [\<lparr>se_szmId = 1, se_mobId = 3, se_maxCount = 2, se_respawnTime = 60\<rparr>]\<rparr>"

definition wolf_world :: spawn_world where
  "wolf_world = \<lparr>zw_zones = [(5, wolf_zone)], zw_instances = Some no_mobs, zw_nextMobUID = 1000000\<rparr>"

definition wolf_env :: spawn_env where
  "wolf_env = \<lparr>sv_templates = \<lparr>mm_mobs = [(3, default_mob\<lparr>mb_id := 3, mb_name := ''wolf'', mb_currentHealth := 10, mb_maxHealth := 10\<rparr>)],
     mm_weaknesses = Map.empty, mm_resistances = Map.empty\<rparr>, sv_epoch = 0, sv_cos = (\<lambda>_. 1), sv_sin = (\<lambda>_. 0)\<rparr>"

theorem spawn_keeps_quota_witness:
  "\<forall>g. \<exists>mi'. zw_instances (snd (spawnMobsInZone wolf_env 5 g wolf_world)) = Some mi' \<and> alive_of_type (getMobInstancesInZone mi' 5) 3 \<le> 2"
proof
  fix g
  have none: "getMobInstancesInZone no_mobs 5 = []" "alive_of_type [] 3 = 0" "map_of (mi_mobInstances no_mobs) = Map.empty"
    by (simp_all add: no_mobs_def getMobInstancesInZone_def zone_uids_def alive_of_type_def)
  have ok: "mobs_ok no_mobs" by (simp add: mobs_ok_def no_mobs_def zone_uids_def in_zone_def)
  obtain mobs w' where s: "spawnMobsInZone wolf_env 5 g wolf_world = (mobs, w')" by fastforce
  have w: "map_of (zw_zones wolf_world) 5 = Some wolf_zone" "zw_instances wolf_world = Some no_mobs" "zw_nextMobUID wolf_world = 1000000"
    by (simp_all add: wolf_world_def)
  have t: "templates_ok (sv_templates wolf_env)" by (simp add: templates_ok_def wolf_env_def omap_sorted_def)
  have e: "sz_mobEntries wolf_zone = [\<lparr>se_szmId = 1, se_mobId = 3, se_maxCount = 2, se_respawnTime = 60\<rparr>]"
    by (simp add: wolf_zone_def)
  have "\<exists>mi'. zw_instances w' = Some mi' \<and> mobs_ok mi' \<and> getMobInstancesInZone mi' 5 = getMobInstancesInZone no_mobs 5 @ mobs \<and>
     (\<forall>t. alive_of_type (getMobInstancesInZone mi' 5) t \<le> max (alive_of_type (getMobInstancesInZone no_mobs 5) t) (quota (sz_mobEntries wolf_zone) t))"
    by (rule spawn_keeps_quota[OF w(1,2) ok _ _ _ t _ _ _ s])
      (simp_all add: w(3) e none vacancies_def in_i32_def)
  then obtain mi' where mi': "zw_instances w' = Some mi'"
    "alive_of_type (getMobInstancesInZone mi' 5) 3 \<le> max (alive_of_type (getMobInstancesInZone no_mobs 5) 3) (quota (sz_mobEntries wolf_zone) 3)"
    by blast
  then show "\<exists>mi'. zw_instances (snd (spawnMobsInZone wolf_env 5 g wolf_world)) = Some mi' \<and> alive_of_type (getMobInstancesInZone mi' 5) 3 \<le> 2"
    by (simp add: s none quota_def e)
qed

section \<open>Distances\<close>

text \<open>\<open>m\<close> keeps its distance from all the positions.\<close>

definition keeps_off :: "PositionStruct list \<Rightarrow> MobDataStruct \<Rightarrow> bool" where
  "keeps_off ps m \<longleftrightarrow> list_all (\<lambda>p. \<not> too_close (separation m) (positionX (mb_position m), positionY (mb_position m)) p) ps"

definition apart :: "PositionStruct list \<Rightarrow> MobDataStruct list \<Rightarrow> bool" where
  "apart ps ms \<longleftrightarrow> (\<forall>i < length ms. keeps_off (ps @ map mb_position (take i ms)) (ms ! i))"

lemma apart_snoc: "apart ps (ms @ [m]) \<longleftrightarrow> apart ps ms \<and> keeps_off (ps @ map mb_position ms) m"
proof -
  have "(\<forall>i < length (ms @ [m]). keeps_off (ps @ map mb_position (take i (ms @ [m]))) ((ms @ [m]) ! i))
    \<longleftrightarrow> (\<forall>i < length ms. keeps_off (ps @ map mb_position (take i ms)) (ms ! i)) \<and> keeps_off (ps @ map mb_position ms) m"
    by (auto simp: less_Suc_eq nth_append)
  then show ?thesis by (simp add: apart_def)
qed

lemma find_position_free:
  "find_position env z i needed sep occ n first g = (Some c, g') \<Longrightarrow> \<not> list_ex (too_close sep c) occ"
  by (induction n arbitrary: first g) (auto split: prod.splits if_splits)

definition spaced_out :: "PositionStruct list \<Rightarrow> spawning \<Rightarrow> bool" where
  "spaced_out ps st \<longleftrightarrow> (case st of (g, occ, mobs, w) \<Rightarrow> occ = ps @ map mb_position mobs \<and> apart ps mobs)"

lemma place_spaced:
  assumes "spaced_out ps (g, occ, mobs, w)" "\<not> list_ex (too_close (separation template) c) occ"
  shows "spaced_out ps (place_mob env z zoneId template c (g', occ, mobs, w))"
proof -
  define m where "m = placed_mob env z zoneId template c (zw_nextMobUID w) (shd g')"
  have "keeps_off occ m" using assms(2) by (auto simp: keeps_off_def m_def list_all_iff list_ex_iff)
  then show ?thesis using assms(1) by (simp add: place_mob_eq Let_def spaced_out_def apart_snoc flip: m_def)
qed

lemma spaced_engine: "spaced_out ps (g, occ, mobs, w) = spaced_out ps (g', occ, mobs, w')"
  by (simp add: spaced_out_def)

lemma spawn_entry_spaced: "spaced_out ps st \<Longrightarrow> spaced_out ps (snd (spawn_entry env z zoneId e needed left st))"
proof (induction left arbitrary: st)
  case (Suc left)
  obtain g occ mobs w where st: "st = (g, occ, mobs, w)" by (metis surj_pair)
  let ?t = "getMobById (sv_templates env) (se_mobId e)"
  obtain c g1 where f: "find_position env z (needed - int (Suc left)) needed (separation ?t) occ MAX_SPAWN_ATTEMPTS True g = (c, g1)" by fastforce
  have i1: "spaced_out ps (g1, occ, mobs, w)" using Suc.prems spaced_engine unfolding st by metis
  have "spaced_out ps (place_mob env z zoneId ?t p (g1, occ, mobs, w))" if "c = Some p" for p
    using place_spaced[OF i1 find_position_free[OF f[unfolded that]]] .
  then show ?case using Suc.prems Suc.IH Suc.IH[OF i1] by (auto simp: st f[simplified] Let_def split: option.split)
qed simp

lemma spawn_entries_spaced: "spaced_out ps st \<Longrightarrow> spaced_out ps (spawn_entries env z zoneId aliveByType es st)"
proof (induction es arbitrary: st)
  case (Cons e es)
  define needed where "needed = wrap32 (se_maxCount e - aliveByType (se_mobId e))"
  obtain missing st' where se: "spawn_entry env z zoneId e needed (nat needed) st = (missing, st')" by (metis prod.collapse)
  have "spaced_out ps st'" using spawn_entry_spaced[OF Cons.prems, of env z zoneId e needed "nat needed"] by (simp add: se)
  with Cons.IH[OF this] show ?case by (simp add: Let_def se flip: needed_def)
qed simp

text \<open>C33: No mob is put on top of another: every mob of a spawning pass lands at least its separation away (by the distance the
  code computes) from every mob that was in the zone and from every mob spawned before it in the pass.\<close>

theorem spawned_apart:
  "apart (case zw_instances w of None \<Rightarrow> [] | Some mi \<Rightarrow> map snd (getMobPositionsInZone mi zoneId)) (fst (spawnMobsInZone env zoneId g w))"
proof (cases "map_of (zw_zones w) zoneId")
  case (Some z)
  define ps where "ps = (case zw_instances w of None \<Rightarrow> [] | Some mi \<Rightarrow> map snd (getMobPositionsInZone mi zoneId))"
  have "spaced_out ps (g, ps, [], w)" by (simp add: spaced_out_def apart_def)
  from spawn_entries_spaced[OF this] have
    s: "spaced_out ps (spawn_entries env z zoneId (alive_of_type (mobs_of_zone w zoneId)) (sz_mobEntries z) (g, ps, [], w))" .
  have "fst (spawnMobsInZone env zoneId g w)
    = fst (snd (snd (spawn_entries env z zoneId (alive_of_type (mobs_of_zone w zoneId)) (sz_mobEntries z) (g, ps, [], w))))"
    by (simp add: spawnMobsInZone_def Some ps_def case_prod_beta)
  with s show ?thesis unfolding ps_def[symmetric] by (auto simp: spaced_out_def case_prod_beta)
qed (simp add: spawnMobsInZone_def apart_def)

section \<open>Corpses\<close>

lemma mobDied_instances: "zw_instances (mobDied zoneId uid w) = map_option (unregisterMobInstance uid) (zw_instances w)"
  by (simp add: mobDied_def unregister_in_def removeMobByUIDInternal_def Let_def)

lemma fold_mobDied_instances:
  "zw_instances w = Some mi \<Longrightarrow> zw_instances (fold (\<lambda>m. mobDied k (mb_uid m)) ms w) = Some (fold (\<lambda>m. unregisterMobInstance (mb_uid m)) ms mi)"
  by (induction ms arbitrary: w mi) (simp_all add: mobDied_instances)

lemma fold_unregister:
  assumes "mobs_ok mi" "z \<noteq> 0"
  shows "mobs_ok (fold (\<lambda>m. unregisterMobInstance (mb_uid m)) ms mi)"
    and "getMobInstancesInZone (fold (\<lambda>m. unregisterMobInstance (mb_uid m)) ms mi) z
      = filter (\<lambda>m. mb_uid m \<notin> mb_uid ` set ms) (getMobInstancesInZone mi z)"
  using assms(1) by (induction ms arbitrary: mi) (auto simp: unregister_ok unregister_zone[OF _ assms(2)] intro!: filter_cong)

text \<open>The corpses of a zone go when their minute is over, and nothing else goes.\<close>

lemma clean_zone_effect:
  assumes "zw_instances w = Some mi" "mobs_ok mi" "sz_spawnEnabled z" "sz_zoneId z \<noteq> 0"
    and "distinct (map mb_uid (getMobInstancesInZone mi (sz_zoneId z)))"
  shows "\<exists>mi'. zw_instances (clean_zone now (k, z) w) = Some mi' \<and> mobs_ok mi' \<and>
    getMobInstancesInZone mi' (sz_zoneId z) = filter (\<lambda>m. \<not> corpse_over now m) (getMobInstancesInZone mi (sz_zoneId z))"
proof -
  define ms where "ms = getMobInstancesInZone mi (sz_zoneId z)"
  have "mb_uid m \<in> mb_uid ` set (filter (corpse_over now) ms) \<longleftrightarrow> corpse_over now m" if "m \<in> set ms" for m
    using that assms(5) unfolding ms_def[symmetric] by (auto simp: distinct_map inj_on_def)
  then have "filter (\<lambda>m. mb_uid m \<notin> mb_uid ` set (filter (corpse_over now) ms)) ms = filter (\<lambda>m. \<not> corpse_over now m) ms"
    by (intro filter_cong) auto
  then have "getMobInstancesInZone (fold (\<lambda>m. unregisterMobInstance (mb_uid m)) (filter (corpse_over now) ms) mi) (sz_zoneId z)
      = filter (\<lambda>m. \<not> corpse_over now m) ms"
    unfolding fold_unregister(2)[OF assms(2,4)] ms_def[symmetric] .
  moreover have "zw_instances (clean_zone now (k, z) w) = Some (fold (\<lambda>m. unregisterMobInstance (mb_uid m)) (filter (corpse_over now) ms) mi)"
    using fold_mobDied_instances[OF assms(1)] assms(1,3) by (simp add: clean_zone_def ms_def)
  ultimately show ?thesis using fold_unregister(1)[OF assms(2,4)] unfolding ms_def by blast
qed

section \<open>What the code does not do\<close>

text \<open>The respawn time of an entry has no influence on when it respawns.\<close>

lemma respawn_time_ignored:
  "spawn_entries env z zoneId aliveByType (map (se_respawnTime_update f) es) st = spawn_entries env z zoneId aliveByType es st"
proof -
  have "spawn_entry env z zoneId (se_respawnTime_update f e) needed left st = spawn_entry env z zoneId e needed left st" for e needed left st
  proof (induction left arbitrary: st)
    case (Suc left)
    obtain g occ mobs w where st: "st = (g, occ, mobs, w)" by (metis surj_pair)
    show ?case
      by (cases "find_position env z (needed - (1 + int left)) needed (separation (getMobById (sv_templates env) (se_mobId e))) occ MAX_SPAWN_ATTEMPTS True g")
        (auto simp: st Suc.IH Let_def split: option.split)
  qed simp
  then show ?thesis by (induction es arbitrary: st) (auto simp: Let_def split: prod.split)
qed

text \<open>Rows of mobs are all filed under zone 0.\<close>

lemma loaded_mobs_in_zone_0: "mb_zoneId (loaded_mob row) = 0"
  by (simp add: loaded_mob_def default_mob_def)

end
