(* ===== verification/Champions.thy ===== *)
theory Champions
  imports Spawn_Zones Game_Config
begin

text \<open>
  \<^verbatim>\<open>services/ChampionManager.cpp\<close>: champions that appear after enough kills of a mob type in a zone, at a set
  time, or when a mob survives long enough. The mob instances and the uid counter are those of
  \<open>spawn_world\<close>; \<open>now\<close> is the steady clock in nanoseconds and \<open>epoch\<close> the system clock in
  seconds. Notifications and the message to the game server are collected in \<open>hm_out\<close>. The last section has the mutexes.
\<close>

record TimedChampionTemplate =
  tc_id :: int
  tc_slug :: string
  tc_gameZoneId :: int
  tc_mobTemplateId :: int
  tc_intervalHours :: int
  tc_windowMinutes :: int
  tc_nextSpawnAt :: int
  tc_announceKey :: string

record ChampionInstance =
  ci_uid :: int
  ci_gameZoneId :: int
  ci_baseTemplateId :: int
  ci_slug :: string
  ci_spawnedAt :: int
  ci_despawnAt :: int

record TimedChampionState =
  ts_tmpl :: TimedChampionTemplate
  ts_preAnnounceSent :: bool
  ts_spawned :: bool

datatype champion_note =
    SpawnedSoon int string
  | ChampionSpawned int string int
  | ChampionDespawned int
  | ChampionKilled int int string
  | SurvivalEvolved int int string
  | TimedChampionKilled string int int

record champion_manager =
  hm_zoneKillCounters :: "int \<Rightarrow> int \<Rightarrow> int"
  hm_active :: "ChampionInstance list"
  hm_timedStates :: "TimedChampionState list"
  hm_hasServer :: bool
  hm_world :: spawn_world
  hm_out :: "champion_note list"

record champion_env =
  ce_config :: game_config
  ce_zones :: game_zones
  ce_spawn :: spawn_env
  ce_now :: int
  ce_engine :: "float32 stream"

definition announce :: "champion_note \<Rightarrow> champion_manager \<Rightarrow> champion_manager" where
  "announce n hm = hm\<lparr>hm_out := hm_out hm @ [n]\<rparr>"

text \<open>\<^verbatim>\<open>steady_clock::time_point::max()\<close>\<close>

definition TIME_MAX :: int where
  "TIME_MAX = 9223372036854775807"

section \<open>Where a champion appears\<close>

definition centre_in_box :: "GameZoneStruct \<Rightarrow> SpawnZoneStruct \<Rightarrow> bool" where
  "centre_in_box gz sz \<longleftrightarrow> gz_minX gz \<le> sz_centerX sz \<and> sz_centerX sz \<le> gz_maxX gz \<and>
     gz_minY gz \<le> sz_centerY sz \<and> sz_centerY sz \<le> gz_maxY gz"

definition half_sum :: "float32 \<Rightarrow> float32 \<Rightarrow> float32" where
  "half_sum a b = fl32 (fl32 (a + b) * (1 / 2))"

text \<open>A point in the chosen spawn zone. The ring draws its radius first, then the angle.\<close>

definition point_in_zone :: "spawn_env \<Rightarrow> SpawnZoneStruct \<Rightarrow> float32 stream \<Rightarrow> PositionStruct" where
  "point_in_zone env z g =
     (let p = default_position\<lparr>positionZ := half_sum (sz_minZ z) (sz_maxZ z)\<rparr>; u = shd g; v = shd (stl g);
          r = (if sz_shape z = ANNULUS then annulus_radius z (uniform_real 0 1 u)
               else fl32 (sz_outerRadius z * sqrt32 (uniform_real 0 1 u)));
          c = (if sz_shape z = RECT then (uniform_real (sz_minX z) (sz_maxX z) u, uniform_real (sz_minY z) (sz_maxY z) v)
               else polar env z r (uniform_real 0 TWO_PI v))
      in p\<lparr>positionX := fst c, positionY := snd c\<rparr>)"

definition resolveChampionSpawnPoint :: "champion_env \<Rightarrow> champion_manager \<Rightarrow> int \<Rightarrow> PositionStruct" where
  "resolveChampionSpawnPoint env hm gameZoneId =
     (case find (\<lambda>z. gz_id z = gameZoneId) (ce_zones env) of
        None \<Rightarrow> default_position
      | Some gz \<Rightarrow>
        let candidates = filter (centre_in_box gz) (map snd (getMobSpawnZones (hm_world hm))) in
        if candidates \<noteq> []
        then point_in_zone (ce_spawn env)
               (candidates ! nat (uniform_int 0 (int (length candidates) - 1) (shd (ce_engine env)))) (stl (ce_engine env))
        else
          default_position\<lparr>positionX := half_sum (gz_minX gz) (gz_maxX gz), positionY := half_sum (gz_minY gz) (gz_maxY gz),
            positionZ := (case find (centre_in_box gz) (map snd (getMobSpawnZones (hm_world hm))) of
               None \<Rightarrow> 500 | Some sz \<Rightarrow> half_sum (sz_minZ sz) (sz_maxZ sz))\<rparr>)"

section \<open>Spawning\<close>

definition times :: "int \<Rightarrow> float32 \<Rightarrow> int" where
  "times n f = cast_i32 (fl32 (fl32 (of_int n) * f))"

definition champion_of :: "champion_env \<Rightarrow> champion_manager \<Rightarrow> MobDataStruct \<Rightarrow> int \<Rightarrow> string \<Rightarrow> float32 \<Rightarrow> MobDataStruct" where
  "champion_of env hm base gameZoneId namePrefix lootMult =
     (let hpMult = getFloat (ce_config env) ''champion.hp_multiplier'' 3;
          dmgMult = getFloat (ce_config env) ''champion.damage_multiplier'' (3 / 2);
          zoneId = (case getMobSpawnZones (hm_world hm) of [] \<Rightarrow> mb_zoneId base
             | (k, sz) # rest \<Rightarrow>
                 (case getZoneForPosition (ce_zones env) (default_position\<lparr>positionX := sz_centerX sz, positionY := sz_centerY sz\<rparr>) of
                    Some gz \<Rightarrow> if gz_id gz = gameZoneId then sz_zoneId sz else mb_zoneId base
                  | None \<Rightarrow> mb_zoneId base))
      in base\<lparr>mb_uid := zw_nextMobUID (hm_world hm), mb_name := namePrefix @ mb_name base,
           mb_maxHealth := times (mb_maxHealth base) hpMult, mb_currentHealth := times (mb_maxHealth base) hpMult,
           mb_maxMana := times (mb_maxMana base) hpMult, mb_currentMana := times (mb_maxMana base) hpMult,
           mb_baseExperience := times (mb_baseExperience base) 2, mb_rankCode := ''champion'', mb_rankMult := hpMult,
           mb_isChampion := True, mb_lootMultiplier := lootMult, mb_spawnEpochSec := sv_epoch (ce_spawn env),
           mb_position := resolveChampionSpawnPoint env hm gameZoneId,
           mb_attributes := map (\<lambda>a. if ma_slug a = ''physical_attack'' \<or> ma_slug a = ''magic_attack''
             then a\<lparr>ma_value := times (ma_value a) dmgMult\<rparr> else a) (mb_attributes base),
           mb_zoneId := if zoneId = 0 then - 1 else zoneId\<rparr>)"

definition minutes_ns :: "int \<Rightarrow> int" where
  "minutes_ns m = m * 60000000000"

definition spawnChampion ::
  "champion_env \<Rightarrow> int \<Rightarrow> int \<Rightarrow> string \<Rightarrow> float32 \<Rightarrow> string \<Rightarrow> champion_manager \<Rightarrow> int \<times> champion_manager" where
  "spawnChampion env mobTemplateId gameZoneId namePrefix lootMult slug hm =
     (let base = getMobById (sv_templates (ce_spawn env)) mobTemplateId in
      if mb_id base = 0 then (0, hm)
      else
        let m = champion_of env hm base gameZoneId namePrefix lootMult;
            despawnMin = getInt (ce_config env) ''champion.despawn_minutes'' 30;
            w = register_in m (snd (generateUniqueMobUID (hm_world hm)));
            c = \<lparr>ci_uid = mb_uid m, ci_gameZoneId = gameZoneId, ci_baseTemplateId = mobTemplateId, ci_slug = slug,
                 ci_spawnedAt = ce_now env, ci_despawnAt = ce_now env + minutes_ns despawnMin\<rparr>
        in (mb_uid m, announce (ChampionSpawned gameZoneId (mb_slug m) (mb_uid m))
              (hm\<lparr>hm_world := w, hm_active := hm_active hm @ [c]\<rparr>)))"

section \<open>Champions after enough kills\<close>

definition set_counter :: "int \<Rightarrow> int \<Rightarrow> int \<Rightarrow> champion_manager \<Rightarrow> champion_manager" where
  "set_counter gameZoneId mobTemplateId n hm = hm\<lparr>hm_zoneKillCounters :=
     (hm_zoneKillCounters hm)(gameZoneId := (hm_zoneKillCounters hm gameZoneId)(mobTemplateId := n))\<rparr>"

text \<open>The name prefix, in UTF-8.\<close>

definition champion_prefix :: string where
  "champion_prefix = map char_of [91 :: nat, 208, 167, 208, 181, 208, 188, 208, 191, 208, 184, 208, 190, 208, 189, 93, 32]"

definition champion_active :: "champion_manager \<Rightarrow> int \<Rightarrow> int \<Rightarrow> bool" where
  "champion_active hm gameZoneId mobTemplateId \<longleftrightarrow>
     list_ex (\<lambda>c. ci_gameZoneId c = gameZoneId \<and> ci_baseTemplateId c = mobTemplateId) (hm_active hm)"

definition recordMobKill :: "champion_env \<Rightarrow> int \<Rightarrow> int \<Rightarrow> champion_manager \<Rightarrow> champion_manager" where
  "recordMobKill env gameZoneId mobTemplateId hm =
     (if champion_active hm gameZoneId mobTemplateId then hm
      else
        let count = wrap32 (hm_zoneKillCounters hm gameZoneId mobTemplateId + 1); hm1 = set_counter gameZoneId mobTemplateId count hm in
        case find (\<lambda>z. gz_id z = gameZoneId) (ce_zones env) of
          None \<Rightarrow> hm1
        | Some z \<Rightarrow>
          if gz_championThresholdKills z \<le> count
          then snd (spawnChampion env mobTemplateId gameZoneId champion_prefix (3 / 2) [] (set_counter gameZoneId mobTemplateId 0 hm1))
          else hm1)"

definition reset_spawned :: "string \<Rightarrow> champion_manager \<Rightarrow> champion_manager" where
  "reset_spawned slug hm = hm\<lparr>hm_timedStates :=
     upd_first (\<lambda>s. tc_slug (ts_tmpl s) = slug) (\<lambda>s. s\<lparr>ts_spawned := False\<rparr>) (hm_timedStates hm)\<rparr>"

definition onChampionKilled :: "champion_env \<Rightarrow> int \<Rightarrow> int \<Rightarrow> string \<Rightarrow> champion_manager \<Rightarrow> champion_manager" where
  "onChampionKilled env champUid killerCharId killerName hm =
     (case find (\<lambda>c. ci_uid c = champUid) (hm_active hm) of
        None \<Rightarrow> hm
      | Some c \<Rightarrow>
        let hm1 = hm\<lparr>hm_active := del_first (\<lambda>c. ci_uid c = champUid) (hm_active hm)\<rparr>;
            hm2 = (if ci_slug c = [] then set_counter (ci_gameZoneId c) (ci_baseTemplateId c) 0 hm1 else hm1);
            hm3 = announce (ChampionKilled (ci_gameZoneId c) killerCharId killerName) hm2
        in if ci_slug c = [] then hm3
           else reset_spawned (ci_slug c)
                  (if hm_hasServer hm3 then announce (TimedChampionKilled (ci_slug c) killerCharId (sv_epoch (ce_spawn env))) hm3 else hm3))"

section \<open>Champions at a set time\<close>

definition loadTimedChampions :: "TimedChampionTemplate list \<Rightarrow> champion_manager \<Rightarrow> champion_manager" where
  "loadTimedChampions ts hm =
     hm\<lparr>hm_timedStates := map (\<lambda>t. \<lparr>ts_tmpl = t, ts_preAnnounceSent = False, ts_spawned = False\<rparr>) ts\<rparr>"

definition despawn_one :: "champion_env \<Rightarrow> ChampionInstance \<Rightarrow> champion_manager \<Rightarrow> champion_manager" where
  "despawn_one env c hm =
     (let hm1 = announce (ChampionDespawned (ci_gameZoneId c)) (hm\<lparr>hm_world := unregister_in (ci_uid c) (hm_world hm)\<rparr>) in
      if ci_slug c = [] then
        (case find (\<lambda>z. gz_id z = ci_gameZoneId c) (ce_zones env) of
           None \<Rightarrow> hm1
         | Some z \<Rightarrow> set_counter (ci_gameZoneId c) (ci_baseTemplateId c) (trunc_int (of_int (gz_championThresholdKills z) / 2)) hm1)
      else reset_spawned (ci_slug c) hm1)"

definition checkDespawnedChampions :: "champion_env \<Rightarrow> champion_manager \<Rightarrow> champion_manager" where
  "checkDespawnedChampions env hm =
     (let hm1 = fold (despawn_one env) (filter (\<lambda>c. ci_despawnAt c \<le> ce_now env) (hm_active hm)) hm
      in hm1\<lparr>hm_active := filter (\<lambda>c. \<not> ci_despawnAt c \<le> ce_now env) (hm_active hm)\<rparr>)"

text \<open>One state of the list: the announcement, then the spawn.\<close>

definition tick_state :: "champion_env \<Rightarrow> TimedChampionState \<Rightarrow> champion_manager \<Rightarrow> TimedChampionState \<times> champion_manager" where
  "tick_state env s hm =
     (let t = ts_tmpl s; timeUntilSpawn = tc_nextSpawnAt t - sv_epoch (ce_spawn env);
          preAnnounceSec = getInt (ce_config env) ''champion.pre_announce_sec'' 300 in
      if tc_nextSpawnAt t \<le> 0 \<or> ts_spawned s then (s, hm)
      else
        let (s1, hm1) = (if timeUntilSpawn \<le> preAnnounceSec \<and> \<not> ts_preAnnounceSent s
                         then (s\<lparr>ts_preAnnounceSent := True\<rparr>, announce (SpawnedSoon (tc_gameZoneId t) (tc_slug t)) hm) else (s, hm)) in
        if timeUntilSpawn \<le> 0 then
          (let (uid, hm2) = spawnChampion env (tc_mobTemplateId t) (tc_gameZoneId t) ''[!] '' 2 (tc_slug t) hm1
           in (if 0 < uid then s1\<lparr>ts_spawned := True, ts_preAnnounceSent := False\<rparr> else s1, hm2))
        else (s1, hm1))"

fun tick_states :: "champion_env \<Rightarrow> TimedChampionState list \<Rightarrow> champion_manager \<Rightarrow> TimedChampionState list \<times> champion_manager" where
  "tick_states env [] hm = ([], hm)"
| "tick_states env (s # ss) hm =
     (let (s', hm1) = tick_state env s hm; (ss', hm2) = tick_states env ss hm1 in (s' # ss', hm2))"

definition tickTimedChampions :: "champion_env \<Rightarrow> champion_manager \<Rightarrow> champion_manager" where
  "tickTimedChampions env hm =
     (let hm1 = checkDespawnedChampions env hm; (ss, hm2) = tick_states env (hm_timedStates hm1) hm1
      in hm2\<lparr>hm_timedStates := ss\<rparr>)"

section \<open>Survivors\<close>

definition evolve_and_register :: "champion_env \<Rightarrow> int \<Rightarrow> champion_manager \<Rightarrow> champion_manager" where
  "evolve_and_register env uid hm =
     (case zw_instances (hm_world hm) of None \<Rightarrow> hm
      | Some mi \<Rightarrow>
        let m = getMobInstance mi uid in
        if mb_uid m = 0 \<or> mb_hasEvolved m then hm
        else
          let gzId = (case getZoneForPosition (ce_zones env) (mb_position m) of Some z \<Rightarrow> gz_id z | None \<Rightarrow> 0);
              c = \<lparr>ci_uid = uid, ci_gameZoneId = gzId, ci_baseTemplateId = mb_id m, ci_slug = [], ci_spawnedAt = ce_now env, ci_despawnAt = TIME_MAX\<rparr>
          in announce (SurvivalEvolved gzId uid (mb_slug m))
               (hm\<lparr>hm_world := (hm_world hm)\<lparr>zw_instances := Some (evolveSurvivalMob (ce_config env) uid mi)\<rparr>,
                   hm_active := hm_active hm @ [c]\<rparr>))"

definition due_to_evolve :: "champion_env \<Rightarrow> MobDataStruct \<Rightarrow> bool" where
  "due_to_evolve env m \<longleftrightarrow> mb_canEvolve m \<and> \<not> mb_hasEvolved m \<and> mb_spawnEpochSec m \<noteq> 0 \<and>
     getInt (ce_config env) ''survival_champion.evolve_hours'' 12 * 3600 \<le> sv_epoch (ce_spawn env) - mb_spawnEpochSec m"

definition tickSurvivalEvolution :: "champion_env \<Rightarrow> champion_manager \<Rightarrow> champion_manager" where
  "tickSurvivalEvolution env hm =
     (case zw_instances (hm_world hm) of None \<Rightarrow> hm
      | Some mi \<Rightarrow> fold (\<lambda>m. evolve_and_register env (mb_uid m)) (filter (due_to_evolve env) (getAllLivingInstances mi)) hm)"

section \<open>One champion for every threshold\<close>

lemma spawn_manager:
  assumes "mb_id (getMobById (sv_templates (ce_spawn env)) t) \<noteq> 0"
  shows "\<exists>c. hm_active (snd (spawnChampion env t z p l slug hm)) = hm_active hm @ [c] \<and> ci_gameZoneId c = z \<and> ci_baseTemplateId c = t \<and>
      ci_slug c = slug \<and> ci_uid c = zw_nextMobUID (hm_world hm)"
    and "hm_zoneKillCounters (snd (spawnChampion env t z p l slug hm)) = hm_zoneKillCounters hm"
  using assms by (auto simp: spawnChampion_def announce_def champion_of_def Let_def)

text \<open>C34: Killing mobs of one type in a zone brings out its champion exactly at the threshold: before it every kill
  is counted and nothing appears; at the threshold one champion appears and the count starts again, and while he lives further
  kills neither count nor bring out another.\<close>

theorem champion_at_threshold:
  assumes z: "find (\<lambda>z. gz_id z = zoneId) (ce_zones env) = Some z" and T: "gz_championThresholdKills z = int T" "0 < T" "int T < INT_LIM"
    and t: "mb_id (getMobById (sv_templates (ce_spawn env)) mobId) \<noteq> 0"
    and start: "hm_zoneKillCounters hm zoneId mobId = 0" "\<not> champion_active hm zoneId mobId"
  defines "after \<equiv> (\<lambda>n. (recordMobKill env zoneId mobId ^^ n) hm)"
  shows "if n < T then hm_active (after n) = hm_active hm \<and> hm_zoneKillCounters (after n) zoneId mobId = int n
    else (\<exists>c. hm_active (after n) = hm_active hm @ [c] \<and> ci_gameZoneId c = zoneId \<and> ci_baseTemplateId c = mobId) \<and>
      hm_zoneKillCounters (after n) zoneId mobId = 0"
proof (induction n)
  case 0
  then show ?case using T(2) start by (simp add: after_def)
next
  case (Suc n)
  have step: "after (Suc n) = recordMobKill env zoneId mobId (after n)" by (simp add: after_def)
  show ?case
  proof (cases "n < T")
    case True
    then have ih: "hm_active (after n) = hm_active hm" "hm_zoneKillCounters (after n) zoneId mobId = int n" using Suc.IH by simp_all
    have quiet: "\<not> champion_active (after n) zoneId mobId" using start(2) by (simp add: champion_active_def ih)
    have w: "wrap32 (int n + 1) = int n + 1" using True T(3) by (intro wrap32_id) (simp add: in_i32_def)
    show ?thesis
    proof (cases "Suc n < T")
      case True
      then show ?thesis using quiet by (simp add: step recordMobKill_def z T(1) ih w Let_def set_counter_def)
    next
      case False
      then have "Suc n = T" using \<open>n < T\<close> by simp
      then have reached: "0 < gz_championThresholdKills z" "gz_championThresholdKills z \<le> int n + 1" by (simp_all add: T(1) flip: \<open>Suc n = T\<close>)
      define hm1 where "hm1 = set_counter zoneId mobId 0 (set_counter zoneId mobId (int n + 1) (after n))"
      have "after (Suc n) = snd (spawnChampion env mobId zoneId champion_prefix (3 / 2) [] hm1)"
        unfolding step using quiet reached by (simp add: recordMobKill_def z ih w Let_def hm1_def)
      moreover have "hm_active hm1 = hm_active hm" "hm_zoneKillCounters hm1 zoneId mobId = 0"
        by (simp_all add: hm1_def set_counter_def ih)
      ultimately show ?thesis
        using False spawn_manager[OF t, of zoneId champion_prefix "3 / 2" "[]" hm1] by auto
    qed
  next
    case False
    then have ih: "\<exists>c. hm_active (after n) = hm_active hm @ [c] \<and> ci_gameZoneId c = zoneId \<and> ci_baseTemplateId c = mobId"
      "hm_zoneKillCounters (after n) zoneId mobId = 0" using Suc.IH by simp_all
    then have "champion_active (after n) zoneId mobId" by (auto simp: champion_active_def)
    then have "after (Suc n) = after n" by (simp add: step recordMobKill_def)
    then show ?thesis using False ih by simp
  qed
qed

definition wolf_wood :: GameZoneStruct where
  "wolf_wood = \<lparr>gz_id = 3, gz_slug = ''wood'', gz_name = [], gz_minLevel = 0, gz_maxLevel = 0, gz_isPvp = False, gz_isSafeZone = False,
     gz_minX = - 1000, gz_maxX = 1000, gz_minY = - 1000, gz_maxY = 1000, gz_shape = RECT, gz_centerX = 0, gz_centerY = 0,
     gz_innerRadius = 0, gz_outerRadius = 0, gz_explorationXpReward = 100, gz_championThresholdKills = 2\<rparr>"

definition wood_env :: champion_env where
  "wood_env = \<lparr>ce_config = [], ce_zones = [wolf_wood], ce_spawn = wolf_env, ce_now = 0, ce_engine = sconst 0\<rparr>"

definition no_champions :: champion_manager where
  "no_champions = \<lparr>hm_zoneKillCounters = (\<lambda>_ _. 0), hm_active = [], hm_timedStates = [], hm_hasServer = True, hm_world = wolf_world, hm_out = []\<rparr>"

lemma wolf_template: "mb_id (getMobById (sv_templates (ce_spawn wood_env)) 3) = 3"
  by (simp add: getMobById_def wood_env_def wolf_env_def)

theorem champion_at_threshold_witness:
  "length (hm_active ((recordMobKill wood_env 3 3 ^^ 1) no_champions)) = 0 \<and> length (hm_active ((recordMobKill wood_env 3 3 ^^ 7) no_champions)) = 1"
proof -
  have "find (\<lambda>z. gz_id z = 3) (ce_zones wood_env) = Some wolf_wood" "gz_championThresholdKills wolf_wood = int 2"
    by (simp_all add: wood_env_def wolf_wood_def)
  note at = champion_at_threshold[OF this, where mobId = 3 and hm = no_champions]
  have "hm_zoneKillCounters no_champions 3 3 = 0" "\<not> champion_active no_champions 3 3" "hm_active no_champions = []"
    by (simp_all add: no_champions_def champion_active_def)
  then show ?thesis using at[where n = 1] at[where n = 7] wolf_template by auto
qed

section \<open>Despawning\<close>

text \<open>After the check no champion of the list is overdue, and the overdue ones are no longer in the world.\<close>

lemma fold_despawn_instances:
  "zw_instances (hm_world hm) = Some mi \<Longrightarrow>
    zw_instances (hm_world (fold (despawn_one env) cs hm)) = Some (fold (\<lambda>c. unregisterMobInstance (ci_uid c)) cs mi)"
proof (induction cs arbitrary: hm mi)
  case (Cons c cs)
  have "zw_instances (hm_world (despawn_one env c hm)) = Some (unregisterMobInstance (ci_uid c) mi)"
    using Cons.prems by (simp add: despawn_one_def announce_def set_counter_def reset_spawned_def unregister_in_def Let_def split: option.split)
  from Cons.IH[OF this] show ?case by simp
qed simp

lemma fold_unregister_gone:
  "map_of (mi_mobInstances (fold (\<lambda>c. unregisterMobInstance (ci_uid c)) cs mi)) uid
    = (if uid \<in> ci_uid ` set cs then None else map_of (mi_mobInstances mi) uid)"
  by (induction cs arbitrary: mi) (auto simp: unregisterMobInstance_def split: option.split)

lemma despawned_gone:
  assumes "zw_instances (hm_world hm) = Some mi"
  shows "hm_active (checkDespawnedChampions env hm) = filter (\<lambda>c. ce_now env < ci_despawnAt c) (hm_active hm) \<and>
    (\<exists>mi'. zw_instances (hm_world (checkDespawnedChampions env hm)) = Some mi' \<and>
      (\<forall>uid. map_of (mi_mobInstances mi') uid =
        (if uid \<in> ci_uid ` {c \<in> set (hm_active hm). ci_despawnAt c \<le> ce_now env} then None else map_of (mi_mobInstances mi) uid)))"
  using fold_despawn_instances[OF assms] by (simp add: checkDespawnedChampions_def Let_def not_le) (simp add: fold_unregister_gone)

section \<open>What goes wrong\<close>

text \<open>
  A timed champion that has been killed comes back at the next tick: his state says that he has not been spawned, and
  the time of his next appearance is still the past one until the game server sends new templates.
\<close>

lemma killed_champion_returns:
  assumes "ts_tmpl s = t" "\<not> ts_spawned s" "0 < tc_nextSpawnAt t" "tc_nextSpawnAt t \<le> sv_epoch (ce_spawn env)"
    and "mb_id (getMobById (sv_templates (ce_spawn env)) (tc_mobTemplateId t)) \<noteq> 0"
  shows "\<exists>c. hm_active (snd (tick_state env s hm)) = hm_active hm @ [c] \<and> ci_slug c = tc_slug t"
proof -
  obtain s1 hm1 where e: "(if tc_nextSpawnAt t - sv_epoch (ce_spawn env) \<le> getInt (ce_config env) ''champion.pre_announce_sec'' 300 \<and> \<not> ts_preAnnounceSent s
      then (s\<lparr>ts_preAnnounceSent := True\<rparr>, announce (SpawnedSoon (tc_gameZoneId t) (tc_slug t)) hm) else (s, hm)) = (s1, hm1)" by fastforce
  then have a: "hm_active hm1 = hm_active hm" by (auto simp: announce_def split: if_splits)
  have "snd (tick_state env s hm) = snd (spawnChampion env (tc_mobTemplateId t) (tc_gameZoneId t) ''[!] '' 2 (tc_slug t) hm1)"
    using assms(1-4) e by (simp add: tick_state_def Let_def case_prod_beta)
  then show ?thesis using spawn_manager(1)[OF assms(5), of "tc_gameZoneId t" "''[!] ''" 2 "tc_slug t" hm1] a by auto
qed

lemma kill_clears_spawned:
  assumes "find (\<lambda>c. ci_uid c = uid) (hm_active hm) = Some c" "ci_slug c = slug" "slug \<noteq> []"
    and "hm_timedStates hm = [s]" "tc_slug (ts_tmpl s) = slug"
  shows "hm_timedStates (onChampionKilled env uid killer name hm) = [s\<lparr>ts_spawned := False\<rparr>]"
  using assms by (simp add: onChampionKilled_def reset_spawned_def announce_def Let_def)

text \<open>
  The mutexes. \<^verbatim>\<open>recordMobKill\<close> holds the one of the counters while it and \<^verbatim>\<open>spawnChampion\<close> take the one
  of the active list; the clean-up of an overdue champion takes them the other way round.
\<close>

datatype mutex = Counter | Active | Timed

datatype action = Lock mutex | Unlock mutex

definition kill_script :: "action list" where
  "kill_script = [Lock Counter, Lock Active, Unlock Active, Lock Active, Unlock Active, Unlock Counter]"

definition despawn_script :: "action list" where
  "despawn_script = [Lock Active, Lock Counter, Unlock Counter, Unlock Active]"

inductive lock_step :: "(mutex \<Rightarrow> nat option) \<times> action list list \<Rightarrow> (mutex \<Rightarrow> nat option) \<times> action list list \<Rightarrow> bool" where
  Acquire: "i < length ts \<Longrightarrow> ts ! i = Lock m # as \<Longrightarrow> h m = None \<Longrightarrow> lock_step (h, ts) (h(m := Some i), ts[i := as])"
| Release: "i < length ts \<Longrightarrow> ts ! i = Unlock m # as \<Longrightarrow> lock_step (h, ts) (h(m := None), ts[i := as])"

definition stuck :: "(mutex \<Rightarrow> nat option) \<times> action list list \<Rightarrow> bool" where
  "stuck st \<longleftrightarrow> (\<exists>as\<in>set (snd st). as \<noteq> []) \<and> (\<nexists>st'. lock_step st st')"

inductive_cases lock_stepE: "lock_step (h, ts) st'"

lemma kill_and_despawn_deadlock:
  "\<exists>st. lock_step\<^sup>*\<^sup>* (\<lambda>_. None, [kill_script, despawn_script]) st \<and> stuck st"
proof -
  let ?h1 = "(\<lambda>_. None)(Counter := Some 0)" let ?h2 = "?h1(Active := Some 1)"
  let ?ts1 = "[tl kill_script, despawn_script]" let ?ts2 = "[tl kill_script, tl despawn_script]"
  have "lock_step (\<lambda>_. None, [kill_script, despawn_script]) (?h1, ?ts1)"
    using lock_step.Acquire[of 0 "[kill_script, despawn_script]" Counter "tl kill_script" "\<lambda>_. None"] by (simp add: kill_script_def)
  moreover have "lock_step (?h1, ?ts1) (?h2, ?ts2)"
    using lock_step.Acquire[of 1 ?ts1 Active "tl despawn_script" ?h1] by (simp add: despawn_script_def)
  moreover have "stuck (?h2, ?ts2)"
  proof -
    have "False" if "lock_step (?h2, ?ts2) st'" for st'
      using that by (elim lock_stepE) (auto simp: kill_script_def despawn_script_def less_Suc_eq)
    then show ?thesis by (auto simp: stuck_def kill_script_def)
  qed
  ultimately show ?thesis by (meson converse_rtranclp_into_rtranclp rtranclp.rtrancl_refl)
qed

end
