(* ===== verification/Npcs.thy ===== *)
theory Npcs
  imports Game_Data Game_Items
begin

text \<open>
  \<^verbatim>\<open>services/NPCManager.cpp\<close>: the NPCs and their attributes, which the game server sends in two messages.
  The order in which an unordered map lists its entries is that of their first insertion.
\<close>

record NPCAttributeStruct =
  na_id :: int
  na_npc_id :: int
  na_name :: string
  na_slug :: string
  na_value :: int

record NPCDataStruct =
  np_id :: int
  np_name :: string
  np_slug :: string
  np_raceName :: string
  np_level :: int
  np_currentHealth :: int
  np_currentMana :: int
  np_maxHealth :: int
  np_maxMana :: int
  np_attributes :: "NPCAttributeStruct list"
  np_skills :: "SkillStruct list"
  np_position :: PositionStruct
  np_npcType :: string
  np_isInteractable :: bool
  np_dialogueId :: string
  np_questSlugs :: "string list"
  np_radius :: int
  np_factionSlug :: string

definition default_npc :: NPCDataStruct where
  "default_npc = \<lparr>np_id = 0, np_name = [], np_slug = [], np_raceName = [], np_level = 0, np_currentHealth = 0, np_currentMana = 0,
     np_maxHealth = 0, np_maxMana = 0, np_attributes = [], np_skills = [], np_position = default_position, np_npcType = [],
     np_isInteractable = True, np_dialogueId = [], np_questSlugs = [], np_radius = 200, np_factionSlug = []\<rparr>"

record npc_manager =
  nm_npcs :: "(int \<times> NPCDataStruct) list"
  nm_attributes :: "int \<Rightarrow> NPCAttributeStruct list option"
  nm_loaded :: bool

definition no_npcs :: npc_manager where
  "no_npcs = \<lparr>nm_npcs = [], nm_attributes = Map.empty, nm_loaded = False\<rparr>"

definition applyAttributesToNPC :: "(int \<Rightarrow> NPCAttributeStruct list option) \<Rightarrow> NPCDataStruct \<Rightarrow> NPCDataStruct" where
  "applyAttributesToNPC attrs npc =
     npc\<lparr>np_attributes := (case attrs (np_id npc) of Some l \<Rightarrow> l | None \<Rightarrow> [])\<rparr>"

definition setNPCsList :: "NPCDataStruct list \<Rightarrow> npc_manager \<Rightarrow> npc_manager" where
  "setNPCsList npcs m = m\<lparr>nm_npcs := fold (\<lambda>n. umap_put (np_id n) (applyAttributesToNPC (nm_attributes m) n)) npcs [],
     nm_loaded := True\<rparr>"

definition setNPCsAttributes :: "NPCAttributeStruct list \<Rightarrow> npc_manager \<Rightarrow> npc_manager" where
  "setNPCsAttributes attributes m =
     (let attrs = fold (\<lambda>a g. g(na_npc_id a \<mapsto> (case g (na_npc_id a) of Some l \<Rightarrow> l | None \<Rightarrow> []) @ [a])) attributes Map.empty
      in m\<lparr>nm_attributes := attrs, nm_npcs := map (\<lambda>(k, n). (k, applyAttributesToNPC attrs n)) (nm_npcs m)\<rparr>)"

definition getAllNPCs :: "npc_manager \<Rightarrow> NPCDataStruct list" where
  "getAllNPCs m = map snd (nm_npcs m)"

definition getNPCById :: "npc_manager \<Rightarrow> int \<Rightarrow> NPCDataStruct" where
  "getNPCById m npcId = (case map_of (nm_npcs m) npcId of Some n \<Rightarrow> n | None \<Rightarrow> default_npc)"

definition getNPCsInArea :: "npc_manager \<Rightarrow> float32 \<Rightarrow> float32 \<Rightarrow> float32 \<Rightarrow> NPCDataStruct list" where
  "getNPCsInArea m centerX centerY radius =
     filter (\<lambda>n. let dx = fl32 (positionX (np_position n) - centerX); dy = fl32 (positionY (np_position n) - centerY)
                 in sqrt32 (fl32 (fl32 (dx * dx) + fl32 (dy * dy))) \<le> radius) (getAllNPCs m)"

definition isNPCsLoaded :: "npc_manager \<Rightarrow> bool" where
  "isNPCsLoaded m = nm_loaded m"

definition getNPCCount :: "npc_manager \<Rightarrow> nat" where
  "getNPCCount m = length (nm_npcs m)"

definition clearNPCData :: "npc_manager \<Rightarrow> npc_manager" where
  "clearNPCData m = no_npcs"

section \<open>The two messages commute\<close>

lemma applyAttributes_twice [simp]:
  "applyAttributesToNPC attrs (applyAttributesToNPC attrs' n) = applyAttributesToNPC attrs n"
  by (simp add: applyAttributesToNPC_def)

lemma map_umap_put: "map (\<lambda>(k, v). (k, f v)) (umap_put k v m) = umap_put k (f v) (map (\<lambda>(k, v). (k, f v)) m)"
  by (induction k v m rule: umap_put.induct) auto

lemma setNPCsAttributes_reads: "nm_attributes (setNPCsAttributes attributes m) = nm_attributes (setNPCsAttributes attributes m')"
  by (simp add: setNPCsAttributes_def Let_def)

text \<open>Whether the attributes arrive before the NPCs or after them, the same NPCs with the same attributes result.\<close>

lemma npc_messages_commute:
  "setNPCsAttributes attributes (setNPCsList npcs m) = setNPCsList npcs (setNPCsAttributes attributes m)"
proof -
  have "map (\<lambda>(k, n). (k, applyAttributesToNPC attrs n)) (fold (\<lambda>n. umap_put (np_id n) (applyAttributesToNPC attrs' n)) npcs acc)
    = fold (\<lambda>n. umap_put (np_id n) (applyAttributesToNPC attrs n)) npcs (map (\<lambda>(k, n). (k, applyAttributesToNPC attrs n)) acc)" for attrs attrs' acc
    by (induction npcs arbitrary: acc) (simp_all add: map_umap_put)
  then show ?thesis by (simp add: setNPCsAttributes_def setNPCsList_def Let_def)
qed

end
