(* ===== verification/Trainers.thy ===== *)
theory Trainers
  imports Inventory Game_Data
begin

text \<open>
  \<^verbatim>\<open>services/TrainerManager.cpp\<close>: the skills each trainer NPC teaches and the shop list a player sees. \<open>None\<close>
  is the null JSON of an NPC that is not a trainer.
\<close>

record ClassSkillTreeEntryStruct =
  ct_skillId :: int
  ct_skillSlug :: string
  ct_skillName :: string
  ct_isPassive :: bool
  ct_requiredLevel :: int
  ct_spCost :: int
  ct_goldCost :: int
  ct_requiresBook :: bool
  ct_bookItemId :: int
  ct_prerequisiteSkillSlug :: string

record TrainerNPCDataStruct =
  tr_npcId :: int
  tr_classId :: int
  tr_skills :: "ClassSkillTreeEntryStruct list"

type_synonym trainer_manager = "int \<Rightarrow> TrainerNPCDataStruct option"

definition setTrainerData :: "TrainerNPCDataStruct list \<Rightarrow> trainer_manager \<Rightarrow> trainer_manager" where
  "setTrainerData ts tm = fold (\<lambda>t m. m(tr_npcId t \<mapsto> t)) ts Map.empty"

definition getTrainerByNpcId :: "trainer_manager \<Rightarrow> int \<Rightarrow> TrainerNPCDataStruct option" where
  "getTrainerByNpcId tm npcId = tm npcId"

definition getSkillEntry :: "trainer_manager \<Rightarrow> int \<Rightarrow> string \<Rightarrow> ClassSkillTreeEntryStruct option" where
  "getSkillEntry tm npcId slug =
     (case tm npcId of None \<Rightarrow> None | Some t \<Rightarrow> find (\<lambda>e. ct_skillSlug e = slug) (tr_skills t))"

record shop_entry =
  sh_entry :: ClassSkillTreeEntryStruct
  sh_bookSlug :: string
  sh_prereqMet :: bool
  sh_levelMet :: bool
  sh_spMet :: bool
  sh_goldMet :: bool
  sh_bookMet :: bool
  sh_canLearn :: bool

text \<open>The character owns a copy of the book, as the shop and the dialogue action look for it.\<close>

definition owns_one :: "PlayerInventoryItemStruct list \<Rightarrow> int \<Rightarrow> bool" where
  "owns_one bag i \<longleftrightarrow> list_ex (\<lambda>r. pi_itemId r = i \<and> 0 < pi_quantity r) bag"

definition shop_row ::
  "item_manager \<Rightarrow> inventory_manager \<Rightarrow> PlayerContextStruct \<Rightarrow> int \<Rightarrow> ClassSkillTreeEntryStruct \<Rightarrow> shop_entry" where
  "shop_row im ivm ctx goldBalance e =
     (let prereqMet = (ct_prerequisiteSkillSlug e = [] \<or> ct_prerequisiteSkillSlug e \<in> set (cx_learnedSkillSlugs ctx));
          levelMet = (ct_requiredLevel e \<le> cx_characterLevel ctx);
          spMet = (ct_spCost e \<le> cx_freeSkillPoints ctx);
          goldMet = (ct_goldCost e \<le> 0 \<or> ct_goldCost e \<le> goldBalance);
          book = (ct_requiresBook e \<and> 0 < ct_bookItemId e);
          bookMet = (\<not> book \<or> owns_one (getPlayerInventory ivm (cx_characterId ctx)) (ct_bookItemId e));
          bookData = getItemById im (ct_bookItemId e)
      in \<lparr>sh_entry = e, sh_bookSlug = (if book \<and> 0 < it_id bookData then it_slug bookData else []),
          sh_prereqMet = prereqMet, sh_levelMet = levelMet, sh_spMet = spMet, sh_goldMet = goldMet, sh_bookMet = bookMet,
          sh_canLearn = (prereqMet \<and> levelMet \<and> spMet \<and> goldMet \<and> bookMet)\<rparr>)"

definition buildSkillShopJson ::
  "item_manager \<Rightarrow> trainer_manager \<Rightarrow> int \<Rightarrow> PlayerContextStruct \<Rightarrow> inventory_manager \<Rightarrow> shop_entry list option" where
  "buildSkillShopJson im tm npcId ctx ivm =
     (case tm npcId of None \<Rightarrow> None
      | Some t \<Rightarrow>
        if 0 < tr_classId t \<and> 0 < cx_classId ctx \<and> tr_classId t \<noteq> cx_classId ctx then Some []
        else Some (map (shop_row im ivm ctx (getGoldAmount im ivm (cx_characterId ctx)))
                (filter (\<lambda>e. ct_skillSlug e \<notin> set (cx_learnedSkillSlugs ctx)) (tr_skills t))))"

lemma shop_list_unlearned:
  assumes "buildSkillShopJson im tm npcId ctx ivm = Some l" "r \<in> set l"
  shows "ct_skillSlug (sh_entry r) \<notin> set (cx_learnedSkillSlugs ctx)"
    and "\<exists>t. tm npcId = Some t \<and> sh_entry r \<in> set (tr_skills t)"
  using assms by (auto simp: buildSkillShopJson_def shop_row_def Let_def split: option.splits if_splits)

end
