(* ===== verification/World_Objects.thy ===== *)
theory World_Objects
  imports Game_Data
begin

text \<open>
  \<^verbatim>\<open>services/WorldObjectManager.cpp\<close>: interactive objects, the state all players share for those of global
  scope, their respawn timers, and the interactions that take time (channels). \<open>now\<close> is the steady clock in nanoseconds.
\<close>

record WorldObjectDataStruct =
  wo_id :: int
  wo_slug :: string
  wo_nameKey :: string
  wo_objectType :: string
  wo_scope :: string
  wo_position :: PositionStruct
  wo_zoneId :: int
  wo_dialogueId :: int
  wo_lootTableId :: int
  wo_requiredItemId :: int
  wo_interactionRadius :: float32
  wo_channelTimeSec :: int
  wo_respawnSec :: int
  wo_isActiveByDefault :: bool
  wo_minLevel :: int
  wo_conditionGroup :: json
  wo_initialState :: string

definition default_object :: WorldObjectDataStruct where
  "default_object = \<lparr>wo_id = 0, wo_slug = [], wo_nameKey = [], wo_objectType = [], wo_scope = ''per_player'',
     wo_position = default_position, wo_zoneId = 0, wo_dialogueId = 0, wo_lootTableId = 0, wo_requiredItemId = 0,
     wo_interactionRadius = 250, wo_channelTimeSec = 0, wo_respawnSec = 0, wo_isActiveByDefault = True, wo_minLevel = 0,
     wo_conditionGroup = JNull, wo_initialState = ''active''\<rparr>"

record WorldObjectInstanceStruct =
  wi_objectId :: int
  wi_state :: string
  wi_depletedAt :: int
  wi_respawnSec :: int

record ChannelSession =
  cs_objectId :: int
  cs_startedAt :: int
  cs_channelTimeSec :: int

record object_manager =
  om_objects :: "(int \<times> WorldObjectDataStruct) list"
  om_states :: "(int \<times> WorldObjectInstanceStruct) list"
  om_channels :: "(int \<times> ChannelSession) list"

section \<open>Objects and their shared state\<close>

definition initial_instance :: "WorldObjectDataStruct \<Rightarrow> WorldObjectInstanceStruct" where
  "initial_instance ob = \<lparr>wi_objectId = wo_id ob, wi_state = (if wo_isActiveByDefault ob then wo_initialState ob else ''disabled''),
     wi_depletedAt = 0, wi_respawnSec = wo_respawnSec ob\<rparr>"

definition setWorldObjects :: "WorldObjectDataStruct list \<Rightarrow> object_manager \<Rightarrow> object_manager" where
  "setWorldObjects objects m = m\<lparr>om_objects := fold (\<lambda>ob. umap_put (wo_id ob) ob) objects [],
     om_states := fold (\<lambda>ob. umap_put (wo_id ob) (initial_instance ob)) (filter (\<lambda>ob. wo_scope ob = ''global'') objects) []\<rparr>"

definition objects_loaded :: "object_manager \<Rightarrow> bool" where
  "objects_loaded m \<longleftrightarrow> om_objects m \<noteq> []"

definition getObjectById :: "object_manager \<Rightarrow> int \<Rightarrow> WorldObjectDataStruct" where
  "getObjectById m objectId = (case map_of (om_objects m) objectId of Some ob \<Rightarrow> ob | None \<Rightarrow> default_object)"

definition getObjectsInZone :: "object_manager \<Rightarrow> int \<Rightarrow> WorldObjectDataStruct list" where
  "getObjectsInZone m zoneId = filter (\<lambda>ob. wo_zoneId ob = zoneId) (map snd (om_objects m))"

definition getAllObjects :: "object_manager \<Rightarrow> WorldObjectDataStruct list" where
  "getAllObjects m = map snd (om_objects m)"

definition getGlobalState :: "object_manager \<Rightarrow> int \<Rightarrow> string" where
  "getGlobalState m objectId = (case map_of (om_states m) objectId of None \<Rightarrow> ''active'' | Some i \<Rightarrow> wi_state i)"

definition setGlobalState :: "int \<Rightarrow> int \<Rightarrow> string \<Rightarrow> object_manager \<Rightarrow> object_manager" where
  "setGlobalState now objectId state m = m\<lparr>om_states := umap_modify objectId (\<lambda>i.
     i\<lparr>wi_state := state, wi_depletedAt := if state = ''depleted'' then now else wi_depletedAt i\<rparr>) (om_states m)\<rparr>"

definition depleteGlobalObject :: "int \<Rightarrow> int \<Rightarrow> object_manager \<Rightarrow> object_manager" where
  "depleteGlobalObject now objectId m = m\<lparr>om_states := umap_modify objectId (\<lambda>i.
     i\<lparr>wi_state := ''depleted'', wi_depletedAt := now\<rparr>) (om_states m)\<rparr>"

definition seconds_since :: "int \<Rightarrow> int \<Rightarrow> int" where
  "seconds_since now t = (now - t) div 1000000000"

definition respawn_due :: "int \<Rightarrow> WorldObjectInstanceStruct \<Rightarrow> bool" where
  "respawn_due now i \<longleftrightarrow> wi_state i = ''depleted'' \<and> 0 < wi_respawnSec i \<and> wi_respawnSec i \<le> seconds_since now (wi_depletedAt i)"

definition tickRespawns :: "int \<Rightarrow> object_manager \<Rightarrow> int list \<times> object_manager" where
  "tickRespawns now m =
     (map fst (filter (\<lambda>(k, i). respawn_due now i) (om_states m)),
      m\<lparr>om_states := map (\<lambda>(k, i). (k, if respawn_due now i then i\<lparr>wi_state := ''active''\<rparr> else i)) (om_states m)\<rparr>)"

section \<open>Channels\<close>

definition startChannelSession :: "int \<Rightarrow> int \<Rightarrow> int \<Rightarrow> int \<Rightarrow> object_manager \<Rightarrow> object_manager" where
  "startChannelSession now characterId objectId channelTimeSec m = m\<lparr>om_channels :=
     umap_put characterId \<lparr>cs_objectId = objectId, cs_startedAt = now, cs_channelTimeSec = channelTimeSec\<rparr> (om_channels m)\<rparr>"

definition getActiveChannelObjectId :: "object_manager \<Rightarrow> int \<Rightarrow> int" where
  "getActiveChannelObjectId m characterId = (case map_of (om_channels m) characterId of None \<Rightarrow> 0 | Some s \<Rightarrow> cs_objectId s)"

definition getChannelProgress :: "int \<Rightarrow> object_manager \<Rightarrow> int \<Rightarrow> float32" where
  "getChannelProgress now m characterId =
     (case map_of (om_channels m) characterId of None \<Rightarrow> - 1
      | Some s \<Rightarrow>
        if cs_channelTimeSec s \<le> 0 then 1
        else
          let elapsed = (now - cs_startedAt s) div 1000000;
              progress = fl32 (fl32 (of_int elapsed) / fl32 (fl32 (of_int (cs_channelTimeSec s)) * 1000))
          in if 1 < progress then 1 else progress)"

definition removeChannelSession :: "int \<Rightarrow> object_manager \<Rightarrow> bool \<times> object_manager" where
  "removeChannelSession characterId m =
     (map_of (om_channels m) characterId \<noteq> None, m\<lparr>om_channels := omap_erase characterId (om_channels m)\<rparr>)"

definition channel_over :: "int \<Rightarrow> ChannelSession \<Rightarrow> bool" where
  "channel_over now s \<longleftrightarrow> cs_channelTimeSec s \<le> seconds_since now (cs_startedAt s)"

definition pollCompletedChannels :: "int \<Rightarrow> object_manager \<Rightarrow> (int \<times> int) list \<times> object_manager" where
  "pollCompletedChannels now m =
     (map (\<lambda>(k, s). (k, cs_objectId s)) (filter (\<lambda>(k, s). channel_over now s) (om_channels m)),
      m\<lparr>om_channels := filter (\<lambda>(k, s). \<not> channel_over now s) (om_channels m)\<rparr>)"

section \<open>Facts\<close>

text \<open>The states the code works with, and where a state is kept: exactly for the objects of global scope.\<close>

definition STATES :: "string set" where
  "STATES = {''active'', ''depleted'', ''disabled''}"

definition objects_ok :: "object_manager \<Rightarrow> bool" where
  "objects_ok m \<longleftrightarrow> distinct (map fst (om_objects m)) \<and> distinct (map fst (om_states m)) \<and> distinct (map fst (om_channels m)) \<and>
     (\<forall>(k, ob) \<in> set (om_objects m). wo_id ob = k) \<and>
     (\<forall>(k, i) \<in> set (om_states m). wi_objectId i = k \<and> wi_state i \<in> STATES)"

lemma getGlobalState_set:
  "getGlobalState (setGlobalState now k st m) k' = (if k' = k \<and> map_of (om_states m) k \<noteq> None then st else getGlobalState m k')"
  by (auto simp: getGlobalState_def setGlobalState_def split: option.split)

lemma getGlobalState_deplete:
  "getGlobalState (depleteGlobalObject now k m) k' = (if k' = k \<and> map_of (om_states m) k \<noteq> None then ''depleted'' else getGlobalState m k')"
  by (auto simp: getGlobalState_def depleteGlobalObject_def split: option.split)

text \<open>A depleted object comes back at the first tick at least its respawn time after it was used up, and not before; an
  object without a respawn time never does.\<close>

lemma tick_respawns_state:
  assumes "distinct (map fst (om_states m))"
  shows "getGlobalState (snd (tickRespawns now m)) k =
      (case map_of (om_states m) k of None \<Rightarrow> ''active'' | Some i \<Rightarrow> if respawn_due now i then ''active'' else wi_state i)"
    and "k \<in> set (fst (tickRespawns now m)) \<longleftrightarrow> (\<exists>i. map_of (om_states m) k = Some i \<and> respawn_due now i)"
proof -
  have "map_of (map (\<lambda>(k, i). (k, f i)) l) k = map_option f (map_of l k)" for f :: "WorldObjectInstanceStruct \<Rightarrow> WorldObjectInstanceStruct" and l
    by (induction l) auto
  then show "getGlobalState (snd (tickRespawns now m)) k =
      (case map_of (om_states m) k of None \<Rightarrow> ''active'' | Some i \<Rightarrow> if respawn_due now i then ''active'' else wi_state i)"
    by (simp add: tickRespawns_def getGlobalState_def split: option.split)
  show "k \<in> set (fst (tickRespawns now m)) \<longleftrightarrow> (\<exists>i. map_of (om_states m) k = Some i \<and> respawn_due now i)"
    using assms by (force simp: tickRespawns_def map_of_eq_Some_iff)
qed

end
