(* ===== verification/Dialogue_Actions.thy ===== *)
theory Dialogue_Actions
  imports Dialogue_Conditions Dialogue_Sessions Vendor Game_Config Npcs Trainers World_Objects
begin

text \<open>
  \<^verbatim>\<open>services/DialogueActionExecutor.cpp\<close>: what a dialogue node or choice does. An action group is JSON; a read
  of the wrong type throws, and what the actions before it have done stays done. An action is therefore a state
  transformer that may end with an error. Messages for the client, packets for the game server and broadcasts are collected
  in the state and sent by the caller; analytics are sent at once.
\<close>

section \<open>State\<close>

record analytics =
  an_type :: string
  an_character :: int
  an_session :: string
  an_level :: int
  an_payload :: json

record dialogue_world =
  dw_quest :: quest_world
  dw_sessions :: dialogue_manager
  dw_objects :: object_manager
  dw_analytics :: "analytics list"

record dialogue_env =
  de_quest :: quest_env
  de_config :: game_config
  de_npcs :: npc_manager
  de_vendors :: vendor_manager
  de_trainers :: trainer_manager
  de_mastery :: mastery_manager

record repair_entry =
  rp_inventoryItemId :: int
  rp_itemId :: int
  rp_itemName :: string
  rp_durabilityCurrent :: int
  rp_durabilityMax :: int
  rp_repairCost :: int

datatype act_note =
    QuestNote notification
  | QuestOffered int string "QuestStepStruct option" "(string \<times> reward_view option) list"
  | QuestFailed int string
  | ReputationChanged string int
  | ItemNote int string int
  | ExpNote int
  | GoldNote int
  | VendorShop string int string "(ItemDataStruct \<times> int \<times> int \<times> int \<times> int) list"
  | RepairShop int int "repair_entry list"
  | SkillShop int string int int "shop_entry list"
  | LearnFailed string string

record action_state =
  as_world :: dialogue_world
  as_ctx :: PlayerContextStruct
  as_notes :: "act_note list"
  as_packets :: "(int \<times> int \<times> string) list"
  as_broadcasts :: "(int \<times> string \<times> int) list"

type_synonym act = "action_state \<Rightarrow> json_error option \<times> action_state"

section \<open>Building blocks\<close>

definition skip :: act where
  "skip st = (None, st)"

definition attempt :: "json_error + 'a \<Rightarrow> ('a \<Rightarrow> act) \<Rightarrow> act" where
  "attempt r k st = (case r of Inl e \<Rightarrow> (Some e, st) | Inr x \<Rightarrow> k x st)"

definition world_act :: "(dialogue_world \<Rightarrow> dialogue_world) \<Rightarrow> action_state \<Rightarrow> action_state" where
  "world_act f st = st\<lparr>as_world := f (as_world st)\<rparr>"

definition ctx_act :: "(PlayerContextStruct \<Rightarrow> PlayerContextStruct) \<Rightarrow> action_state \<Rightarrow> action_state" where
  "ctx_act f st = st\<lparr>as_ctx := f (as_ctx st)\<rparr>"

definition tell :: "act_note list \<Rightarrow> action_state \<Rightarrow> action_state" where
  "tell ns st = st\<lparr>as_notes := as_notes st @ ns\<rparr>"

definition quest_act :: "(quest_world \<Rightarrow> quest_world) \<Rightarrow> action_state \<Rightarrow> action_state" where
  "quest_act f = world_act (\<lambda>w. w\<lparr>dw_quest := f (dw_quest w)\<rparr>)"

definition send_analytics :: "string \<Rightarrow> int \<Rightarrow> json \<Rightarrow> action_state \<Rightarrow> action_state" where
  "send_analytics t c payload = world_act (\<lambda>w.
     let ch = getCharacterData (qw_chars (dw_quest w)) c in
     if ch_sessionId ch = [] then w
     else w\<lparr>dw_analytics := dw_analytics w @ [\<lparr>an_type = t, an_character = c, an_session = ch_sessionId ch,
             an_level = ch_characterLevel ch, an_payload = payload\<rparr>]\<rparr>)"

text \<open>\<^verbatim>\<open>get<int64_t>()\<close>, with the conversions of \<^const>\<open>get_int\<close> at 64 bits.\<close>

definition wrap64 :: "int \<Rightarrow> int" where
  "wrap64 i = (i + 9223372036854775808) mod 18446744073709551616 - 9223372036854775808"

definition get_int64 :: "json \<Rightarrow> json_error + int" where
  "get_int64 j = (case j of JInt i \<Rightarrow> Inr (wrap64 i)
     | JFloat f \<Rightarrow> Inr (let n = trunc_int f in if wrap64 n = n then n else - 9223372036854775808)
     | JBool b \<Rightarrow> Inr (if b then 1 else 0) | _ \<Rightarrow> Inl TypeError)"

section \<open>The actions\<close>

definition flag_in :: "(quest_manager \<times> character_manager \<Rightarrow> quest_manager \<times> character_manager) \<Rightarrow> quest_world \<Rightarrow> quest_world" where
  "flag_in f w = (let (qm, chars) = f (qw_quests w, qw_chars w) in w\<lparr>qw_quests := qm, qw_chars := chars\<rparr>)"

definition put_bool_flag :: "int \<Rightarrow> string \<Rightarrow> bool \<Rightarrow> action_state \<Rightarrow> action_state" where
  "put_bool_flag c key v st = quest_act (flag_in (setFlagBool c key v)) (ctx_act (\<lambda>x. x\<lparr>cx_flagsBool := (cx_flagsBool x)(key \<mapsto> v)\<rparr>) st)"

definition put_int_flag :: "int \<Rightarrow> string \<Rightarrow> int \<Rightarrow> action_state \<Rightarrow> action_state" where
  "put_int_flag c key v st = quest_act (flag_in (setFlagInt c key v)) (ctx_act (\<lambda>x. x\<lparr>cx_flagsInt := (cx_flagsInt x)(key \<mapsto> v)\<rparr>) st)"

definition int_flag :: "PlayerContextStruct \<Rightarrow> string \<Rightarrow> int" where
  "int_flag x key = (case cx_flagsInt x key of Some i \<Rightarrow> i | None \<Rightarrow> 0)"

definition executeSetFlag :: "json \<Rightarrow> int \<Rightarrow> act" where
  "executeSetFlag action c =
     (if \<not> contains action ''key'' then skip
      else attempt (get_string (member action ''key'')) (\<lambda>key.
        if contains action ''bool_value''
        then attempt (get_bool (member action ''bool_value'')) (\<lambda>v st. (None, put_bool_flag c key v st))
        else if contains action ''int_value''
        then attempt (get_int (member action ''int_value'')) (\<lambda>v st. (None, put_int_flag c key v st))
        else if contains action ''inc''
        then attempt (get_int (member action ''inc'')) (\<lambda>d st. (None, put_int_flag c key (wrap32 (int_flag (as_ctx st) key + d)) st))
        else skip))"

definition quest_slug_payload :: "string \<Rightarrow> json" where
  "quest_slug_payload slug = JObject [(''questSlug'', JString slug)]"

definition offer_note :: "item_manager \<Rightarrow> QuestStruct option \<Rightarrow> act_note list" where
  "offer_note im q = (case q of None \<Rightarrow> []
     | Some q \<Rightarrow> [QuestOffered (qu_id q) (qu_clientQuestKey q) (case qu_steps q of [] \<Rightarrow> None | s # ss \<Rightarrow> Some s)
         (resolveRewardsForClient im (qu_rewards q) False 0)])"

definition offer_in :: "quest_env \<Rightarrow> int \<Rightarrow> string \<Rightarrow> quest_world \<Rightarrow> bool \<times> quest_world" where
  "offer_in env c slug w =
     (let (ok, qm, out) = offerQuest env (qw_chars w) (getPlayerInventory (qw_inv w)) c slug (qw_quests w)
      in (ok, w\<lparr>qw_quests := qm, qw_out := qw_out w @ out\<rparr>))"

definition executeOfferQuest :: "dialogue_env \<Rightarrow> json \<Rightarrow> int \<Rightarrow> act" where
  "executeOfferQuest env action c =
     (if \<not> contains action ''slug'' then skip
      else attempt (get_string (member action ''slug'')) (\<lambda>slug st.
        let (ok, w) = offer_in (de_quest env) c slug (dw_quest (as_world st)); st1 = quest_act (\<lambda>_. w) st
        in (None, if \<not> ok then st1
             else tell (offer_note (qe_items (de_quest env)) (getQuestBySlug (qw_quests w) slug))
                    (send_analytics ''quest_accept'' c (quest_slug_payload slug)
                      (ctx_act (\<lambda>x. x\<lparr>cx_questStates := (cx_questStates x)(slug \<mapsto> ''active'')\<rparr>) st1)))))"

definition executeTurnInQuest :: "dialogue_env \<Rightarrow> json \<Rightarrow> int \<Rightarrow> act" where
  "executeTurnInQuest env action c =
     (if \<not> contains action ''slug'' then skip
      else attempt (get_string (member action ''slug'')) (\<lambda>slug st.
        let (ns, w) = turnInQuest (de_quest env) c slug (dw_quest (as_world st))
        in (None, send_analytics ''quest_complete'' c (quest_slug_payload slug)
                    (tell (map QuestNote ns) (quest_act (\<lambda>_. w) st)))))"

definition advance_in :: "quest_env \<Rightarrow> int \<Rightarrow> string \<Rightarrow> quest_world \<Rightarrow> quest_world" where
  "advance_in env c slug w =
     (let (qm, out) = advanceQuestStepBySlug env (qw_chars w) (getPlayerInventory (qw_inv w)) c slug (qw_quests w)
      in w\<lparr>qw_quests := qm, qw_out := qw_out w @ out\<rparr>)"

definition executeAdvanceQuestStep :: "dialogue_env \<Rightarrow> json \<Rightarrow> int \<Rightarrow> act" where
  "executeAdvanceQuestStep env action c =
     (if \<not> contains action ''slug'' then skip
      else attempt (get_string (member action ''slug'')) (\<lambda>slug st. (None, quest_act (advance_in (de_quest env) c slug) st)))"

definition fail_notes :: "QuestStruct option \<Rightarrow> act_note list" where
  "fail_notes q = (case q of None \<Rightarrow> []
     | Some q \<Rightarrow> QuestFailed (qu_id q) (qu_clientQuestKey q)
         # (if qu_reputationFactionSlug q \<noteq> [] \<and> qu_reputationOnFail q \<noteq> 0
            then [ReputationChanged (qu_reputationFactionSlug q) (qu_reputationOnFail q)] else []))"

definition executeFailQuest :: "dialogue_env \<Rightarrow> json \<Rightarrow> int \<Rightarrow> act" where
  "executeFailQuest env action c =
     (if \<not> contains action ''slug'' then skip
      else attempt (get_string (member action ''slug'')) (\<lambda>slug st.
        let (ok, w) = failQuest (de_quest env) c slug (dw_quest (as_world st)); st1 = quest_act (\<lambda>_. w) st
        in (None, if \<not> ok then st1
             else send_analytics ''quest_abandon'' c (quest_slug_payload slug) (tell (fail_notes (getQuestBySlug (qw_quests w) slug)) st1))))"

text \<open>Adding to the inventory, with the call back into the quest log.\<close>

definition give :: "dialogue_env \<Rightarrow> int \<Rightarrow> int \<Rightarrow> int \<Rightarrow> action_state \<Rightarrow> bool \<times> action_state" where
  "give env c itemId quantity st =
     (fst (addItemToInventory (qe_items (de_quest env)) c itemId quantity (qw_inv (dw_quest (as_world st)))),
      quest_act (gain_item (de_quest env) c itemId quantity) st)"

definition executeGiveItem :: "dialogue_env \<Rightarrow> json \<Rightarrow> int \<Rightarrow> act" where
  "executeGiveItem env action c =
     (if \<not> contains action ''item_id'' then skip
      else attempt (get_int (member action ''item_id'')) (\<lambda>itemId.
        attempt (value_get get_int action ''quantity'' 1) (\<lambda>quantity st.
          let (ok, st1) = give env c itemId quantity st; slug = it_slug (getItemById (qe_items (de_quest env)) itemId)
          in (None, if \<not> ok then st1
               else send_analytics ''item_acquired'' c
                      (JObject [(''source'', JString ''dialogue''), (''itemSlug'', JString slug), (''quantity'', JInt quantity)])
                      (tell [ItemNote itemId slug quantity] st1)))))"

definition executeGiveExp :: "dialogue_env \<Rightarrow> json \<Rightarrow> int \<Rightarrow> act" where
  "executeGiveExp env action c =
     (if \<not> contains action ''amount'' then skip
      else attempt (get_int64 (member action ''amount'')) (\<lambda>amount st.
        let q = de_quest env; w = dw_quest (as_world st);
            (res, chars, out) = grantExperience (qe_pow q) (qe_table q) (qe_expSave q) (qe_expPacket q) (qe_now q) (qe_nowSec q)
              c (wrap32 amount) ''quest_reward'' 0 (qw_chars w);
            st1 = quest_act (\<lambda>w. w\<lparr>qw_chars := chars, qw_expOut := qw_expOut w @ out\<rparr>) st
        in (None, if gr_success res then tell [ExpNote amount] st1 else st1)))"

definition executeGiveGold :: "dialogue_env \<Rightarrow> json \<Rightarrow> int \<Rightarrow> act" where
  "executeGiveGold env action c =
     (if \<not> contains action ''amount'' then skip
      else attempt (get_int64 (member action ''amount'')) (\<lambda>amount st.
        if amount \<le> 0 then (None, st)
        else case getItemBySlug (qe_items (de_quest env)) ''gold_coin'' of None \<Rightarrow> (None, st)
        | Some g \<Rightarrow>
          let (ok, st1) = give env c (it_id g) (wrap32 amount) st
          in (None, if \<not> ok then st1
               else send_analytics ''gold_change'' c
                      (JObject [(''source'', JString ''dialogue_give_gold''), (''delta'', JInt (wrap32 amount))])
                      (tell [GoldNote amount] st1))))"

definition executeOpenVendorShop :: "dialogue_env \<Rightarrow> json \<Rightarrow> int \<Rightarrow> act" where
  "executeOpenVendorShop env action c st =
     (case getSessionByCharacter (dw_sessions (as_world st)) c of None \<Rightarrow> (None, st)
      | Some s \<Rightarrow>
        (case buildShopJson (qe_items (de_quest env)) (de_vendors env) (ds_npcId s)
                (getFloat (de_config env) ''economy.vendor_buy_markup_pct'' 0) of
           None \<Rightarrow> (None, st)
         | Some items \<Rightarrow> attempt (value_get get_string action ''mode'' ''shop'') (\<lambda>mode st.
             (None, tell [VendorShop mode (ds_npcId s) (np_slug (getNPCById (de_npcs env) (ds_npcId s))) items] st)) st))"

text \<open>The cost of a repair is the price of the missing part, rounded up.\<close>

definition repair_cost :: "int \<Rightarrow> int \<Rightarrow> int \<Rightarrow> int" where
  "repair_cost price missing durMax =
     cast_i32 (of_int \<lceil>fl32 (fl32 (of_int price) * fl32 (fl32 (of_int missing) / fl32 (of_int durMax)))\<rceil>)"

definition repair_rows :: "item_manager \<Rightarrow> PlayerInventoryItemStruct \<Rightarrow> repair_entry list" where
  "repair_rows im row =
     (let i = getItemById im (pi_itemId row) in
      if \<not> it_isDurable i \<or> it_durabilityMax i \<le> 0 then []
      else
        let durCurrent = (if 0 < pi_durabilityCurrent row then pi_durabilityCurrent row else it_durabilityMax i);
            missing = wrap32 (it_durabilityMax i - durCurrent) in
        if missing \<le> 0 then []
        else [\<lparr>rp_inventoryItemId = pi_id row, rp_itemId = pi_itemId row, rp_itemName = it_slug i, rp_durabilityCurrent = durCurrent,
               rp_durabilityMax = it_durabilityMax i, rp_repairCost = repair_cost (it_vendorPriceBuy i) missing (it_durabilityMax i)\<rparr>])"

definition executeOpenRepairShop :: "dialogue_env \<Rightarrow> int \<Rightarrow> act" where
  "executeOpenRepairShop env c st =
     (case getSessionByCharacter (dw_sessions (as_world st)) c of None \<Rightarrow> (None, st)
      | Some s \<Rightarrow>
        let im = qe_items (de_quest env); ivm = qw_inv (dw_quest (as_world st))
        in (None, tell [RepairShop (ds_npcId s) (getGoldAmount im ivm c) (concat (map (repair_rows im) (getPlayerInventory ivm c)))] st))"

definition executeChangeReputation :: "dialogue_env \<Rightarrow> json \<Rightarrow> int \<Rightarrow> act" where
  "executeChangeReputation env action c =
     (if \<not> contains action ''faction'' \<or> \<not> contains action ''delta'' then skip
      else attempt (get_string (member action ''faction'')) (\<lambda>faction.
        attempt (get_int (member action ''delta'')) (\<lambda>delta st.
          (None, tell [ReputationChanged faction delta]
             (ctx_act (\<lambda>x. x\<lparr>cx_reputations := (cx_reputations x)(faction \<mapsto>
                  wrap32 ((case cx_reputations x faction of Some r \<Rightarrow> r | None \<Rightarrow> 0) + delta))\<rparr>)
               (quest_act (change_rep (de_quest env) c faction delta) st))))))"

definition executeOpenSkillShop :: "dialogue_env \<Rightarrow> int \<Rightarrow> act" where
  "executeOpenSkillShop env c st =
     (case getSessionByCharacter (dw_sessions (as_world st)) c of None \<Rightarrow> (None, st)
      | Some s \<Rightarrow>
        let im = qe_items (de_quest env); w = dw_quest (as_world st);
            st1 = ctx_act (\<lambda>x. x\<lparr>cx_characterLevel := ch_characterLevel (getCharacterData (qw_chars w) c)\<rparr>) st in
        (case buildSkillShopJson im (de_trainers env) (ds_npcId s) (as_ctx st1) (qw_inv w) of
           None \<Rightarrow> (None, st1)
         | Some entries \<Rightarrow> (None, tell [SkillShop (ds_npcId s) (np_slug (getNPCById (de_npcs env) (ds_npcId s)))
             (cx_freeSkillPoints (as_ctx st1)) (getGoldAmount im (qw_inv w) c) entries] st1)))"

text \<open>The guards of \<^verbatim>\<open>learn_skill\<close> in their order; \<open>None\<close> when they all pass, an empty reason when the code gives none.\<close>

definition learn_refusal :: "item_manager \<Rightarrow> inventory_manager \<Rightarrow> PlayerContextStruct \<Rightarrow> int \<Rightarrow> string \<Rightarrow> int \<Rightarrow> int \<Rightarrow> bool \<Rightarrow> int \<Rightarrow> string option" where
  "learn_refusal im ivm ctx c slug spCost goldCost requiresBook bookItemId =
     (let bag = getPlayerInventory ivm c in
      if slug \<in> set (cx_learnedSkillSlugs ctx) then Some ''already_learned''
      else if cx_freeSkillPoints ctx < spCost then Some ''insufficient_sp''
      else if 0 < goldCost \<and> getItemBySlug im ''gold_coin'' = None then Some []
      else if 0 < goldCost \<and> sum_i32 0 (row_quantities (it_id (the (getItemBySlug im ''gold_coin''))) bag) < goldCost then Some ''insufficient_gold''
      else if requiresBook \<and> 0 < bookItemId \<and> \<not> owns_one bag bookItemId then Some ''missing_skill_book''
      else None)"

definition learn_pay :: "item_manager \<Rightarrow> int \<Rightarrow> int \<Rightarrow> int \<Rightarrow> bool \<Rightarrow> int \<Rightarrow> quest_world \<Rightarrow> quest_world" where
  "learn_pay im c spCost goldCost requiresBook bookItemId w =
     (let ivm1 = (if requiresBook \<and> 0 < bookItemId then snd (removeItemFromInventory c bookItemId 1 (qw_inv w)) else qw_inv w);
          ivm2 = (if 0 < goldCost then (case getItemBySlug im ''gold_coin'' of None \<Rightarrow> ivm1
                    | Some g \<Rightarrow> snd (removeItemFromInventory c (it_id g) goldCost ivm1)) else ivm1)
      in w\<lparr>qw_inv := ivm2, qw_chars := modifyFreeSkillPoints c (wrap32 (- spCost)) (qw_chars w)\<rparr>)"

definition learn_skill :: "dialogue_env \<Rightarrow> int \<Rightarrow> int \<Rightarrow> string \<Rightarrow> int \<Rightarrow> int \<Rightarrow> bool \<Rightarrow> int \<Rightarrow> action_state \<Rightarrow> action_state" where
  "learn_skill env c client slug spCost goldCost requiresBook bookItemId st =
     (let im = qe_items (de_quest env) in
      case learn_refusal im (qw_inv (dw_quest (as_world st))) (as_ctx st) c slug spCost goldCost requiresBook bookItemId of
        Some reason \<Rightarrow> if reason = [] then st else tell [LearnFailed reason slug] st
      | None \<Rightarrow>
        let st1 = ctx_act (\<lambda>x. x\<lparr>cx_freeSkillPoints := max 0 (wrap32 (cx_freeSkillPoints x - spCost)),
                                 cx_learnedSkillSlugs := List.insert slug (cx_learnedSkillSlugs x)\<rparr>)
                    (quest_act (learn_pay im c spCost goldCost requiresBook bookItemId) st)
        in st1\<lparr>as_packets := as_packets st1 @ [(c, client, slug)]\<rparr>)"

definition executeLearnSkill :: "dialogue_env \<Rightarrow> json \<Rightarrow> int \<Rightarrow> int \<Rightarrow> act" where
  "executeLearnSkill env action c client =
     attempt (value_get get_string action ''skill_slug'' []) (\<lambda>slug.
       if slug = [] then skip
       else attempt (value_get get_int action ''sp_cost'' 1) (\<lambda>spCost.
         attempt (value_get get_int action ''gold_cost'' 0) (\<lambda>goldCost.
         attempt (value_get get_bool action ''requires_book'' False) (\<lambda>requiresBook.
         attempt (value_get get_int action ''book_item_id'' 0) (\<lambda>bookItemId st.
           (None, learn_skill env c client slug spCost goldCost requiresBook bookItemId st))))))"

definition object_key :: "int \<Rightarrow> string" where
  "object_key i = ''wio_state_'' @ to_string i"

definition stateCode :: "string \<Rightarrow> int" where
  "stateCode s = (case map_of [(''active'', 0), (''depleted'', 1), (''disabled'', 2)] s of Some i \<Rightarrow> i | None \<Rightarrow> 0)"

definition executeSetObjectState :: "dialogue_env \<Rightarrow> json \<Rightarrow> act" where
  "executeSetObjectState env action =
     attempt (value_get get_int action ''object_id'' 0) (\<lambda>objectId.
       if objectId \<le> 0 then skip
       else attempt (value_get get_string action ''state'' ''active'') (\<lambda>newState st.
         let st1 = world_act (\<lambda>w. w\<lparr>dw_objects := setGlobalState (qe_now (de_quest env)) objectId newState (dw_objects w)\<rparr>) st;
             st2 = ctx_act (\<lambda>x. x\<lparr>cx_flagsInt := (cx_flagsInt x)(object_key objectId \<mapsto> stateCode newState)\<rparr>) st1
         in (None, st2\<lparr>as_broadcasts := as_broadcasts st2 @ [(objectId, newState, 0)]\<rparr>)))"

section \<open>Running a group\<close>

definition executeDispatch :: "dialogue_env \<Rightarrow> int \<Rightarrow> int \<Rightarrow> json \<Rightarrow> string \<Rightarrow> act" where
  "executeDispatch env c client action t =
     (if t = ''set_flag'' then executeSetFlag action c
      else if t = ''offer_quest'' then executeOfferQuest env action c
      else if t = ''turn_in_quest'' then executeTurnInQuest env action c
      else if t = ''fail_quest'' then executeFailQuest env action c
      else if t = ''advance_quest_step'' then executeAdvanceQuestStep env action c
      else if t = ''give_item'' then executeGiveItem env action c
      else if t = ''give_exp'' then executeGiveExp env action c
      else if t = ''give_gold'' then executeGiveGold env action c
      else if t = ''open_vendor_shop'' then executeOpenVendorShop env action c
      else if t = ''open_repair_shop'' then executeOpenRepairShop env c
      else if t = ''open_skill_shop'' then executeOpenSkillShop env c
      else if t = ''change_reputation'' then executeChangeReputation env action c
      else if t = ''learn_skill'' then executeLearnSkill env action c client
      else if t = ''set_object_state'' then executeSetObjectState env action
      else skip)"

fun run_actions :: "dialogue_env \<Rightarrow> int \<Rightarrow> int \<Rightarrow> json list \<Rightarrow> act" where
  "run_actions env c client [] st = (None, st)"
| "run_actions env c client (a # as) st =
     (if \<not> contains a ''type'' then run_actions env c client as st
      else case attempt (get_string (member a ''type'')) (executeDispatch env c client a) st of
          (None, st1) \<Rightarrow> run_actions env c client as st1
        | (Some e, st1) \<Rightarrow> (Some e, st1))"

definition is_object :: "json \<Rightarrow> bool" where
  "is_object j = (case j of JObject m \<Rightarrow> True | _ \<Rightarrow> False)"

text \<open>A group is an array, an object with an array of actions, or a single action. The result starts empty.\<close>

definition execute :: "dialogue_env \<Rightarrow> json \<Rightarrow> int \<Rightarrow> int \<Rightarrow> PlayerContextStruct \<Rightarrow> dialogue_world \<Rightarrow> json_error option \<times> action_state" where
  "execute env actionGroup c client ctx w =
     (let st = \<lparr>as_world = w, as_ctx = ctx, as_notes = [], as_packets = [], as_broadcasts = []\<rparr> in
      if json_empty actionGroup then (None, st)
      else case actionGroup of JArray l \<Rightarrow> run_actions env c client l st
      | _ \<Rightarrow>
        (case member actionGroup ''actions'' of JArray l \<Rightarrow> run_actions env c client l st
         | _ \<Rightarrow> if \<not> is_object actionGroup then (Some TypeError, st)
           else attempt (value_get get_string actionGroup ''type'' []) (executeDispatch env c client actionGroup) st))"

section \<open>What every group of actions keeps\<close>

text \<open>
  A property of the quests, bags and characters that each primitive keeps is kept by every action group, whether it runs to
  its end or stops with an error.
\<close>

locale action_invariant =
  fixes env :: dialogue_env and Q :: "dialogue_world \<Rightarrow> bool"
  assumes flag_bool: "Q w \<Longrightarrow> Q (w\<lparr>dw_quest := flag_in (setFlagBool c key b) (dw_quest w)\<rparr>)"
    and flag_int: "Q w \<Longrightarrow> Q (w\<lparr>dw_quest := flag_in (setFlagInt c key i) (dw_quest w)\<rparr>)"
    and offer: "Q w \<Longrightarrow> Q (w\<lparr>dw_quest := snd (offer_in (de_quest env) c slug (dw_quest w))\<rparr>)"
    and turn_in: "Q w \<Longrightarrow> Q (w\<lparr>dw_quest := snd (turnInQuest (de_quest env) c slug (dw_quest w))\<rparr>)"
    and fail: "Q w \<Longrightarrow> Q (w\<lparr>dw_quest := snd (failQuest (de_quest env) c slug (dw_quest w))\<rparr>)"
    and advance: "Q w \<Longrightarrow> Q (w\<lparr>dw_quest := advance_in (de_quest env) c slug (dw_quest w)\<rparr>)"
    and gain: "Q w \<Longrightarrow> Q (w\<lparr>dw_quest := gain_item (de_quest env) c item n (dw_quest w)\<rparr>)"
    and reputation: "Q w \<Longrightarrow> Q (w\<lparr>dw_quest := change_rep (de_quest env) c faction delta (dw_quest w)\<rparr>)"
    and outside: "Q w \<Longrightarrow> Q (w\<lparr>dw_quest := (dw_quest w)\<lparr>qw_inv := ivm, qw_chars := chars, qw_expOut := out\<rparr>\<rparr>)"
    and objects: "Q w \<Longrightarrow> Q (w\<lparr>dw_objects := ob\<rparr>)"
    and reports: "Q w \<Longrightarrow> Q (w\<lparr>dw_analytics := an\<rparr>)"
begin

definition keeps :: "act \<Rightarrow> bool" where
  "keeps a \<longleftrightarrow> (\<forall>st. Q (as_world st) \<longrightarrow> Q (as_world (snd (a st))))"

lemma keepsI: "(\<And>st. Q (as_world st) \<Longrightarrow> Q (as_world (snd (a st)))) \<Longrightarrow> keeps a"
  by (simp add: keeps_def)

lemma keeps_attempt: "(\<And>x. r = Inr x \<Longrightarrow> keeps (k x)) \<Longrightarrow> keeps (attempt r k)"
  by (auto simp: keeps_def attempt_def split: sum.split)

lemma world_of [simp]:
  "as_world (ctx_act g st) = as_world st" "as_world (tell ns st) = as_world st"
  "as_world (quest_act f st) = (as_world st)\<lparr>dw_quest := f (dw_quest (as_world st))\<rparr>"
  by (simp_all add: ctx_act_def tell_def quest_act_def world_act_def)

lemma keeps_report [simp]: "Q (as_world st) \<Longrightarrow> Q (as_world (send_analytics t c j st))"
  by (simp add: send_analytics_def world_act_def Let_def reports)

lemma keeps_put_flag:
  assumes "Q (as_world st)"
  shows "Q (as_world (put_bool_flag c key b st))" "Q (as_world (put_int_flag c key i st))"
  using flag_bool[OF assms] flag_int[OF assms] by (simp_all add: put_bool_flag_def put_int_flag_def)

lemma keeps_flags: "keeps (executeSetFlag action c)"
  by (auto simp: executeSetFlag_def attempt_def skip_def keeps_put_flag intro!: keepsI split: sum.split)

lemma keeps_give: "Q (as_world st) \<Longrightarrow> Q (as_world (snd (give env c i n st)))"
  by (simp add: give_def gain)

lemma chars_only:
  "Q w \<Longrightarrow> Q (w\<lparr>dw_quest := (dw_quest w)\<lparr>qw_chars := chars, qw_expOut := out\<rparr>\<rparr>)"
  "Q w \<Longrightarrow> Q (w\<lparr>dw_quest := (dw_quest w)\<lparr>qw_inv := ivm, qw_chars := chars\<rparr>\<rparr>)"
  using outside[where ivm = "qw_inv (dw_quest w)" and w = w] outside[where out = "qw_expOut (dw_quest w)" and w = w] by simp_all

lemma keeps_quest_actions:
  "keeps (executeOfferQuest env action c)" "keeps (executeTurnInQuest env action c)"
  "keeps (executeAdvanceQuestStep env action c)" "keeps (executeFailQuest env action c)"
  using offer turn_in fail advance
  by (auto simp: attempt_def skip_def executeOfferQuest_def executeTurnInQuest_def executeAdvanceQuestStep_def executeFailQuest_def
      case_prod_unfold Let_def intro!: keepsI split: sum.split)

lemma keeps_gifts:
  "keeps (executeGiveItem env action c)" "keeps (executeGiveExp env action c)" "keeps (executeGiveGold env action c)"
  using keeps_give chars_only(1)
  by (auto simp: attempt_def skip_def executeGiveItem_def executeGiveExp_def executeGiveGold_def case_prod_unfold Let_def
      intro!: keepsI split: option.split sum.split)

lemma keeps_shops:
  "keeps (executeOpenVendorShop env action c)" "keeps (executeOpenRepairShop env c)" "keeps (executeOpenSkillShop env c)"
  by (auto simp: executeOpenVendorShop_def executeOpenRepairShop_def executeOpenSkillShop_def attempt_def Let_def
      intro!: keepsI split: option.split sum.split)

lemma keeps_learn: "keeps (executeLearnSkill env action c client)"
  using chars_only(2)
  by (auto simp: attempt_def skip_def executeLearnSkill_def learn_skill_def learn_pay_def Let_def intro!: keepsI split: option.split sum.split)

lemma keeps_rest: "keeps (executeChangeReputation env action c)" "keeps (executeSetObjectState env action)" "keeps skip"
  by (auto simp: attempt_def skip_def executeChangeReputation_def executeSetObjectState_def Let_def reputation objects world_act_def
      ctx_act_def intro!: keepsI split: sum.split)

lemma keeps_dispatch: "keeps (executeDispatch env c client action t)"
  by (simp add: executeDispatch_def keeps_flags keeps_quest_actions keeps_gifts keeps_shops keeps_learn keeps_rest)

lemma keeps_run: "Q (as_world st) \<Longrightarrow> Q (as_world (snd (run_actions env c client as st)))"
proof (induction as arbitrary: st)
  case (Cons a as)
  have "keeps (attempt (get_string (member a ''type'')) (executeDispatch env c client a))" by (rule keeps_attempt[OF keeps_dispatch])
  with Cons show ?case by (auto simp: keeps_def split: prod.split option.split)
qed simp

lemma execute_keeps:
  assumes "Q w"
  shows "Q (as_world (snd (execute env actionGroup c client ctx w)))"
proof -
  have "keeps (attempt (value_get get_string actionGroup ''type'' []) (executeDispatch env c client actionGroup))"
    by (rule keeps_attempt[OF keeps_dispatch])
  with assms show ?thesis by (auto simp: execute_def Let_def keeps_run keeps_def split: json.split)
qed

end

lemma evolves_queue [simp]: "evolves qm (queueFlagUpdate u qm)"
  by (simp add: evolves_def queueFlagUpdate_def keys_ok_def quest_log_def)

lemma world_ok_flag:
  assumes "world_ok db0 w" "evolves (qw_quests w) qm"
  shows "world_ok db0 (w\<lparr>qw_quests := qm, qw_chars := chars\<rparr>)"
  by (rule evolves_world_ok[OF assms(1)]) (use assms(2) in simp_all)

lemma offer_in_step: "quest_step db0 w (snd (offer_in env c slug w))"
  using quest_step.Offer[of db0 w env c slug] by (simp add: offer_in_def with_quests_def Let_def case_prod_unfold)

lemma world_ok_gain:
  assumes "world_ok db0 w" shows "world_ok db0 (gain_item env c item n w)"
proof (rule evolves_world_ok[OF assms])
  show "evolves (qw_quests w) (qw_quests (gain_item env c item n w))"
    using assms by (intro gain_item_evolves) (simp add: world_ok_def)
  show "server db0 (qw_out (gain_item env c item n w)) = server db0 (qw_out w)"
    by (simp add: gain_item_def trigger_defs Let_def case_prod_unfold)
qed

lemma world_ok_same:
  "world_ok db0 w \<Longrightarrow> qw_quests w' = qw_quests w \<Longrightarrow> qw_out w' = qw_out w \<Longrightarrow> world_ok db0 w'"
  by (simp add: world_ok_def)

lemma change_rep_same [simp]: "qw_quests (change_rep env c f d w) = qw_quests w" "qw_out (change_rep env c f d w) = qw_out w"
  "qw_inv (change_rep env c f d w) = qw_inv w" "qw_chars (change_rep env c f d w) = qw_chars w"
  by (simp_all add: change_rep_def case_prod_unfold Let_def)

lemma world_ok_advance: "world_ok db0 w \<Longrightarrow> world_ok db0 (advance_in env c slug w)"
  using step_world_ok[OF quest_step.Advance, of db0 w env c slug] by (simp add: advance_in_def with_quests_def case_prod_unfold Let_def)

lemma world_ok_flag_in:
  assumes "world_ok db0 w" shows "world_ok db0 (flag_in (setFlagBool c key b) w)" "world_ok db0 (flag_in (setFlagInt c key i) w)"
  using assms by (auto simp: flag_in_def setFlagBool_def setFlagInt_def Let_def intro!: world_ok_flag)

interpretation quest_log_kept: action_invariant env "\<lambda>w. world_ok db0 (dw_quest w)" for env db0
proof unfold_locales
  fix w c slug item n f d ivm chars out
  assume w: "world_ok db0 (dw_quest w)"
  show "world_ok db0 (dw_quest (w\<lparr>dw_quest := change_rep (de_quest env) c f d (dw_quest w)\<rparr>))"
    "world_ok db0 (dw_quest (w\<lparr>dw_quest := (dw_quest w)\<lparr>qw_inv := ivm, qw_chars := chars, qw_expOut := out\<rparr>\<rparr>))"
    by (rule world_ok_same[OF w]; simp)+
qed (simp_all add: world_ok_flag_in world_ok_gain world_ok_advance step_world_ok[OF offer_in_step] step_world_ok[OF quest_step.Turn_In]
    step_world_ok[OF quest_step.Fail])

text \<open>No action opens, moves or closes a dialogue.\<close>

interpretation sessions_kept: action_invariant env "\<lambda>w. dw_sessions w = m" for env m
  by unfold_locales simp_all

text \<open>C35: Dialogues cannot damage the quest log: whatever an action group does, and also when a malformed action stops it
  halfway, the log stays well formed and everything not marked for saving is what the game server holds.\<close>

theorem dialogue_keeps_quest_log:
  assumes "quest_run db0 quests (dw_quest w)" "db_ok (setQuests quests no_quests) db0"
    and "execute env actionGroup c client ctx w = (e, st)"
  shows "log_ok (qw_quests (dw_quest (as_world st))) \<and>
    synced (server db0 (qw_out (dw_quest (as_world st)))) (qw_quests (dw_quest (as_world st)))"
  using quest_log_kept.execute_keeps[OF run_world_ok[OF assms(1,2)], of env actionGroup c client ctx] assms(3)
  by (simp add: world_ok_def)

definition no_masteries :: mastery_manager where
  "no_masteries = \<lparr>mm_data = Map.empty, mm_hitCounters = (\<lambda>_ _. 0), mm_definitions = []\<rparr>"

definition sample_dialogue_env :: dialogue_env where
  "sample_dialogue_env = \<lparr>de_quest = sample_env, de_config = [], de_npcs = no_npcs, de_vendors = Map.empty, de_trainers = Map.empty, de_mastery = no_masteries\<rparr>"

definition sample_dialogue_world :: dialogue_world where
  "sample_dialogue_world = \<lparr>dw_quest = offered hunt, dw_sessions = no_dialogues,
     dw_objects = \<lparr>om_objects = [], om_states = [], om_channels = []\<rparr>, dw_analytics = []\<rparr>"

definition sample_ctx :: PlayerContextStruct where
  "sample_ctx = buildPlayerContext no_quests (empty_inventory False False False) Map.empty no_masteries default_character"

definition bad_group :: json where
  "bad_group = JArray [JObject [(''type'', JString ''fail_quest''), (''slug'', JString ''hunt'')],
     JObject [(''type'', JString ''give_gold''), (''amount'', JString ''ten'')]]"

lemma bad_group_stops:
  "execute sample_dialogue_env bad_group 7 1 sample_ctx sample_dialogue_world =
    (Some TypeError, snd (executeFailQuest sample_dialogue_env (JObject [(''type'', JString ''fail_quest''), (''slug'', JString ''hunt'')]) 7
      \<lparr>as_world = sample_dialogue_world, as_ctx = sample_ctx, as_notes = [], as_packets = [], as_broadcasts = []\<rparr>))"
  by (simp add: execute_def bad_group_def json_empty_def contains_def member_def get_string_def attempt_def executeDispatch_def
      executeFailQuest_def executeGiveGold_def get_int64_def case_prod_unfold Let_def)

theorem dialogue_keeps_quest_log_witness:
  "case execute sample_dialogue_env bad_group 7 1 sample_ctx sample_dialogue_world of (e, st) \<Rightarrow>
     e = Some TypeError \<and> log_ok (qw_quests (dw_quest (as_world st)))"
proof -
  have "quest_run (\<lambda>_ _. None) [hunt] (dw_quest sample_dialogue_world)" by (simp add: sample_dialogue_world_def offered_run)
  from dialogue_keeps_quest_log[OF this empty_db_ok bad_group_stops] show ?thesis by (simp add: bad_group_stops)
qed

section \<open>An error in the middle\<close>

text \<open>A group that throws has done everything before the action that throws, and nothing after it.\<close>

lemma run_actions_stops:
  assumes "run_actions env c client as st = (Some e, st')"
  shows "\<exists>before a after st1. as = before @ a # after \<and> run_actions env c client before st = (None, st1) \<and>
    attempt (get_string (member a ''type'')) (executeDispatch env c client a) st1 = (Some e, st')"
  using assms
proof (induction as arbitrary: st)
  case (Cons a as)
  show ?case
  proof (cases "contains a ''type''")
    case False
    with Cons.prems have "run_actions env c client as st = (Some e, st')" by simp
    from Cons.IH[OF this] obtain before b after st1 where i: "as = before @ b # after" "run_actions env c client before st = (None, st1)"
      "attempt (get_string (member b ''type'')) (executeDispatch env c client b) st1 = (Some e, st')" by blast
    with False have "run_actions env c client (a # before) st = (None, st1)" by simp
    with i show ?thesis by (metis append_Cons)
  next
    case True
    obtain r st2 where a: "attempt (get_string (member a ''type'')) (executeDispatch env c client a) st = (r, st2)" by fastforce
    show ?thesis
    proof (cases r)
      case None
      with True a Cons.prems have "run_actions env c client as st2 = (Some e, st')" by simp
      from Cons.IH[OF this] obtain before b after st1 where i: "as = before @ b # after" "run_actions env c client before st2 = (None, st1)"
        "attempt (get_string (member b ''type'')) (executeDispatch env c client b) st1 = (Some e, st')" by blast
      with True a None have "run_actions env c client (a # before) st = (None, st1)" by simp
      with i show ?thesis by (metis append_Cons)
    next
      case (Some x)
      with True a Cons.prems have "attempt (get_string (member a ''type'')) (executeDispatch env c client a) st = (Some e, st')" by simp
      then show ?thesis by (metis append_Nil run_actions.simps(1))
    qed
  qed
qed simp

section \<open>Learning a skill\<close>

lemma owns_one_qty: "wf_inventory s \<Longrightarrow> owns_one (getPlayerInventory s c) i \<Longrightarrow> 1 \<le> qty s c i"
  using rows_qty_ge_row[OF wf_rows_pos[OF wf_inventory_rows], of s _ c]
  by (force simp: owns_one_def list_ex_iff getPlayerInventory_def qty_def)

lemma sum_rows_quantity: "sum_i32 0 (row_quantities i (getPlayerInventory s c)) = getItemQuantity s c i"
  by (simp add: getItemQuantity_def getPlayerInventory_def rows_def row_quantities_def split: option.split)

lemma pay_item:
  assumes "wf_inventory s" "0 \<le> n" "n \<le> qty s c i"
  defines "s' \<equiv> (if 0 < n then snd (removeItemFromInventory c i n s) else s)"
  shows "wf_inventory s'" "qty s' c' i' = qty s c' i' - (if c' = c \<and> i' = i then n else 0)"
  using bag.take_iff[OF assms(1), of c i n] bag.take_holds[OF assms(1), of c i n c' i'] bag.take_ok[OF assms(1), of c i n] assms
  by (auto simp: s'_def)

text \<open>C36: Learning a skill costs exactly its price: when all guards pass, the character loses exactly the gold, one
  copy of the book if one is required and exactly the skill points, nobody loses anything else, and one save packet
  is queued; a refusal changes nothing and queues nothing.\<close>

theorem learn_skill_pays:
  fixes env c client slug spCost goldCost requiresBook book st g
  defines "im \<equiv> qe_items (de_quest env)" and "w \<equiv> dw_quest (as_world st)"
    and "st' \<equiv> learn_skill env c client slug spCost goldCost requiresBook book st"
  assumes wf: "wf_inventory (qw_inv w)" and gold: "getItemBySlug im ''gold_coin'' = Some g" "it_id g \<noteq> book"
    and points: "getCharacterFreeSkillPoints (qw_chars w) c = cx_freeSkillPoints (as_ctx st)" "cx_freeSkillPoints (as_ctx st) < INT_LIM"
      "0 \<le> spCost" and c: "map_of (qw_chars w) c \<noteq> None"
  shows "if learn_refusal im (qw_inv w) (as_ctx st) c slug spCost goldCost requiresBook book = None
    then (\<forall>c' i. getItemQuantity (qw_inv (dw_quest (as_world st'))) c' i = getItemQuantity (qw_inv w) c' i
            - (if c' = c \<and> i = it_id g then max 0 goldCost else 0) - (if c' = c \<and> i = book \<and> requiresBook \<and> 0 < book then 1 else 0)) \<and>
      getCharacterFreeSkillPoints (qw_chars (dw_quest (as_world st'))) c = getCharacterFreeSkillPoints (qw_chars w) c - spCost \<and>
      as_packets st' = as_packets st @ [(c, client, slug)]
    else as_world st' = as_world st \<and> as_packets st' = as_packets st"
proof (cases "learn_refusal im (qw_inv w) (as_ctx st) c slug spCost goldCost requiresBook book")
  case (Some r)
  then show ?thesis by (simp add: st'_def learn_skill_def im_def w_def tell_def)
next
  case None
  let ?n = "if requiresBook \<and> 0 < book then 1 else 0 :: int" and ?s = "qw_inv w"
  from None have sp: "spCost \<le> cx_freeSkillPoints (as_ctx st)"
    and g: "max 0 goldCost \<le> qty ?s c (it_id g)" and b: "?n \<le> qty ?s c book"
    using qty_nonneg[OF wf, of c "it_id g"] qty_nonneg[OF wf, of c book] owns_one_qty[OF wf]
    by (auto simp: learn_refusal_def Let_def gold sum_rows_quantity getItemQuantity_exact[OF wf] split: if_splits)
  define s1 where "s1 = (if 0 < ?n then snd (removeItemFromInventory c book ?n ?s) else ?s)"
  have n0: "0 \<le> ?n" by simp
  note book = pay_item[OF wf n0 b, folded s1_def]
  define s2 where "s2 = (if 0 < max 0 goldCost then snd (removeItemFromInventory c (it_id g) (max 0 goldCost) s1) else s1)"
  have "max 0 goldCost \<le> qty s1 c (it_id g)" using g book(2) gold(2) by simp
  note pay = pay_item[OF book(1) _ this, folded s2_def]
  have "qw_inv (dw_quest (as_world st')) = s2"
    using None by (simp add: st'_def learn_skill_def learn_pay_def Let_def im_def[symmetric] w_def[symmetric] gold s2_def s1_def
      quest_act_def world_act_def ctx_act_def)
  moreover have "getItemQuantity s2 c' i = getItemQuantity ?s c' i - (if c' = c \<and> i = it_id g then max 0 goldCost else 0)
      - (if c' = c \<and> i = book \<and> requiresBook \<and> 0 < book then 1 else 0)" for c' i
    by (simp add: getItemQuantity_exact wf pay(1) pay(2) book(2))
  moreover have "wrap32 (- spCost) = - spCost" "wrap32 (getCharacterFreeSkillPoints (qw_chars w) c - spCost) = getCharacterFreeSkillPoints (qw_chars w) c - spCost"
    using sp points by (simp_all add: wrap32_id in_i32_def)
  then have "getCharacterFreeSkillPoints (modifyFreeSkillPoints c (wrap32 (- spCost)) (qw_chars w)) c = getCharacterFreeSkillPoints (qw_chars w) c - spCost"
    using c sp points by (auto simp: getCharacterFreeSkillPoints_def modifyFreeSkillPoints_def Let_def)
  ultimately show ?thesis
    using None by (simp add: st'_def learn_skill_def learn_pay_def Let_def im_def[symmetric] w_def[symmetric] quest_act_def world_act_def ctx_act_def)
qed

definition student :: action_state where
  "student = \<lparr>as_world = sample_dialogue_world\<lparr>dw_quest := (offered hunt)\<lparr>qw_inv := sample_inv,
       qw_chars := [(7, default_character\<lparr>ch_freeSkillPoints := 2\<rparr>)]\<rparr>\<rparr>,
     as_ctx = sample_ctx\<lparr>cx_freeSkillPoints := 2, cx_learnedSkillSlugs := []\<rparr>, as_notes = [], as_packets = [], as_broadcasts = []\<rparr>"

lemma student_simps [simp]:
  "qw_inv (dw_quest (as_world student)) = sample_inv" "cx_freeSkillPoints (as_ctx student) = 2" "cx_learnedSkillSlugs (as_ctx student) = []"
  "qw_chars (dw_quest (as_world student)) = [(7, default_character\<lparr>ch_freeSkillPoints := 2\<rparr>)]"
  "qe_items (de_quest sample_dialogue_env) = sample_items"
  by (simp_all add: student_def sample_dialogue_world_def sample_dialogue_env_def sample_env_def)

theorem learn_skill_pays_witness:
  "case learn_skill sample_dialogue_env 7 1 ''slash'' 2 30 True 3 student of st \<Rightarrow>
    getItemQuantity (qw_inv (dw_quest (as_world st))) 7 1 = 70 \<and> getItemQuantity (qw_inv (dw_quest (as_world st))) 7 3 = 2 \<and>
    getCharacterFreeSkillPoints (qw_chars (dw_quest (as_world st))) 7 = 0"
proof -
  have g: "getItemBySlug sample_items ''gold_coin'' = Some gold_coin" "it_id gold_coin = 1"
    by (simp_all add: getItemBySlug_def sample_items_def sample_item_defs)
  have "learn_refusal sample_items sample_inv (as_ctx student) 7 ''slash'' 2 30 True 3 = None"
    by (simp add: learn_refusal_def Let_def g sum_rows_quantity getItemQuantity_exact) (simp add: owns_one_def getPlayerInventory_def)
  then show ?thesis
    using learn_skill_pays[where env = sample_dialogue_env and c = 7 and st = student and client = 1 and slug = "''slash''"
        and spCost = 2 and goldCost = 30 and requiresBook = True and book = 3 and g = gold_coin]
    by (simp add: g getCharacterFreeSkillPoints_def getItemQuantity_exact)
qed

end
