(* ===== verification/Dialogue_Graphs.thy ===== *)
theory Dialogue_Graphs
  imports Dialogue_Actions
begin

text \<open>
  \<^verbatim>\<open>services/DialogueManager.cpp\<close> and \<^verbatim>\<open>events/handlers/DialogueEventHandler.cpp\<close>: the dialogue graphs,
  the choice of a dialogue for an NPC, the automatic traversal of nodes that need no answer, and the three handlers of the
  client's requests. Packets are collected in a list; a handler whose JSON throws stops where it is, as the \<^verbatim>\<open>catch\<close> of the
  code leaves the state as the exception found it.
\<close>

section \<open>Graphs\<close>

record DialogueNodeStruct =
  dn_id :: int
  dn_dialogueId :: int
  dn_type :: string
  dn_speakerNpcId :: int
  dn_clientNodeKey :: string
  dn_conditionGroup :: json
  dn_actionGroup :: json
  dn_jumpTargetNodeId :: int

record DialogueEdgeStruct =
  eg_id :: int
  eg_fromNodeId :: int
  eg_toNodeId :: int
  eg_orderIndex :: int
  eg_clientChoiceKey :: string
  eg_conditionGroup :: json
  eg_actionGroup :: json
  eg_hideIfLocked :: bool

record DialogueGraphStruct =
  dg_id :: int
  dg_slug :: string
  dg_version :: int
  dg_startNodeId :: int
  dg_nodes :: "int \<Rightarrow> DialogueNodeStruct option"
  dg_edges :: "int \<Rightarrow> DialogueEdgeStruct list option"

record NPCDialogueMappingStruct =
  dm_npcId :: int
  dm_dialogueId :: int
  dm_priority :: int
  dm_conditionGroup :: json

record graph_manager =
  gm_dialoguesById :: "int \<Rightarrow> DialogueGraphStruct option"
  gm_dialoguesBySlug :: "string \<Rightarrow> int option"
  gm_npcMappings :: "int \<Rightarrow> NPCDialogueMappingStruct list option"
  gm_loaded :: bool

definition setDialogues :: "DialogueGraphStruct list \<Rightarrow> graph_manager \<Rightarrow> graph_manager" where
  "setDialogues dialogues m = m\<lparr>gm_dialoguesById := fold (\<lambda>d t. t(dg_id d \<mapsto> d)) dialogues Map.empty,
     gm_dialoguesBySlug := fold (\<lambda>d t. if dg_slug d = [] then t else t(dg_slug d \<mapsto> dg_id d)) dialogues Map.empty, gm_loaded := True\<rparr>"

text \<open>The mappings of an NPC by falling priority; mappings of equal priority keep the order in which they were sent.\<close>

definition setNPCDialogueMappings :: "NPCDialogueMappingStruct list \<Rightarrow> graph_manager \<Rightarrow> graph_manager" where
  "setNPCDialogueMappings mappings m = m\<lparr>gm_npcMappings := (\<lambda>npc.
     case filter (\<lambda>x. dm_npcId x = npc) mappings of [] \<Rightarrow> None | l \<Rightarrow> Some (sort_key (\<lambda>x. - dm_priority x) l))\<rparr>"

fun first_match :: "graph_manager \<Rightarrow> PlayerContextStruct \<Rightarrow> NPCDialogueMappingStruct list \<Rightarrow> json_error + int" where
  "first_match m ctx [] = Inr (- 1)"
| "first_match m ctx (x # xs) =
     (case evaluate (dm_conditionGroup x) ctx of Inl e \<Rightarrow> Inl e
      | Inr b \<Rightarrow> if b \<and> gm_dialoguesById m (dm_dialogueId x) \<noteq> None then Inr (dm_dialogueId x) else first_match m ctx xs)"

definition selectDialogueForNPC :: "graph_manager \<Rightarrow> int \<Rightarrow> PlayerContextStruct \<Rightarrow> json_error + int" where
  "selectDialogueForNPC m npcId ctx = (case gm_npcMappings m npcId of None \<Rightarrow> Inr (- 1) | Some l \<Rightarrow> first_match m ctx l)"

definition getDialogueById :: "graph_manager \<Rightarrow> int \<Rightarrow> DialogueGraphStruct option" where
  "getDialogueById m i = gm_dialoguesById m i"

definition getDialogueBySlug :: "graph_manager \<Rightarrow> string \<Rightarrow> DialogueGraphStruct option" where
  "getDialogueBySlug m slug = (case gm_dialoguesBySlug m slug of None \<Rightarrow> None | Some i \<Rightarrow> gm_dialoguesById m i)"

section \<open>Automatic nodes\<close>

datatype choice_preview =
    NoPreview
  | QuestPreview int string "QuestStepStruct option" "(string \<times> reward_view option) list"
  | TurnInPreview int string "(string \<times> reward_view option) list"

datatype gift = GiftItem string int | GiftGold int | GiftExp int

record choice =
  co_edgeId :: int
  co_clientChoiceKey :: string
  co_conditionMet :: bool
  co_preview :: choice_preview
  co_gifts :: "gift list"

datatype dialogue_out =
    DialogueError string
  | ActionNote act_note
  | SaveLearnedSkill int int string
  | ObjectStateUpdate int string int
  | DialogueNode string int DialogueNodeStruct "choice list"
  | DialogueClose string

record dialogue_state =
  st_world :: dialogue_world
  st_out :: "(int \<times> dialogue_out) list"

definition interactive :: "DialogueNodeStruct \<Rightarrow> bool" where
  "interactive n \<longleftrightarrow> dn_type n = ''line'' \<or> dn_type n = ''choice_hub''"

definition tell_client :: "dialogue_env \<Rightarrow> int \<Rightarrow> dialogue_out list \<Rightarrow> dialogue_state \<Rightarrow> dialogue_state" where
  "tell_client env client outs st =
     (if qe_reachable (de_quest env) client then st\<lparr>st_out := st_out st @ map (Pair client) outs\<rparr> else st)"

text \<open>What is sent after a group has run: notes to the client, packets to the game server, broadcasts to everyone.\<close>

definition deliver :: "dialogue_env \<Rightarrow> int \<Rightarrow> action_state \<Rightarrow> dialogue_state \<Rightarrow> dialogue_state" where
  "deliver env client a st =
     (let st1 = tell_client env client (map ActionNote (as_notes a)) (st\<lparr>st_world := as_world a\<rparr>)
      in st1\<lparr>st_out := st_out st1 @ map (\<lambda>(c, cl, slug). (0, SaveLearnedSkill c cl slug)) (as_packets a)
           @ map (\<lambda>(i, s, r). (0, ObjectStateUpdate i s r)) (as_broadcasts a)\<rparr>)"

text \<open>One automatic node: \<open>Inl\<close> when the traversal ends (with the result), \<open>Inr\<close> the next node.\<close>

definition next_node :: "DialogueGraphStruct \<Rightarrow> int \<Rightarrow> DialogueNodeStruct \<Rightarrow> int option" where
  "next_node g nodeId n =
     (if dn_type n = ''jump'' then (if dn_jumpTargetNodeId n \<le> 0 then None else Some (dn_jumpTargetNodeId n))
      else if dn_type n = ''action'' then
        (case dg_edges g nodeId of Some (e # es) \<Rightarrow> Some (eg_toNodeId e) | _ \<Rightarrow> None)
      else None)"

text \<open>No condition is a condition that holds.\<close>

definition holds_for :: "json \<Rightarrow> PlayerContextStruct \<Rightarrow> json_error + bool" where
  "holds_for conditionGroup ctx = (if json_empty conditionGroup then Inr True else evaluate conditionGroup ctx)"

type_synonym walk = "PlayerContextStruct \<times> dialogue_state"

definition auto_node ::
  "dialogue_env \<Rightarrow> DialogueGraphStruct \<Rightarrow> int \<Rightarrow> int \<Rightarrow> int \<Rightarrow> walk \<Rightarrow> (json_error option \<times> int option) \<times> walk" where
  "auto_node env g c client nodeId w =
     (case w of (ctx, st) \<Rightarrow>
      (case dg_nodes g nodeId of None \<Rightarrow> ((None, None), w)
      | Some n \<Rightarrow>
        (case holds_for (dn_conditionGroup n) ctx of
           Inl e \<Rightarrow> ((Some e, None), w)
         | Inr False \<Rightarrow> ((None, None), w)
         | Inr True \<Rightarrow>
           if json_empty (dn_actionGroup n) then ((None, next_node g nodeId n), w)
           else
             (case execute env (dn_actionGroup n) c client ctx (st_world st) of
                (Some e, a) \<Rightarrow> ((Some e, None), (as_ctx a, st\<lparr>st_world := as_world a\<rparr>))
              | (None, a) \<Rightarrow> ((None, next_node g nodeId n), (as_ctx a, deliver env client a st))))))"

text \<open>\<open>n\<close> nodes are left of the safety cap.\<close>

fun traverse :: "dialogue_env \<Rightarrow> DialogueGraphStruct \<Rightarrow> int \<Rightarrow> int \<Rightarrow> nat \<Rightarrow> int \<Rightarrow> walk \<Rightarrow> (json_error + int) \<times> walk" where
  "traverse env g c client 0 nodeId w = (Inr (- 1), w)"
| "traverse env g c client (Suc left) nodeId w =
     (case dg_nodes g nodeId of None \<Rightarrow> (Inr (- 1), w)
      | Some n \<Rightarrow>
        if interactive n then (Inr nodeId, w)
        else if dn_type n = ''end'' then (Inr (- 1), w)
        else case auto_node env g c client nodeId w of
            ((Some e, _), w1) \<Rightarrow> (Inl e, w1)
          | ((None, None), w1) \<Rightarrow> (Inr (- 1), w1)
          | ((None, Some k), w1) \<Rightarrow> traverse env g c client left k w1)"

definition MAX_AUTO_TRAVERSE :: nat where
  "MAX_AUTO_TRAVERSE = 50"

definition traverseToInteractiveNode ::
  "dialogue_env \<Rightarrow> DialogueGraphStruct \<Rightarrow> int \<Rightarrow> int \<Rightarrow> int \<Rightarrow> walk \<Rightarrow> (json_error + int) \<times> walk" where
  "traverseToInteractiveNode env g c client startNodeId w = traverse env g c client MAX_AUTO_TRAVERSE startNodeId w"

section \<open>The choices of a node\<close>

text \<open>\<^verbatim>\<open>value(key, d)\<close> on an element that may not be an object.\<close>

definition member_or :: "(json \<Rightarrow> json_error + 'a) \<Rightarrow> json \<Rightarrow> string \<Rightarrow> 'a \<Rightarrow> json_error + 'a" where
  "member_or get j k d = (if is_object j then value_get get j k d else Inl TypeError)"

definition bind_read :: "json_error + 'a \<Rightarrow> ('a \<Rightarrow> json_error + 'b) \<Rightarrow> json_error + 'b" where
  "bind_read r k = (case r of Inl e \<Rightarrow> Inl e | Inr x \<Rightarrow> k x)"

definition first_step :: "QuestStruct \<Rightarrow> QuestStepStruct option" where
  "first_step q = (case qu_steps q of [] \<Rightarrow> None | s # ss \<Rightarrow> Some s)"

fun preview :: "item_manager \<Rightarrow> quest_manager \<Rightarrow> json list \<Rightarrow> json_error + choice_preview" where
  "preview im qm [] = Inr NoPreview"
| "preview im qm (a # as) =
     bind_read (member_or get_string a ''type'' []) (\<lambda>t. bind_read (member_or get_string a ''slug'' []) (\<lambda>slug.
       if t = ''offer_quest'' \<and> slug \<noteq> [] then
         Inr (case getQuestBySlug qm slug of None \<Rightarrow> NoPreview
              | Some q \<Rightarrow> QuestPreview (qu_id q) (qu_clientQuestKey q) (first_step q) (resolveRewardsForClient im (qu_rewards q) False 0))
       else if t = ''turn_in_quest'' \<and> slug \<noteq> [] then
         Inr (case getQuestBySlug qm slug of None \<Rightarrow> NoPreview
              | Some q \<Rightarrow> TurnInPreview (qu_id q) (qu_clientQuestKey q) (resolveRewardsForClient im (qu_rewards q) False 0))
       else preview im qm as))"

definition gift_of :: "item_manager \<Rightarrow> json \<Rightarrow> json_error + gift list" where
  "gift_of im a = bind_read (member_or get_string a ''type'' []) (\<lambda>t.
     if t = ''give_item'' then
       bind_read (member_or get_int a ''item_id'' (- 1)) (\<lambda>itemId. bind_read (member_or get_int a ''quantity'' 1) (\<lambda>quantity.
         Inr (if 0 < itemId then [GiftItem (it_slug (getItemById im itemId)) quantity] else [])))
     else if t = ''give_gold'' then
       bind_read (member_or get_int a ''amount'' 0) (\<lambda>amount. Inr (if 0 < amount then [GiftGold amount] else []))
     else if t = ''give_exp'' then
       bind_read (member_or get_int a ''amount'' 0) (\<lambda>amount. Inr (if 0 < amount then [GiftExp amount] else []))
     else Inr [])"

fun collect :: "('a \<Rightarrow> json_error + 'b list) \<Rightarrow> 'a list \<Rightarrow> json_error + 'b list" where
  "collect f [] = Inr []"
| "collect f (x # xs) = bind_read (f x) (\<lambda>y. bind_read (collect f xs) (\<lambda>ys. Inr (y @ ys)))"

definition choice_of :: "item_manager \<Rightarrow> quest_manager \<Rightarrow> PlayerContextStruct \<Rightarrow> DialogueEdgeStruct \<Rightarrow> json_error + choice list" where
  "choice_of im qm ctx e = bind_read (holds_for (eg_conditionGroup e) ctx) (\<lambda>met.
     if \<not> met \<and> eg_hideIfLocked e then Inr []
     else
       let actions = (case eg_actionGroup e of JArray l \<Rightarrow> l | _ \<Rightarrow> []) in
       bind_read (preview im qm actions) (\<lambda>p. bind_read (collect (gift_of im) actions) (\<lambda>gs.
         Inr [\<lparr>co_edgeId = eg_id e, co_clientChoiceKey = eg_clientChoiceKey e, co_conditionMet = met, co_preview = p, co_gifts = gs\<rparr>])))"

definition buildChoicesJson ::
  "item_manager \<Rightarrow> quest_manager \<Rightarrow> DialogueGraphStruct \<Rightarrow> int \<Rightarrow> PlayerContextStruct \<Rightarrow> json_error + choice list" where
  "buildChoicesJson im qm g nodeId ctx =
     (case dg_edges g nodeId of None \<Rightarrow> Inr [] | Some es \<Rightarrow> collect (choice_of im qm ctx) (sort_key eg_orderIndex es))"

section \<open>The handlers\<close>

definition sendDialogueNode ::
  "dialogue_env \<Rightarrow> int \<Rightarrow> DialogueSessionStruct \<Rightarrow> DialogueNodeStruct \<Rightarrow> DialogueGraphStruct \<Rightarrow> PlayerContextStruct
   \<Rightarrow> dialogue_state \<Rightarrow> dialogue_state" where
  "sendDialogueNode env client s n g ctx st =
     (if \<not> qe_reachable (de_quest env) client then st
      else case buildChoicesJson (qe_items (de_quest env)) (qw_quests (dw_quest (st_world st))) g (dn_id n) ctx of
          Inl e \<Rightarrow> st
        | Inr choices \<Rightarrow> tell_client env client [DialogueNode (ds_sessionId s) (ds_npcId s) n choices] st)"

definition on_sessions :: "(dialogue_manager \<Rightarrow> dialogue_manager) \<Rightarrow> dialogue_state \<Rightarrow> dialogue_state" where
  "on_sessions f st = st\<lparr>st_world := (st_world st)\<lparr>dw_sessions := f (dw_sessions (st_world st))\<rparr>\<rparr>"

definition set_current :: "string \<Rightarrow> int \<Rightarrow> dialogue_manager \<Rightarrow> dialogue_manager" where
  "set_current sid nodeId m = m\<lparr>dm_sessions := umap_modify sid (\<lambda>s. s\<lparr>ds_currentNodeId := nodeId\<rparr>) (dm_sessions m)\<rparr>"

definition snapshot :: "dialogue_env \<Rightarrow> int \<Rightarrow> quest_world \<Rightarrow> PlayerContextStruct" where
  "snapshot env c w = buildPlayerContext (qw_quests w) (qw_inv w) (qw_reps w) (de_mastery env) (getCharacterData (qw_chars w) c)"

definition close_dialogue :: "dialogue_env \<Rightarrow> int \<Rightarrow> string \<Rightarrow> dialogue_state \<Rightarrow> dialogue_state" where
  "close_dialogue env client sid st = tell_client env client [DialogueClose sid] (on_sessions (closeSession sid) st)"

text \<open>From a node on: the traversal, then the next question to the player or the end of the dialogue.\<close>

definition go_to ::
  "dialogue_env \<Rightarrow> DialogueGraphStruct \<Rightarrow> int \<Rightarrow> int \<Rightarrow> DialogueSessionStruct \<Rightarrow> int \<Rightarrow> walk \<Rightarrow> dialogue_state" where
  "go_to env g c client s nodeId w =
     (case traverseToInteractiveNode env g c client nodeId w of
        (Inl e, (ctx, st)) \<Rightarrow> st
      | (Inr i, (ctx, st)) \<Rightarrow>
        if i < 0 then close_dialogue env client (ds_sessionId s) st
        else case dg_nodes g i of None \<Rightarrow> st
        | Some n \<Rightarrow> sendDialogueNode env client s n g ctx (on_sessions (set_current (ds_sessionId s) i) st))"

definition isPlayerInRange :: "PositionStruct \<Rightarrow> PositionStruct \<Rightarrow> float32 \<Rightarrow> bool" where
  "isPlayerInRange p q radius \<longleftrightarrow> calculateDistance p q \<le> radius"

definition talk_to :: "dialogue_env \<Rightarrow> int \<Rightarrow> int \<Rightarrow> dialogue_state \<Rightarrow> dialogue_state" where
  "talk_to env c npcId st = st\<lparr>st_world := (st_world st)\<lparr>dw_quest := (let w = dw_quest (st_world st) in
     with_quests w (onNPCTalked (de_quest env) (qw_chars w) (bags_of w) c npcId (qw_quests w)))\<rparr>\<rparr>"

definition handleNPCInteractEvent :: "dialogue_env \<Rightarrow> graph_manager \<Rightarrow> int \<Rightarrow> int \<Rightarrow> int \<Rightarrow> dialogue_state \<Rightarrow> dialogue_state" where
  "handleNPCInteractEvent env gm client c npcId st =
     (let w = dw_quest (st_world st); ch = getCharacterData (qw_chars w) c; npc = getNPCById (de_npcs env) npcId in
      if c \<le> 0 \<or> client \<le> 0 \<or> ch_isDead ch then st
      else if np_id npc \<le> 0 then tell_client env client [DialogueError ''NPC_NOT_FOUND''] st
      else if \<not> np_isInteractable npc then st
      else if \<not> isPlayerInRange (ch_characterPosition ch) (np_position npc) (fl32 (of_int (np_radius npc)))
      then tell_client env client [DialogueError ''OUT_OF_RANGE''] st
      else if np_factionSlug npc \<noteq> [] \<and> getReputation (qw_reps w) c (np_factionSlug npc) < - 500
      then tell_client env client [DialogueError ''BLOCKED_BY_REPUTATION''] st
      else
        let st1 = talk_to env c npcId st; ctx = snapshot env c (dw_quest (st_world st1)) in
        case selectDialogueForNPC gm npcId ctx of Inl e \<Rightarrow> st1
        | Inr d \<Rightarrow>
          if d < 0 then tell_client env client [DialogueError ''NO_DIALOGUE''] st1
          else case getDialogueById gm d of None \<Rightarrow> st1
          | Some g \<Rightarrow>
            let (s, m) = createSession client c npcId d (dg_startNodeId g) (qe_now (de_quest env))
                  (closeSessionByCharacter c (dw_sessions (st_world st1)))
            in go_to env g c client s (dg_startNodeId g) (ctx, on_sessions (\<lambda>_. m) st1))"

definition chosen_edge :: "DialogueGraphStruct \<Rightarrow> int \<Rightarrow> int \<Rightarrow> DialogueEdgeStruct option" where
  "chosen_edge g nodeId edgeId = (case dg_edges g nodeId of None \<Rightarrow> None | Some es \<Rightarrow> find (\<lambda>e. eg_id e = edgeId) es)"

definition take_edge ::
  "dialogue_env \<Rightarrow> DialogueGraphStruct \<Rightarrow> int \<Rightarrow> int \<Rightarrow> DialogueSessionStruct \<Rightarrow> DialogueEdgeStruct \<Rightarrow> PlayerContextStruct
   \<Rightarrow> dialogue_state \<Rightarrow> dialogue_state" where
  "take_edge env g c client s e ctx st =
     (if json_empty (eg_actionGroup e) then go_to env g c client s (eg_toNodeId e) (ctx, st)
      else case execute env (eg_actionGroup e) c client ctx (st_world st) of
          (Some x, a) \<Rightarrow> st\<lparr>st_world := as_world a\<rparr>
        | (None, a) \<Rightarrow> go_to env g c client s (eg_toNodeId e) (as_ctx a, deliver env client a st))"

definition handleDialogueChoiceEvent ::
  "dialogue_env \<Rightarrow> graph_manager \<Rightarrow> int \<Rightarrow> int \<Rightarrow> string \<Rightarrow> int \<Rightarrow> dialogue_state \<Rightarrow> dialogue_state" where
  "handleDialogueChoiceEvent env gm client c sid edgeId st =
     (if c \<le> 0 \<or> client \<le> 0 then st
      else case getSession (dw_sessions (st_world st)) sid of
        None \<Rightarrow> tell_client env client [DialogueError ''SESSION_EXPIRED''] st
      | Some s \<Rightarrow>
        if ds_characterId s \<noteq> c then tell_client env client [DialogueError ''SESSION_EXPIRED''] st
        else case getDialogueById gm (ds_dialogueId s) of None \<Rightarrow> close_dialogue env client sid st
        | Some g \<Rightarrow>
          (case chosen_edge g (ds_currentNodeId s) edgeId of None \<Rightarrow> close_dialogue env client sid st
           | Some e \<Rightarrow>
             let ctx = snapshot env c (dw_quest (st_world st)) in
             case holds_for (eg_conditionGroup e) ctx of Inl x \<Rightarrow> st
             | Inr False \<Rightarrow> tell_client env client [DialogueError ''CHOICE_LOCKED''] st
             | Inr True \<Rightarrow> take_edge env g c client s e ctx st))"

definition handleDialogueCloseEvent :: "dialogue_env \<Rightarrow> int \<Rightarrow> int \<Rightarrow> string \<Rightarrow> dialogue_state \<Rightarrow> dialogue_state" where
  "handleDialogueCloseEvent env client c sid st =
     tell_client env client [DialogueClose sid] (on_sessions (closeSessionByCharacter c) st)"

section \<open>The traversal ends\<close>

text \<open>The traversal without the safety cap.\<close>

partial_function (option) follow ::
  "dialogue_env \<Rightarrow> DialogueGraphStruct \<Rightarrow> int \<Rightarrow> int \<Rightarrow> int \<Rightarrow> walk \<Rightarrow> ((json_error + int) \<times> walk) option" where
  "follow env g c client nodeId w =
     (case dg_nodes g nodeId of None \<Rightarrow> Some (Inr (- 1), w)
      | Some n \<Rightarrow>
        if interactive n then Some (Inr nodeId, w)
        else if dn_type n = ''end'' then Some (Inr (- 1), w)
        else case fst (auto_node env g c client nodeId w) of
            (Some e, _) \<Rightarrow> Some (Inl e, snd (auto_node env g c client nodeId w))
          | (None, None) \<Rightarrow> Some (Inr (- 1), snd (auto_node env g c client nodeId w))
          | (None, Some k) \<Rightarrow> follow env g c client k (snd (auto_node env g c client nodeId w)))"

lemma auto_node_next:
  assumes "auto_node env g c client nodeId w = ((None, Some k), w')"
  shows "\<exists>n. dg_nodes g nodeId = Some n \<and> next_node g nodeId n = Some k"
  using assms by (auto simp: auto_node_def split: prod.splits option.splits sum.splits bool.splits if_splits)

lemma traverse_follow:
  assumes rank: "\<And>k n k'. dg_nodes g k = Some n \<Longrightarrow> next_node g k n = Some k' \<Longrightarrow> rank k' < (rank k :: nat)"
  shows "rank nodeId < left \<Longrightarrow> follow env g c client nodeId w = Some (traverse env g c client left nodeId w)"
proof (induction left arbitrary: nodeId w)
  case (Suc left)
  obtain r t w1 where a: "auto_node env g c client nodeId w = ((r, t), w1)" by (metis prod.collapse)
  have "follow env g c client k w1 = Some (traverse env g c client left k w1)" if "r = None" "t = Some k" for k
  proof -
    obtain n where "dg_nodes g nodeId = Some n" "next_node g nodeId n = Some k" using auto_node_next a \<open>r = None\<close> \<open>t = Some k\<close> by blast
    from rank[OF this] Suc.prems show ?thesis by (intro Suc.IH) simp
  qed
  then show ?case
    by (subst follow.simps) (auto simp: a split: option.split)
qed simp


definition sample_node :: "int \<Rightarrow> string \<Rightarrow> int \<Rightarrow> DialogueNodeStruct" where
  "sample_node i t jump = \<lparr>dn_id = i, dn_dialogueId = 1, dn_type = t, dn_speakerNpcId = 2, dn_clientNodeKey = [], dn_conditionGroup = JNull,
     dn_actionGroup = JNull, dn_jumpTargetNodeId = jump\<rparr>"

definition greeting :: DialogueGraphStruct where
  "greeting = \<lparr>dg_id = 1, dg_slug = ''greeting'', dg_version = 1, dg_startNodeId = 1,
     dg_nodes = [1 \<mapsto> sample_node 1 ''jump'' 2, 2 \<mapsto> sample_node 2 ''line'' 0],
     dg_edges = [2 \<mapsto> [\<lparr>eg_id = 5, eg_fromNodeId = 2, eg_toNodeId = 2, eg_orderIndex = 0, eg_clientChoiceKey = [], eg_conditionGroup = JNull,
       eg_actionGroup = JArray [JObject [(''type'', JString ''fail_quest''), (''slug'', JString ''hunt'')]], eg_hideIfLocked = False\<rparr>]]\<rparr>"


section \<open>What the handlers keep\<close>

lemma execute_sessions: "execute env grp c client ctx w = (r, a) \<Longrightarrow> dw_sessions (as_world a) = dw_sessions w"
  using sessions_kept.execute_keeps[of w "dw_sessions w" env grp c client ctx] by simp

lemma tell_client_world [simp]: "st_world (tell_client env client outs st) = st_world st"
  by (simp add: tell_client_def)

lemma deliver_world [simp]: "st_world (deliver env client a st) = as_world a"
  by (simp add: deliver_def Let_def tell_client_def)

lemma on_sessions_world [simp]:
  "dw_quest (st_world (on_sessions f st)) = dw_quest (st_world st)" "dw_sessions (st_world (on_sessions f st)) = f (dw_sessions (st_world st))"
  by (simp_all add: on_sessions_def)

lemma close_dialogue_world [simp]:
  "dw_quest (st_world (close_dialogue env client sid st)) = dw_quest (st_world st)"
  "dw_sessions (st_world (close_dialogue env client sid st)) = closeSession sid (dw_sessions (st_world st))"
  by (simp_all add: close_dialogue_def)

lemma sendDialogueNode_world [simp]: "st_world (sendDialogueNode env client s n g ctx st) = st_world st"
  by (simp add: sendDialogueNode_def split: sum.split)

lemma auto_node_sessions:
  "auto_node env g c client nodeId w = (r, w') \<Longrightarrow> dw_sessions (st_world (snd w')) = dw_sessions (st_world (snd w))"
  by (auto simp: auto_node_def dest: execute_sessions split: prod.splits option.splits sum.splits bool.splits if_splits)

lemma traverse_sessions:
  "traverse env g c client left nodeId w = (r, w') \<Longrightarrow> dw_sessions (st_world (snd w')) = dw_sessions (st_world (snd w))"
proof (induction left arbitrary: nodeId w)
  case (Suc left)
  obtain r1 t w1 where a: "auto_node env g c client nodeId w = ((r1, t), w1)" by (metis prod.collapse)
  from auto_node_sessions[OF a] Suc.prems Suc.IH[of _ w1] show ?case
    by (auto simp: a split: option.splits if_splits)
qed simp

lemma traverse_node:
  "traverse env g c client left nodeId w = (Inr i, w') \<Longrightarrow> i = - 1 \<or> (\<exists>n. dg_nodes g i = Some n \<and> interactive n)"
proof (induction left arbitrary: nodeId w)
  case (Suc left)
  obtain r1 t w1 where a: "auto_node env g c client nodeId w = ((r1, t), w1)" by (metis prod.collapse)
  from Suc.prems Suc.IH[of _ w1] show ?case by (auto simp: a split: option.splits if_splits)
qed simp

text \<open>C38: A choice is made only by right: whenever the choice handler changes anything of the quests, bags, characters or
  reputations, the session is that of the character, its dialogue exists, the edge leaves the node the
  session stands at, and the edge's condition holds for the character's data at that moment.\<close>

theorem choice_needs_right:
  assumes "dw_quest (st_world (handleDialogueChoiceEvent env gm client c sid edgeId st)) \<noteq> dw_quest (st_world st)"
  shows "\<exists>s g e. getSession (dw_sessions (st_world st)) sid = Some s \<and> ds_characterId s = c \<and>
    getDialogueById gm (ds_dialogueId s) = Some g \<and> chosen_edge g (ds_currentNodeId s) edgeId = Some e \<and>
    holds_for (eg_conditionGroup e) (snapshot env c (dw_quest (st_world st))) = Inr True"
  using assms by (auto simp: handleDialogueChoiceEvent_def Let_def split: if_splits option.splits sum.splits bool.splits)

text \<open>Where a session may stand: at a node that asks the player something, or at the start of its dialogue, where an error
  in the first traversal leaves it.\<close>

definition rests :: "graph_manager \<Rightarrow> DialogueSessionStruct \<Rightarrow> bool" where
  "rests gm s \<longleftrightarrow> (\<exists>g. getDialogueById gm (ds_dialogueId s) = Some g \<and>
     (ds_currentNodeId s = dg_startNodeId g \<or> (\<exists>n. dg_nodes g (ds_currentNodeId s) = Some n \<and> interactive n)))"

definition all_rest :: "graph_manager \<Rightarrow> dialogue_manager \<Rightarrow> bool" where
  "all_rest gm m \<longleftrightarrow> (\<forall>sid s. getSession m sid = Some s \<longrightarrow> ds_sessionId s = sid \<and> rests gm s)"

lemma all_rest_drop: "all_rest gm m \<Longrightarrow> all_rest gm (closeSession sid m)" "all_rest gm m \<Longrightarrow> all_rest gm (closeSessionByCharacter c m)"
  by (auto simp: all_rest_def getSession_def closeSession_def closeSessionByCharacter_def drop_existing_def split: option.splits if_splits)

lemma all_rest_create:
  assumes "all_rest gm m" "createSession client c npc d start now m = (s, m')" "getDialogueById gm d = Some g" "start = dg_startNodeId g"
  shows "all_rest gm m'" "rests gm s" "ds_dialogueId s = d" "getSession m' (ds_sessionId s) = Some s"
  using assms all_rest_drop(2)[OF assms(1), of c]
  by (auto simp: createSession_def Let_def all_rest_def getSession_def rests_def closeSessionByCharacter_def split: if_splits)

lemma all_rest_set:
  assumes "all_rest gm m" "getSession m sid = Some s" "getDialogueById gm (ds_dialogueId s) = Some g" "dg_nodes g i = Some n" "interactive n"
  shows "all_rest gm (set_current sid i m)"
  using assms by (auto simp: all_rest_def getSession_def set_current_def rests_def split: if_splits)

lemma go_to_rests:
  assumes m: "all_rest gm (dw_sessions (st_world (snd w)))" and s: "getSession (dw_sessions (st_world (snd w))) (ds_sessionId s) = Some s"
    and g: "getDialogueById gm (ds_dialogueId s) = Some g"
  shows "all_rest gm (dw_sessions (st_world (go_to env g c client s nodeId w)))"
proof -
  obtain r w' where t: "traverse env g c client MAX_AUTO_TRAVERSE nodeId w = (r, w')" by (metis prod.collapse)
  show ?thesis
  proof (cases r)
    case (Inl e) then show ?thesis using m t traverse_sessions[OF t]
      by (cases w') (simp add: go_to_def traverseToInteractiveNode_def)
  next
    case (Inr i)
    note n = traverse_node[OF t[unfolded Inr]]
    show ?thesis
    proof (cases "dg_nodes g i")
      case None
      with n m t Inr traverse_sessions[OF t] show ?thesis
        by (cases w') (auto simp: go_to_def traverseToInteractiveNode_def all_rest_drop)
    next
      case (Some k)
      with n have "0 \<le> i \<Longrightarrow> interactive k" by auto
      with Some m s g t Inr traverse_sessions[OF t] show ?thesis
        by (cases w') (auto simp: go_to_def traverseToInteractiveNode_def all_rest_drop intro: all_rest_set)
    qed
  qed
qed

inductive dialogue_run :: "dialogue_env \<Rightarrow> graph_manager \<Rightarrow> dialogue_state \<Rightarrow> bool" for env gm where
  Start: "dw_sessions (st_world st) = no_dialogues \<Longrightarrow> dialogue_run env gm st"
| Talk: "dialogue_run env gm st \<Longrightarrow> dialogue_run env gm (handleNPCInteractEvent env gm client c npcId st)"
| Choose: "dialogue_run env gm st \<Longrightarrow> dialogue_run env gm (handleDialogueChoiceEvent env gm client c sid edgeId st)"
| Close: "dialogue_run env gm st \<Longrightarrow> dialogue_run env gm (handleDialogueCloseEvent env client c sid st)"

lemma talk_rests:
  assumes "all_rest gm (dw_sessions (st_world st))"
  shows "all_rest gm (dw_sessions (st_world (handleNPCInteractEvent env gm client c npcId st)))"
proof -
  have talk: "dw_sessions (st_world (talk_to env c npcId st)) = dw_sessions (st_world st)" by (simp add: talk_to_def)
  have "all_rest gm (dw_sessions (st_world (go_to env g c client s (dg_startNodeId g) (ctx, on_sessions (\<lambda>_. m) (talk_to env c npcId st)))))"
    if "createSession client c npcId d (dg_startNodeId g) now (closeSessionByCharacter c (dw_sessions (st_world st))) = (s, m)"
      "getDialogueById gm d = Some g" for d g s m ctx now
    using all_rest_create[OF all_rest_drop(2)[OF assms] that refl] that(2) by (intro go_to_rests) auto
  then show ?thesis using assms
    by (auto simp: handleNPCInteractEvent_def Let_def talk split: sum.split option.split prod.split)
qed

lemma choice_rests:
  assumes m: "all_rest gm (dw_sessions (st_world st))"
  shows "all_rest gm (dw_sessions (st_world (handleDialogueChoiceEvent env gm client c sid edgeId st)))"
proof -
  have "all_rest gm (dw_sessions (st_world (take_edge env g c client s e ctx st)))"
    if s: "getSession (dw_sessions (st_world st)) sid = Some s" and g: "getDialogueById gm (ds_dialogueId s) = Some g" for s g e ctx
  proof -
    have sid: "ds_sessionId s = sid" using m s by (simp add: all_rest_def)
    obtain r a where x: "execute env (eg_actionGroup e) c client ctx (st_world st) = (r, a)" by (metis prod.collapse)
    show ?thesis
      using m s sid execute_sessions[OF x] by (auto simp: take_edge_def x intro!: go_to_rests[OF _ _ g] split: option.split)
  qed
  then show ?thesis using m
    by (auto simp: handleDialogueChoiceEvent_def Let_def all_rest_drop split: option.split sum.split bool.split)
qed

lemma run_rests: "dialogue_run env gm st \<Longrightarrow> all_rest gm (dw_sessions (st_world st))"
proof (induction rule: dialogue_run.induct)
  case (Start st)
  then show ?case by (simp add: all_rest_def getSession_def no_dialogues_def)
next
  case (Close st client c sid)
  then show ?case by (simp add: handleDialogueCloseEvent_def all_rest_drop)
qed (simp_all add: talk_rests choice_rests)


definition guide :: NPCDataStruct where
  "guide = default_npc\<lparr>np_id := 2\<rparr>"

definition talk_env :: dialogue_env where
  "talk_env = sample_dialogue_env\<lparr>de_npcs := no_npcs\<lparr>nm_npcs := [(2, guide)]\<rparr>\<rparr>"

definition greetings :: graph_manager where
  "greetings = setNPCDialogueMappings [\<lparr>dm_npcId = 2, dm_dialogueId = 1, dm_priority = 0, dm_conditionGroup = JNull\<rparr>]
     (setDialogues [greeting] \<lparr>gm_dialoguesById = Map.empty, gm_dialoguesBySlug = Map.empty, gm_npcMappings = Map.empty, gm_loaded = False\<rparr>)"

definition met :: dialogue_state where
  "met = handleNPCInteractEvent talk_env greetings 1 7 2 \<lparr>st_world = sample_dialogue_world, st_out = []\<rparr>"

lemma met_run: "dialogue_run talk_env greetings met"
  unfolding met_def by (rule dialogue_run.Talk[OF dialogue_run.Start]) (simp add: sample_dialogue_world_def)

lemma met_session: "map_option (\<lambda>s. (ds_characterId s, ds_dialogueId s, ds_currentNodeId s)) (getSession (dw_sessions (st_world met)) ''dlg_1_0'') = Some (7, 1, 2)"
  by code_simp


lemma choice_changes:
  "getQuestStateBySlug (qw_quests (dw_quest (st_world (handleDialogueChoiceEvent talk_env greetings 1 7 ''dlg_1_0'' 5 met)))) 7 ''hunt''
    \<noteq> getQuestStateBySlug (qw_quests (dw_quest (st_world met))) 7 ''hunt''"
  by code_simp

theorem choice_needs_right_witness:
  "\<exists>s. getSession (dw_sessions (st_world met)) ''dlg_1_0'' = Some s \<and> ds_characterId s = 7"
proof -
  have "dw_quest (st_world (handleDialogueChoiceEvent talk_env greetings 1 7 ''dlg_1_0'' 5 met)) \<noteq> dw_quest (st_world met)"
    using choice_changes by metis
  from choice_needs_right[OF this] show ?thesis by blast
qed

section \<open>A choice that throws\<close>

text \<open>When a later action of a chosen edge throws, the earlier ones have taken effect, the client hears nothing of them, and the
  session stays where it is: the same choice can be made again.\<close>

lemma failed_choice_is_silent:
  assumes "execute env (eg_actionGroup e) c client ctx (st_world st) = (Some x, a)" "\<not> json_empty (eg_actionGroup e)"
  shows "st_world (take_edge env g c client s e ctx st) = as_world a" "st_out (take_edge env g c client s e ctx st) = st_out st"
    "dw_sessions (as_world a) = dw_sessions (st_world st)"
  using assms execute_sessions[OF assms(1)] by (simp_all add: take_edge_def)

end
