(* ===== verification/Object_Handler.thy ===== *)
theory Object_Handler
  imports Dialogue_Graphs Random_Draws
begin

text \<open>
  \<^verbatim>\<open>events/handlers/WorldObjectEventHandler.cpp\<close>: the interaction of a player with a world object, its guards and
  its effects, and the tick that ends channels and brings objects back. Packets are values; \<open>engine\<close> holds the
  draws of the random engine that a search creates. A condition that cannot be evaluated throws, which the handler catches: nothing
  else happens.
\<close>

datatype object_packet =
    InteractResult int int bool string "(int \<times> int) list"
  | ChannelStarted int int int
  | ChannelComplete int int
  | StateUpdate int string int
  | ChannelCancelled int int
  | SpawnObjects int "(WorldObjectDataStruct \<times> string) list"

record object_env =
  oe_dialogue :: dialogue_env
  oe_graphs :: graph_manager
  oe_now :: int
  oe_client :: "int \<Rightarrow> int"
  oe_engine :: "float32 stream"

record object_state =
  os_world :: dialogue_world
  os_packets :: "object_packet list"

section \<open>Building blocks\<close>

definition object_act :: "(dialogue_world \<Rightarrow> dialogue_world) \<Rightarrow> object_state \<Rightarrow> object_state" where
  "object_act f st = st\<lparr>os_world := f (os_world st)\<rparr>"

definition in_objects :: "(object_manager \<Rightarrow> object_manager) \<Rightarrow> object_state \<Rightarrow> object_state" where
  "in_objects f = object_act (\<lambda>w. w\<lparr>dw_objects := f (dw_objects w)\<rparr>)"

definition in_quest :: "(quest_world \<Rightarrow> quest_world) \<Rightarrow> object_state \<Rightarrow> object_state" where
  "in_quest f = object_act (\<lambda>w. w\<lparr>dw_quest := f (dw_quest w)\<rparr>)"

definition to_client :: "object_env \<Rightarrow> int \<Rightarrow> object_packet \<Rightarrow> object_state \<Rightarrow> object_state" where
  "to_client env client p st =
     (if qe_reachable (de_quest (oe_dialogue env)) client then st\<lparr>os_packets := os_packets st @ [p]\<rparr> else st)"

definition sendInteractResult :: "object_env \<Rightarrow> int \<Rightarrow> int \<Rightarrow> bool \<Rightarrow> string \<Rightarrow> (int \<times> int) list \<Rightarrow> object_state \<Rightarrow> object_state" where
  "sendInteractResult env client objectId success errorCode loot = to_client env client (InteractResult client objectId success errorCode loot)"

definition broadcastStateUpdate :: "int \<Rightarrow> string \<Rightarrow> int \<Rightarrow> object_state \<Rightarrow> object_state" where
  "broadcastStateUpdate objectId newState respawnSec st = st\<lparr>os_packets := os_packets st @ [StateUpdate objectId newState respawnSec]\<rparr>"

definition interacted_key :: "int \<Rightarrow> string" where
  "interacted_key objectId = ''wio_interacted_'' @ to_string objectId"

text \<open>What using an object up means: for all players, or for this one.\<close>

definition use_up :: "object_env \<Rightarrow> int \<Rightarrow> WorldObjectDataStruct \<Rightarrow> object_state \<Rightarrow> object_state" where
  "use_up env c ob st =
     (if wo_scope ob = ''global''
      then broadcastStateUpdate (wo_id ob) ''depleted'' (wo_respawnSec ob) (in_objects (depleteGlobalObject (oe_now env) (wo_id ob)) st)
      else in_quest (flag_in (setFlagBool c (interacted_key (wo_id ob)) True)) st)"

definition quest_progress :: "object_env \<Rightarrow> int \<Rightarrow> int \<Rightarrow> object_state \<Rightarrow> object_state" where
  "quest_progress env c objectId = in_quest (\<lambda>w. with_quests w
     (onWorldObjectInteracted (de_quest (oe_dialogue env)) (qw_chars w) (bags_of w) c objectId (qw_quests w)))"

section \<open>The types of objects\<close>

definition processExamine :: "object_env \<Rightarrow> int \<Rightarrow> int \<Rightarrow> WorldObjectDataStruct \<Rightarrow> object_state \<Rightarrow> object_state" where
  "processExamine env client c ob st =
     (if wo_dialogueId ob \<le> 0 then sendInteractResult env client (wo_id ob) True [] [] st
      else case getDialogueById (oe_graphs env) (wo_dialogueId ob) of
        None \<Rightarrow> sendInteractResult env client (wo_id ob) False ''NO_DIALOGUE'' [] st
      | Some g \<Rightarrow> sendInteractResult env client (wo_id ob) True [] []
          (object_act (\<lambda>w. w\<lparr>dw_sessions := snd (createSession client c (- wo_id ob) (wo_dialogueId ob) (dg_startNodeId g)
             (qe_now (de_quest (oe_dialogue env))) (closeSessionByCharacter c (dw_sessions w)))\<rparr>) st))"

text \<open>The loot of a search goes into the bag; the reply lists it whether or not it fitted.\<close>

fun search_loot :: "object_env \<Rightarrow> int \<Rightarrow> MobLootInfoStruct list \<Rightarrow> float32 stream \<Rightarrow> object_state \<Rightarrow> (int \<times> int) list \<times> object_state" where
  "search_loot env c [] g st = ([], st)"
| "search_loot env c (e # es) g st =
     (if shd g \<le> ml_dropChance e then
        (let n = uniform_int (ml_minQuantity e) (ml_maxQuantity e) (shd (stl g));
             (found, st1) = search_loot env c es (stl (stl g)) (in_quest (gain_item (de_quest (oe_dialogue env)) c (ml_itemId e) n) st)
         in ((ml_itemId e, n) # found, st1))
      else search_loot env c es (stl g) st)"

definition processSearch :: "object_env \<Rightarrow> int \<Rightarrow> int \<Rightarrow> WorldObjectDataStruct \<Rightarrow> object_state \<Rightarrow> object_state" where
  "processSearch env client c ob st =
     (let table = (if 0 < wo_lootTableId ob then getLootForMob (qe_items (de_quest (oe_dialogue env))) (wo_lootTableId ob) else []);
          (found, st1) = search_loot env c table (oe_engine env) st
      in sendInteractResult env client (wo_id ob) True [] found (use_up env c ob st1))"

definition processActivate :: "object_env \<Rightarrow> int \<Rightarrow> int \<Rightarrow> WorldObjectDataStruct \<Rightarrow> object_state \<Rightarrow> object_state" where
  "processActivate env client c ob st = sendInteractResult env client (wo_id ob) True [] [] (use_up env c ob st)"

definition processUseWithItem :: "object_env \<Rightarrow> int \<Rightarrow> int \<Rightarrow> WorldObjectDataStruct \<Rightarrow> object_state \<Rightarrow> object_state" where
  "processUseWithItem env client c ob st =
     (if wo_requiredItemId ob \<le> 0 then sendInteractResult env client (wo_id ob) False ''NO_REQUIRED_ITEM'' [] st
      else if \<not> hasItem (qw_inv (dw_quest (os_world st))) c (wo_requiredItemId ob) 1
      then sendInteractResult env client (wo_id ob) False ''ITEM_NOT_IN_INVENTORY'' [] st
      else sendInteractResult env client (wo_id ob) True [] []
        (use_up env c ob (in_quest (\<lambda>w. w\<lparr>qw_inv := snd (removeItemFromInventory c (wo_requiredItemId ob) 1 (qw_inv w))\<rparr>) st)))"

definition processChanneledStart :: "object_env \<Rightarrow> int \<Rightarrow> int \<Rightarrow> WorldObjectDataStruct \<Rightarrow> object_state \<Rightarrow> object_state" where
  "processChanneledStart env client c ob st =
     (if wo_channelTimeSec ob \<le> 0 then processActivate env client c ob st
      else to_client env client (ChannelStarted client (wo_id ob) (wo_channelTimeSec ob))
        (in_objects (\<lambda>m. startChannelSession (oe_now env) c (wo_id ob) (wo_channelTimeSec ob) (snd (removeChannelSession c m))) st))"

section \<open>The handlers\<close>

text \<open>The context of the conditions: that of a dialogue, without the player's skills and skill points.\<close>

definition object_ctx :: "object_env \<Rightarrow> int \<Rightarrow> quest_world \<Rightarrow> PlayerContextStruct" where
  "object_ctx env c w = (snapshot (oe_dialogue env) c w)\<lparr>cx_freeSkillPoints := 0, cx_learnedSkillSlugs := []\<rparr>"

definition object_distance :: "PositionStruct \<Rightarrow> PositionStruct \<Rightarrow> float32" where
  "object_distance p q =
     (let dx = fl32 (positionX p - positionX q); dy = fl32 (positionY p - positionY q); dz = fl32 (positionZ p - positionZ q)
      in sqrt32 (fl32 (fl32 (fl32 (dx * dx) + fl32 (dy * dy)) + fl32 (dz * dz))))"

text \<open>The guards in their order; the position is the one the client sends.\<close>

definition interact_error :: "object_env \<Rightarrow> int \<Rightarrow> int \<Rightarrow> PositionStruct \<Rightarrow> dialogue_world \<Rightarrow> json_error + string option" where
  "interact_error env c objectId pos w =
     (let ob = getObjectById (dw_objects w) objectId; ch = getCharacterById (qw_chars (dw_quest w)) c;
          ctx = object_ctx env c (dw_quest w); shared = getGlobalState (dw_objects w) objectId in
      if c \<le> 0 \<or> objectId \<le> 0 then Inr (Some ''INVALID_OBJECT'')
      else if wo_id ob = 0 then Inr (Some ''OBJECT_NOT_FOUND'')
      else if fl32 (wo_interactionRadius ob * fl32 (5 / 4)) < object_distance pos (wo_position ob) then Inr (Some ''TOO_FAR'')
      else if ch_characterId ch = 0 then Inr (Some ''CHAR_NOT_FOUND'')
      else if ch_characterLevel ch < wo_minLevel ob then Inr (Some ''LEVEL_TOO_LOW'')
      else case holds_for (wo_conditionGroup ob) ctx of Inl e \<Rightarrow> Inl e
      | Inr fulfilled \<Rightarrow> Inr
         (if \<not> fulfilled then Some ''CONDITIONS_NOT_MET''
          else if wo_scope ob = ''global'' \<and> shared = ''depleted'' then Some ''DEPLETED''
          else if wo_scope ob = ''global'' \<and> shared = ''disabled'' then Some ''DISABLED''
          else if wo_scope ob = ''per_player'' \<and> wo_objectType ob \<noteq> ''examine'' \<and> cx_flagsBool ctx (interacted_key objectId) = Some True
          then Some ''ALREADY_DONE''
          else None))"

definition process_type :: "object_env \<Rightarrow> int \<Rightarrow> int \<Rightarrow> WorldObjectDataStruct \<Rightarrow> object_state \<Rightarrow> object_state" where
  "process_type env client c ob =
     (if wo_objectType ob = ''examine'' then processExamine env client c ob
      else if wo_objectType ob = ''search'' then processSearch env client c ob
      else if wo_objectType ob = ''activate'' then processActivate env client c ob
      else if wo_objectType ob = ''use_with_item'' then processUseWithItem env client c ob
      else if wo_objectType ob = ''channeled'' then processChanneledStart env client c ob
      else sendInteractResult env client (wo_id ob) False ''UNKNOWN_TYPE'' [])"

definition handleInteractEvent :: "object_env \<Rightarrow> int \<Rightarrow> int \<Rightarrow> int \<Rightarrow> PositionStruct \<Rightarrow> object_state \<Rightarrow> object_state" where
  "handleInteractEvent env client c objectId pos st =
     (case interact_error env c objectId pos (os_world st) of
        Inl e \<Rightarrow> st
      | Inr (Some code) \<Rightarrow> sendInteractResult env client objectId False code [] st
      | Inr None \<Rightarrow> quest_progress env c objectId
          (process_type env client c (getObjectById (dw_objects (os_world st)) objectId) st))"

definition handleChannelCancelEvent :: "object_env \<Rightarrow> int \<Rightarrow> int \<Rightarrow> int \<Rightarrow> object_state \<Rightarrow> object_state" where
  "handleChannelCancelEvent env client c objectId st =
     to_client env client (ChannelCancelled client objectId) (in_objects (\<lambda>m. snd (removeChannelSession c m)) st)"

definition completeChannel :: "object_env \<Rightarrow> int \<Rightarrow> int \<Rightarrow> object_state \<Rightarrow> object_state" where
  "completeChannel env c objectId st =
     (let ob = getObjectById (dw_objects (os_world st)) objectId; client = oe_client env c in
      if wo_id ob = 0 \<or> client \<le> 0 then st
      else to_client env client (ChannelComplete client objectId) (quest_progress env c objectId (use_up env c ob st)))"

definition object_tick :: "object_env \<Rightarrow> object_state \<Rightarrow> object_state" where
  "object_tick env st =
     (let (over, m) = pollCompletedChannels (oe_now env) (dw_objects (os_world st));
          st1 = fold (\<lambda>(c, objectId). completeChannel env c objectId) over (in_objects (\<lambda>_. m) st);
          (came, m1) = tickRespawns (oe_now env) (dw_objects (os_world st1))
      in fold (\<lambda>objectId. broadcastStateUpdate objectId ''active'' 0) came (in_objects (\<lambda>_. m1) st1))"

definition buildObjectJson :: "object_manager \<Rightarrow> WorldObjectDataStruct \<Rightarrow> WorldObjectDataStruct \<times> string" where
  "buildObjectJson m ob = (ob, if wo_scope ob = ''global'' then getGlobalState m (wo_id ob) else ''active'')"

definition sendWorldObjectsToClient :: "object_env \<Rightarrow> int \<Rightarrow> int \<Rightarrow> object_state \<Rightarrow> object_state" where
  "sendWorldObjectsToClient env client zoneId st =
     (let m = dw_objects (os_world st)
      in to_client env client (SpawnObjects client (map (buildObjectJson m)
           (if 0 < zoneId then getObjectsInZone m zoneId else getAllObjects m))) st)"

definition handleSetAllWorldObjectsEvent :: "WorldObjectDataStruct list \<Rightarrow> object_state \<Rightarrow> object_state" where
  "handleSetAllWorldObjectsEvent objects = in_objects (setWorldObjects objects)"

section \<open>What an interaction does to the shared objects\<close>

named_theorems object_simps \<open>what each building block does to the object manager and to the packets\<close>

lemma quest_simps [object_simps]:
  "dw_objects (os_world (in_quest f st)) = dw_objects (os_world st)" "os_packets (in_quest f st) = os_packets st"
  "dw_quest (os_world (in_quest f st)) = f (dw_quest (os_world st))"
  "dw_objects (os_world (quest_progress env c k st)) = dw_objects (os_world st)" "os_packets (quest_progress env c k st) = os_packets st"
  by (simp_all add: in_quest_def object_act_def quest_progress_def)

lemma objects_simps [object_simps]:
  "dw_objects (os_world (in_objects f st)) = f (dw_objects (os_world st))" "os_packets (in_objects f st) = os_packets st"
  "dw_quest (os_world (in_objects f st)) = dw_quest (os_world st)"
  by (simp_all add: in_objects_def object_act_def)

lemma world_simps [object_simps]:
  "os_world (to_client env client p st) = os_world st" "os_world (sendInteractResult env client i b s l st) = os_world st"
  "os_world (broadcastStateUpdate k s r st) = os_world st"
  by (simp_all add: to_client_def sendInteractResult_def broadcastStateUpdate_def)

text \<open>How often a new state of an object was announced to all clients.\<close>

definition announces :: "int \<Rightarrow> string \<Rightarrow> object_packet \<Rightarrow> bool" where
  "announces k s p = (case p of StateUpdate k' s' r \<Rightarrow> k' = k \<and> s' = s | _ \<Rightarrow> False)"

definition announced :: "int \<Rightarrow> string \<Rightarrow> object_state \<Rightarrow> nat" where
  "announced k s st = length (filter (announces k s) (os_packets st))"

lemma announced_simps [object_simps]:
  "announced k s (in_quest f st) = announced k s st" "announced k s (in_objects g st) = announced k s st"
  "announced k s (quest_progress env c k' st) = announced k s st" "announced k s (sendInteractResult env client i b e l st) = announced k s st"
  "announced k s (to_client env client (ChannelStarted client i t) st) = announced k s st"
  "announced k s (to_client env client (ChannelComplete client i) st) = announced k s st"
  "announced k s (to_client env client (ChannelCancelled client i) st) = announced k s st"
  "announced k s (object_act (\<lambda>w. w\<lparr>dw_sessions := h w\<rparr>) st) = announced k s st"
  "announced k s (broadcastStateUpdate k' s' r st) = announced k s st + (if k' = k \<and> s' = s then 1 else 0)"
  by (simp_all add: announced_def announces_def in_quest_def in_objects_def object_act_def quest_progress_def sendInteractResult_def to_client_def
      broadcastStateUpdate_def)

lemma act_sessions [object_simps]: "dw_objects (os_world (object_act (\<lambda>w. w\<lparr>dw_sessions := h w\<rparr>) st)) = dw_objects (os_world st)"
  by (simp add: object_act_def)

lemma search_loot_frame: "search_loot env c es g st = (found, st1) \<Longrightarrow>
    dw_objects (os_world st1) = dw_objects (os_world st) \<and> announced k s st1 = announced k s st"
  by (induction env c es g st arbitrary: found st1 rule: search_loot.induct)
    (auto simp: object_simps Let_def split: if_splits prod.splits)

text \<open>The state of the objects, with the announcements, as one value.\<close>

definition shared :: "int \<Rightarrow> object_state \<Rightarrow> nat \<times> nat \<times> object_manager" where
  "shared k st = (announced k ''depleted'' st, announced k ''active'' st, dw_objects (os_world st))"

lemma shared_use_up:
  "shared k (use_up env c ob st) =
    (if wo_scope ob = ''global''
     then (announced k ''depleted'' st + (if wo_id ob = k then 1 else 0), announced k ''active'' st,
           depleteGlobalObject (oe_now env) (wo_id ob) (dw_objects (os_world st)))
     else shared k st)"
  by (simp add: shared_def use_up_def object_simps)

text \<open>Nothing shared changes, the object is used up, or a channel starts.\<close>

lemma shared_frames [object_simps]:
  "shared k (sendInteractResult env client i b e l st) = shared k st"
  "shared k (object_act (\<lambda>w. w\<lparr>dw_sessions := h w\<rparr>) st) = shared k st"
  "shared k (in_quest f st) = shared k st" "shared k (quest_progress env c i st) = shared k st"
  by (simp_all add: shared_def object_simps)

lemma shared_examine: "shared k (processExamine env client c ob st) = shared k st"
  by (simp add: processExamine_def object_simps split: option.split)

lemma shared_search: "shared k (processSearch env client c ob st) = shared k (use_up env c ob st)"
proof -
  obtain found st1 where l: "search_loot env c (if 0 < wo_lootTableId ob
      then getLootForMob (qe_items (de_quest (oe_dialogue env))) (wo_lootTableId ob) else []) (oe_engine env) st = (found, st1)"
    by (metis prod.collapse)
  have "shared k (processSearch env client c ob st) = shared k (use_up env c ob st1)"
    by (simp add: processSearch_def l object_simps)
  also have "\<dots> = shared k (use_up env c ob st)"
    using search_loot_frame[OF l] by (simp add: shared_use_up) (simp add: shared_def)
  finally show ?thesis .
qed

lemma shared_use_item:
  "shared k (processUseWithItem env client c ob st) = shared k (use_up env c ob st) \<or> shared k (processUseWithItem env client c ob st) = shared k st"
  by (simp add: processUseWithItem_def object_simps shared_use_up)

definition channels_begin :: "object_env \<Rightarrow> int \<Rightarrow> WorldObjectDataStruct \<Rightarrow> object_manager \<Rightarrow> object_manager" where
  "channels_begin env c ob m = startChannelSession (oe_now env) c (wo_id ob) (wo_channelTimeSec ob) (snd (removeChannelSession c m))"

lemma shared_channel:
  "shared k (processChanneledStart env client c ob st) =
    (if wo_channelTimeSec ob \<le> 0 then shared k (use_up env c ob st)
     else (announced k ''depleted'' st, announced k ''active'' st, channels_begin env c ob (dw_objects (os_world st))))"
  by (simp add: processChanneledStart_def processActivate_def object_simps channels_begin_def) (simp add: shared_def object_simps)

lemma process_type_cases:
  "process_type env client c ob \<in> {processExamine env client c ob, processSearch env client c ob, processActivate env client c ob,
     processUseWithItem env client c ob, sendInteractResult env client (wo_id ob) False ''UNKNOWN_TYPE'' []} \<or>
   wo_objectType ob = ''channeled'' \<and> process_type env client c ob = processChanneledStart env client c ob"
  by (simp add: process_type_def)

lemma shared_process:
  obtains (up) "shared k (process_type env client c ob st) = shared k (use_up env c ob st)"
  | (same) "shared k (process_type env client c ob st) = shared k st"
  | (chan) "wo_objectType ob = ''channeled''" "0 < wo_channelTimeSec ob" "shared k (process_type env client c ob st) =
      (announced k ''depleted'' st, announced k ''active'' st, channels_begin env c ob (dw_objects (os_world st)))"
  using process_type_cases[of env client c ob] shared_use_item[of k env client c ob st]
  by (cases "wo_channelTimeSec ob \<le> 0") (auto simp: shared_examine shared_search shared_channel processActivate_def object_simps)

text \<open>Between two returns of an object it is used up once.\<close>

inductive object_run :: "object_manager \<Rightarrow> object_state \<Rightarrow> bool" for m0 where
  Start: "dw_objects (os_world st) = m0 \<Longrightarrow> os_packets st = [] \<Longrightarrow> object_run m0 st"
| Interact: "object_run m0 st \<Longrightarrow> object_run m0 (handleInteractEvent env client c objectId pos st)"
| Cancel: "object_run m0 st \<Longrightarrow> object_run m0 (handleChannelCancelEvent env client c objectId st)"
| Tick: "object_run m0 st \<Longrightarrow> object_run m0 (object_tick env st)"
| Elsewhere: "object_run m0 st \<Longrightarrow> dw_objects w = dw_objects (os_world st) \<Longrightarrow> object_run m0 (st\<lparr>os_world := w\<rparr>)"

text \<open>The object \<open>k\<close> is shared by all players, takes no time, and its announcements add up.\<close>

definition instant :: "WorldObjectDataStruct \<Rightarrow> bool" where
  "instant ob \<longleftrightarrow> wo_scope ob = ''global'' \<and> (wo_objectType ob = ''channeled'' \<longrightarrow> wo_channelTimeSec ob \<le> 0)"

definition adds_up :: "int \<Rightarrow> nat \<times> nat \<times> object_manager \<Rightarrow> bool" where
  "adds_up k x \<longleftrightarrow> (case x of (used, came, m) \<Rightarrow> getGlobalState m k \<in> {''active'', ''depleted''} \<and> distinct (map fst (om_states m)) \<and>
     k \<in> fst ` set (om_states m) \<and> k \<notin> (cs_objectId \<circ> snd) ` set (om_channels m) \<and>
     used = came + (if getGlobalState m k = ''depleted'' then 1 else 0))"

definition kept :: "object_manager \<Rightarrow> int \<Rightarrow> object_state \<Rightarrow> bool" where
  "kept m0 k st \<longleftrightarrow> om_objects (dw_objects (os_world st)) = om_objects m0 \<and> adds_up k (shared k st)"

lemma adds_up_use:
  assumes "adds_up k (used, came, m)" "wo_scope ob = ''global''" "wo_id ob = k \<Longrightarrow> getGlobalState m k = ''active''"
  shows "adds_up k (used + (if wo_id ob = k then 1 else 0), came, depleteGlobalObject now (wo_id ob) m)"
proof -
  have "om_channels (depleteGlobalObject now (wo_id ob) m) = om_channels m" by (simp add: depleteGlobalObject_def)
  moreover have "map fst (om_states (depleteGlobalObject now (wo_id ob) m)) = map fst (om_states m)" by (simp add: depleteGlobalObject_def)
  moreover have "fst ` set (om_states (depleteGlobalObject now (wo_id ob) m)) = fst ` set (om_states m)"
    by (simp add: depleteGlobalObject_def umap_modify_def image_image case_prod_unfold)
  ultimately show ?thesis using assms by (auto simp: adds_up_def getGlobalState_deplete map_of_eq_None_iff)
qed

lemma same_objects [object_simps]:
  "om_objects (depleteGlobalObject now i m) = om_objects m" "om_objects (channels_begin env c ob m) = om_objects m"
  "om_objects (snd (removeChannelSession c m)) = om_objects m" "om_objects (snd (pollCompletedChannels now m)) = om_objects m"
  "om_objects (snd (tickRespawns now m)) = om_objects m"
  by (simp_all add: depleteGlobalObject_def channels_begin_def startChannelSession_def removeChannelSession_def pollCompletedChannels_def
      tickRespawns_def)

lemma adds_up_channels:
  assumes "adds_up k (used, came, m)"
  shows "wo_id ob \<noteq> k \<Longrightarrow> adds_up k (used, came, channels_begin env c ob m)"
    and "adds_up k (used, came, snd (removeChannelSession c m))" and "adds_up k (used, came, snd (pollCompletedChannels now m))"
proof -
  have "set (umap_put c v l) \<subseteq> insert (c, v) (set l)" for v :: ChannelSession and l by (induction c v l rule: umap_put.induct) auto
  then show "wo_id ob \<noteq> k \<Longrightarrow> adds_up k (used, came, channels_begin env c ob m)"
    using assms by (fastforce simp: adds_up_def channels_begin_def startChannelSession_def removeChannelSession_def getGlobalState_def omap_erase_def)
qed (use assms in \<open>auto simp: adds_up_def removeChannelSession_def pollCompletedChannels_def getGlobalState_def omap_erase_def\<close>)

lemma kept_shared: "shared k st' = shared k st \<Longrightarrow> kept m0 k st \<Longrightarrow> kept m0 k st'"
  by (simp add: kept_def shared_def)

lemma kept_use_up:
  assumes k: "kept m0 k st" and ob: "wo_id ob = k \<Longrightarrow> getGlobalState (dw_objects (os_world st)) k = ''active''"
  shows "kept m0 k (use_up env c ob st)"
proof (cases "wo_scope ob = ''global''")
  case True
  have "adds_up k (announced k ''depleted'' st, announced k ''active'' st, dw_objects (os_world st))"
    using k by (simp add: kept_def shared_def)
  from adds_up_use[OF this True ob, of "oe_now env"] k True show ?thesis
    by (simp add: kept_def shared_use_up) (simp add: shared_def use_up_def object_simps)
qed (use k kept_shared[of k "use_up env c ob st" st m0] in \<open>simp add: shared_use_up\<close>)

lemma kept_process:
  assumes k: "kept m0 k st" and ob: "wo_id ob = k \<Longrightarrow> instant ob \<and> getGlobalState (dw_objects (os_world st)) k = ''active''"
  shows "kept m0 k (process_type env client c ob st)"
proof (cases rule: shared_process[of k env client c ob st])
  case chan
  then have "wo_id ob \<noteq> k" using ob by (auto simp: instant_def)
  from adds_up_channels(1)[OF _ this] chan(3) k show ?thesis by (simp add: kept_def) (simp add: shared_def object_simps)
qed (use kept_use_up[OF k] ob kept_shared k in blast)+

text \<open>A channel that ends, and the return of objects.\<close>

lemma shared_complete:
  "shared k (completeChannel env c i st) = shared k st \<or>
   wo_id (getObjectById (dw_objects (os_world st)) i) \<noteq> 0 \<and>
   shared k (completeChannel env c i st) = shared k (use_up env c (getObjectById (dw_objects (os_world st)) i) st)"
  by (auto simp: completeChannel_def Let_def) (simp_all add: shared_def object_simps)

lemma kept_fold_complete:
  assumes ids: "\<forall>(i, ob) \<in> set (om_objects m0). wo_id ob = i" and k: "k \<noteq> 0"
  shows "kept m0 k st \<Longrightarrow> k \<notin> snd ` set over \<Longrightarrow> kept m0 k (fold (\<lambda>(c, i). completeChannel env c i) over st)"
proof (induction over arbitrary: st)
  case (Cons d ds)
  obtain c i where d: "d = (c, i)" by (cases d)
  let ?ob = "getObjectById (dw_objects (os_world st)) i"
  have "wo_id ?ob \<noteq> k" if "wo_id ?ob \<noteq> 0"
  proof -
    from that have "(i, ?ob) \<in> set (om_objects m0)"
      using Cons.prems(1) by (auto simp: getObjectById_def default_object_def kept_def dest: map_of_SomeD split: option.splits)
    with ids have "wo_id ?ob = i" by auto
    with Cons.prems(2) d show ?thesis by auto
  qed
  then have "kept m0 k (completeChannel env c i st)"
    using shared_complete[of k env c i st] kept_use_up[OF Cons.prems(1), of ?ob] kept_shared Cons.prems(1) by metis
  with Cons d show ?case by auto
qed simp

lemma fold_active:
  "announced k s (fold (\<lambda>i. broadcastStateUpdate i ''active'' 0) ks st) = announced k s st + (if s = ''active'' then count_list ks k else 0)"
  "dw_objects (os_world (fold (\<lambda>i. broadcastStateUpdate i ''active'' 0) ks st)) = dw_objects (os_world st)"
  by (induction ks arbitrary: st) (simp_all add: object_simps)

lemma count_list_one: "distinct ks \<Longrightarrow> count_list ks k = (if k \<in> set ks then 1 else 0)"
  by (induction ks) auto

lemma adds_up_respawn:
  assumes up: "adds_up k (used, came, m)" and r: "tickRespawns now m = (ks, m1)"
  shows "adds_up k (used, came + count_list ks k, m1)"
proof -
  from up have a: "getGlobalState m k \<in> {''active'', ''depleted''}" "distinct (map fst (om_states m))" "k \<in> fst ` set (om_states m)"
    "k \<notin> (cs_objectId \<circ> snd) ` set (om_channels m)" "used = came + (if getGlobalState m k = ''depleted'' then 1 else 0)"
    unfolding adds_up_def prod.case by blast+
  obtain i where i: "map_of (om_states m) k = Some i" using a(3) by (metis map_of_eq_None_iff not_None_eq)
  then have gi: "getGlobalState m k = wi_state i" by (simp add: getGlobalState_def)
  have ks: "ks = fst (tickRespawns now m)" "m1 = snd (tickRespawns now m)" using r by simp_all
  have "distinct ks" using a(2) unfolding ks tickRespawns_def by (simp add: distinct_map_filter)
  then have c: "count_list ks k = (if respawn_due now i then 1 else 0)"
    using tick_respawns_state(2)[OF a(2), of k now] i by (simp add: ks count_list_one)
  have g: "getGlobalState m1 k = (if respawn_due now i then ''active'' else wi_state i)"
    using tick_respawns_state(1)[OF a(2), of now k] i by (simp add: ks)
  have f: "map fst (om_states m1) = map fst (om_states m)" "om_channels m1 = om_channels m"
    by (simp_all add: ks tickRespawns_def comp_def case_prod_unfold)
  have "k \<in> fst ` set (om_states m1)" using a(3) f(1) by (metis set_map)
  moreover have "respawn_due now i \<Longrightarrow> wi_state i = ''depleted''" by (simp add: respawn_due_def)
  then have "getGlobalState m1 k \<in> {''active'', ''depleted''} \<and>
      used = came + count_list ks k + (if getGlobalState m1 k = ''depleted'' then 1 else 0)"
    using a(1,5) by (cases "respawn_due now i") (simp_all add: c g gi)
  ultimately show ?thesis unfolding adds_up_def prod.case using a(2,4) f by (simp del: set_map)
qed

lemma kept_tick:
  assumes k: "kept m0 k st" "k \<noteq> 0" and ids: "\<forall>(i, ob) \<in> set (om_objects m0). wo_id ob = i"
  shows "kept m0 k (object_tick env st)"
proof -
  obtain over m where p: "pollCompletedChannels (oe_now env) (dw_objects (os_world st)) = (over, m)" by (metis prod.collapse)
  let ?st0 = "in_objects (\<lambda>_. m) st"
  let ?st1 = "fold (\<lambda>(c, i). completeChannel env c i) over ?st0"
  obtain ks m1 where r: "tickRespawns (oe_now env) (dw_objects (os_world ?st1)) = (ks, m1)" by (metis prod.collapse)
  have up: "adds_up k (announced k ''depleted'' st, announced k ''active'' st, dw_objects (os_world st))"
    and obs: "om_objects (dw_objects (os_world st)) = om_objects m0" using k by (simp_all add: kept_def shared_def)
  have m: "m = snd (pollCompletedChannels (oe_now env) (dw_objects (os_world st)))" by (simp add: p)
  have "kept m0 k ?st0"
    using adds_up_channels(3)[OF up, of "oe_now env"] obs by (simp add: kept_def shared_def object_simps m)
  moreover have "k \<notin> snd ` set over"
  proof -
    have "snd ` set over \<subseteq> (cs_objectId \<circ> snd) ` set (om_channels (dw_objects (os_world st)))"
      using p by (force simp: pollCompletedChannels_def)
    with up show ?thesis unfolding adds_up_def prod.case by blast
  qed
  ultimately have k1: "kept m0 k ?st1" by (rule kept_fold_complete[OF ids k(2)])
  then have "adds_up k (announced k ''depleted'' ?st1, announced k ''active'' ?st1, dw_objects (os_world ?st1))"
    by (simp add: kept_def shared_def)
  from adds_up_respawn[OF this r] same_objects(5)[of "oe_now env" "dw_objects (os_world ?st1)"] k1 show ?thesis
    by (simp add: object_tick_def p r kept_def shared_def fold_active object_simps)
qed

lemma kept_interact:
  assumes k: "kept m0 k st" "k \<noteq> 0" and ids: "\<forall>(i, ob) \<in> set (om_objects m0). wo_id ob = i"
    and ob: "map_of (om_objects m0) k = Some ob" "instant ob"
  shows "kept m0 k (handleInteractEvent env client c objectId pos st)"
proof (cases "interact_error env c objectId pos (os_world st)")
  case (Inr r)
  show ?thesis
  proof (cases r)
    case None
    let ?o = "getObjectById (dw_objects (os_world st)) objectId"
    have acc: "interact_error env c objectId pos (os_world st) = Inr None" using Inr None by simp
    have obs: "om_objects (dw_objects (os_world st)) = om_objects m0" using k by (simp add: kept_def)
    have "instant ?o \<and> getGlobalState (dw_objects (os_world st)) k = ''active''" if i: "wo_id ?o = k"
    proof -
      from i k(2) obs have "(objectId, ?o) \<in> set (om_objects m0)"
        by (auto simp: getObjectById_def default_object_def dest: map_of_SomeD split: option.splits)
      with ids i have "objectId = k" by auto
      with ob obs have o: "?o = ob" by (simp add: getObjectById_def)
      have "getGlobalState (dw_objects (os_world st)) k \<in> {''active'', ''depleted''}"
        using k unfolding kept_def shared_def adds_up_def prod.case by blast
      moreover have "getGlobalState (dw_objects (os_world st)) k \<noteq> ''depleted''"
        using acc ob(2) o \<open>objectId = k\<close> by (auto simp: interact_error_def instant_def Let_def split: if_splits sum.splits)
      ultimately show ?thesis using ob(2) o by blast
    qed
    from kept_process[OF k(1) this, of env client c] acc show ?thesis
      by (simp add: handleInteractEvent_def) (rule kept_shared[OF shared_frames(4)])
  qed (use k Inr in \<open>simp add: handleInteractEvent_def kept_def object_simps\<close>)
qed (use k in \<open>simp add: handleInteractEvent_def\<close>)

lemma kept_cancel: "kept m0 k st \<Longrightarrow> kept m0 k (handleChannelCancelEvent env client c i st)"
  using adds_up_channels(2)[of k _ _ "dw_objects (os_world st)" c]
  by (simp add: kept_def shared_def handleChannelCancelEvent_def object_simps)


definition chest :: WorldObjectDataStruct where
  "chest = default_object\<lparr>wo_id := 4, wo_objectType := ''search'', wo_scope := ''global'', wo_respawnSec := 60\<rparr>"

definition chest_manager :: object_manager where
  "chest_manager = setWorldObjects [chest] \<lparr>om_objects = [], om_states = [], om_channels = []\<rparr>"

definition object_sample_env :: "float32 stream \<Rightarrow> object_env" where
  "object_sample_env g = \<lparr>oe_dialogue = sample_dialogue_env, oe_graphs = greetings, oe_now = 0, oe_client = (\<lambda>c. c), oe_engine = g\<rparr>"

definition object_start :: object_state where
  "object_start = \<lparr>os_world = sample_dialogue_world\<lparr>dw_objects := chest_manager,
     dw_quest := (offered hunt)\<lparr>qw_chars := [(7, default_character\<lparr>ch_characterId := 7\<rparr>), (8, default_character\<lparr>ch_characterId := 8\<rparr>)]\<rparr>\<rparr>, os_packets = []\<rparr>"

lemma chest_eq: "chest_manager = \<lparr>om_objects = [(4, chest)], om_states = [(4, \<lparr>wi_objectId = 4, wi_state = ''active'', wi_depletedAt = 0,
    wi_respawnSec = 60\<rparr>)], om_channels = []\<rparr>"
  by (simp add: chest_manager_def setWorldObjects_def chest_def default_object_def initial_instance_def)

lemma first_search:
  "dw_objects (os_world (handleInteractEvent (object_sample_env g) 1 7 4 default_position object_start)) = depleteGlobalObject 0 4 chest_manager"
proof -
  have "interact_error (object_sample_env g) 7 4 default_position (os_world object_start) = Inr None"
    by code_simp
  moreover have "getObjectById (dw_objects (os_world object_start)) 4 = chest" by (simp add: object_start_def chest_eq getObjectById_def)
  moreover have "process_type (object_sample_env g) 1 7 chest = processSearch (object_sample_env g) 1 7 chest"
    by (simp add: process_type_def chest_def)
  ultimately show ?thesis
    by (simp add: handleInteractEvent_def object_simps processSearch_def chest_def default_object_def use_up_def) (simp add: object_start_def object_sample_env_def)
qed

text \<open>A depleted object is refused.\<close>

lemma depleted_refused:
  assumes "wo_scope (getObjectById (dw_objects (os_world st)) k) = ''global''" "getGlobalState (dw_objects (os_world st)) k = ''depleted''"
  shows "dw_objects (os_world (handleInteractEvent env client c k pos st)) = dw_objects (os_world st)"
proof -
  have "interact_error env c k pos (os_world st) \<noteq> Inr None"
    using assms by (auto simp: interact_error_def Let_def split: if_splits sum.splits)
  then show ?thesis by (auto simp: handleInteractEvent_def object_simps split: sum.split option.split)
qed


section \<open>What the handler leaves open\<close>

text \<open>The quest progress of an interaction does not depend on its outcome: without the required item the object is refused and the
  step still counts.\<close>

lemma refused_use_counts:
  assumes "interact_error env c k pos (os_world st) = Inr None" "wo_objectType (getObjectById (dw_objects (os_world st)) k) = ''use_with_item''"
    and "0 < wo_requiredItemId (getObjectById (dw_objects (os_world st)) k)"
    and "\<not> hasItem (qw_inv (dw_quest (os_world st))) c (wo_requiredItemId (getObjectById (dw_objects (os_world st)) k)) 1"
  shows "handleInteractEvent env client c k pos st = quest_progress env c k
    (sendInteractResult env client (wo_id (getObjectById (dw_objects (os_world st)) k)) False ''ITEM_NOT_IN_INVENTORY'' [] st)"
  using assms by (simp add: handleInteractEvent_def process_type_def processUseWithItem_def)

text \<open>Starting a channel counts as well, before any time has passed, and its end counts again.\<close>

lemma started_channel_counts:
  assumes "interact_error env c k pos (os_world st) = Inr None" "wo_objectType (getObjectById (dw_objects (os_world st)) k) = ''channeled''"
  shows "handleInteractEvent env client c k pos st =
    quest_progress env c k (processChanneledStart env client c (getObjectById (dw_objects (os_world st)) k) st)"
  using assms by (simp add: handleInteractEvent_def process_type_def)

text \<open>The end of a channel does not look at the state of the object: a second player whose channel runs at the same time uses up
  an object that is already depleted, and restarts its respawn time.\<close>

lemma second_channel_completes:
  assumes "wo_id (getObjectById (dw_objects (os_world st)) k) = k" "k \<noteq> 0" "0 < oe_client env c"
    and "wo_scope (getObjectById (dw_objects (os_world st)) k) = ''global''"
  shows "announced k ''depleted'' (completeChannel env c k st) = Suc (announced k ''depleted'' st)"
    and "dw_objects (os_world (completeChannel env c k st)) = depleteGlobalObject (oe_now env) k (dw_objects (os_world st))"
  using assms by (simp_all add: completeChannel_def use_up_def object_simps Let_def)

text \<open>Interactions leave the quest log well formed and saved.\<close>

lemma interact_keeps_quest_log:
  assumes w: "world_ok db0 (dw_quest (os_world st))"
  shows "world_ok db0 (dw_quest (os_world (handleInteractEvent env client c k pos st)))"
proof -
  have loot: "world_ok db0 (dw_quest (os_world st1))" if "search_loot env c es g st = (found, st1)" for es g found st1
    using that w by (induction env c es g st arbitrary: found st1 rule: search_loot.induct)
      (auto simp: object_simps Let_def world_ok_gain split: prod.splits if_splits)
  have use: "world_ok db0 (dw_quest (os_world st1)) \<Longrightarrow> world_ok db0 (dw_quest (os_world (use_up env c ob st1)))" for ob st1
    by (simp add: use_up_def object_simps world_ok_flag_in)
  have same: "world_ok db0 v \<Longrightarrow> world_ok db0 (v\<lparr>qw_inv := i\<rparr>)" for v i by (rule world_ok_same) simp_all
  have search: "world_ok db0 (dw_quest (os_world (processSearch env client c ob st)))" for ob
  proof -
    obtain found st1 where l: "search_loot env c (if 0 < wo_lootTableId ob
        then getLootForMob (qe_items (de_quest (oe_dialogue env))) (wo_lootTableId ob) else []) (oe_engine env) st = (found, st1)"
      by (metis prod.collapse)
    from use[OF loot[OF l]] show ?thesis by (simp add: processSearch_def l object_simps)
  qed
  have "world_ok db0 (dw_quest (os_world (process_type env client c ob st)))" for ob
    using process_type_cases[of env client c ob] w
    by (auto simp: processExamine_def processActivate_def processUseWithItem_def processChanneledStart_def search
        object_simps object_act_def same use split: option.split)
  then show ?thesis
    using w step_world_ok[OF quest_step.Interact]
    by (auto simp: handleInteractEvent_def object_simps quest_progress_def split: sum.split option.split)
qed

end
