(* ===== verification/Spec2Isabelle.thy ===== *)
theory Spec2Isabelle
  imports Vendor Equipment Trade Experience Mastery Pity Reputation Dialogue_Sessions Dialogue_Conditions Skill_System Event_Queue Loot Champions Dialogue_Graphs Object_Handler
begin

text \<open>Verification development of the chunk server.\<close>

end
